(* ===== verification/Prelude.thy ===== *)
theory Prelude
  imports Main "HOL-Library.AList" "HOL-Library.Word"
begin

text \<open>
  Shared vocabulary of the development: the types that name Python data (byte strings,
  insertion-ordered dictionaries), the collections of rewrite rules the component theories
  fill, and the generic lemmas on association lists, slices, fixed-size blocks and ceiling
  division that several components need.
\<close>

named_theorems dict_simps \<open>look-up and update of Python dictionaries\<close>
named_theorems slice_simps \<open>lengths and concatenation of slices\<close>

type_synonym byte = "8 word"
type_synonym bytes = "byte list"
type_synonym ('k, 'v) dict = "('k \<times> 'v) list"

section \<open>Python dictionaries as association lists\<close>

text \<open>
  A \<open>dict\<close> is the list of its items in insertion order. \<open>d[k] = v\<close> keeps the position of
  an existing key and appends a new one, which is what \<open>AList.update\<close> does.
\<close>

abbreviation dict_get :: "('k, 'v) dict \<Rightarrow> 'k \<Rightarrow> 'v option" where
  "dict_get \<equiv> map_of"

abbreviation dict_set :: "'k \<Rightarrow> 'v \<Rightarrow> ('k, 'v) dict \<Rightarrow> ('k, 'v) dict" where
  "dict_set \<equiv> AList.update"

abbreviation dict_pop :: "'k \<Rightarrow> ('k, 'v) dict \<Rightarrow> ('k, 'v) dict" where
  "dict_pop \<equiv> AList.delete"

lemma dict_get_set [simp, dict_simps]:
  "dict_get (dict_set k v d) j = (if j = k then Some v else dict_get d j)"
  by (simp add: update_conv')

lemma dict_get_pop [simp, dict_simps]:
  "dict_get (dict_pop k d) j = (if j = k then None else dict_get d j)"
  by (simp add: delete_conv')

lemma dict_set_new [dict_simps]: "k \<notin> fst ` set d \<Longrightarrow> dict_set k v d = d @ [(k, v)]"
  by (induction d) auto

text \<open>Writing a list of items one after the other, later items winning.\<close>

fun dict_update :: "('k, 'v) dict \<Rightarrow> ('k \<times> 'v) list \<Rightarrow> ('k, 'v) dict" where
  "dict_update d [] = d"
| "dict_update d ((k, v) # kvs) = dict_update (dict_set k v d) kvs"

lemma dict_get_update:
  "dict_get (dict_update d kvs) j = (case dict_get (rev kvs) j of None \<Rightarrow> dict_get d j | Some v \<Rightarrow> Some v)"
  by (induction d kvs rule: dict_update.induct) (auto simp: map_add_def split: option.splits)

lemma map_of_rev_distinct:
  assumes "distinct (map fst kvs)"
  shows "map_of (rev kvs) = map_of kvs"
proof -
  have "distinct (map fst (rev kvs))" and "set (rev kvs) = set kvs"
    using assms by (simp_all add: rev_map [symmetric])
  then show ?thesis using assms by (metis map_of_inject_set)
qed

lemma dict_get_update_distinct [dict_simps]:
  "distinct (map fst kvs) \<Longrightarrow>
   dict_get (dict_update d kvs) j = (case dict_get kvs j of None \<Rightarrow> dict_get d j | Some v \<Rightarrow> Some v)"
  by (simp add: dict_get_update map_of_rev_distinct)

text \<open>\<open>list(dict.fromkeys(xs))\<close>: first occurrences, in order.\<close>

definition dict_fromkeys :: "'a list \<Rightarrow> 'a list" where
  "dict_fromkeys xs = rev (remdups (rev xs))"

lemma set_dict_fromkeys [simp]: "set (dict_fromkeys xs) = set xs"
  and distinct_dict_fromkeys [simp]: "distinct (dict_fromkeys xs)"
  by (simp_all add: dict_fromkeys_def)

lemma length_dict_fromkeys: "length (dict_fromkeys xs) = card (set xs)"
  by (simp add: dict_fromkeys_def length_remdups_card_conv)

section \<open>Slices and blocks\<close>

text \<open>\<open>xs[a:b]\<close> for \<open>0 \<le> a\<close>: Python clips both ends to the length.\<close>

definition slice :: "'a list \<Rightarrow> nat \<Rightarrow> nat \<Rightarrow> 'a list" where
  "slice xs a b = take (b - a) (drop a xs)"

lemma length_slice [simp, slice_simps]: "length (slice xs a b) = min b (length xs) - a"
  by (auto simp: slice_def)

lemma slice_all [simp, slice_simps]: "length xs \<le> b \<Longrightarrow> slice xs 0 b = xs"
  by (simp add: slice_def)

lemma slice_append [slice_simps]: "a \<le> b \<Longrightarrow> b \<le> c \<Longrightarrow> slice xs a b @ slice xs b c = slice xs a c"
proof -
  assume le: "a \<le> b" "b \<le> c"
  then obtain m n where "b = a + m" "c = a + m + n"
    by (metis le_Suc_ex)
  then show ?thesis
    by (simp add: slice_def take_add add.commute)
qed

text \<open>The first \<open>n\<close> blocks of \<open>m\<close> elements, concatenated, are the first \<open>n * m\<close> elements.\<close>

lemma concat_blocks:
  "concat (map (\<lambda>i. slice xs (i * m) (i * m + m)) [0..<n]) = take (n * m) xs"
proof (induction n)
  case 0
  then show ?case by simp
next
  case (Suc n)
  have "take (Suc n * m) xs = take (n * m) xs @ take m (drop (n * m) xs)"
    by (metis add.commute mult_Suc take_add)
  with Suc show ?case
    by (simp add: slice_def)
qed

corollary concat_blocks_cover:
  "length xs \<le> n * m \<Longrightarrow> concat (map (\<lambda>i. slice xs (i * m) (i * m + m)) [0..<n]) = xs"
  by (simp add: concat_blocks)

text \<open>\<open>items[i : i + n]\<close> for \<open>i\<close> in \<open>range(0, len(items), n)\<close>, \<open>n > 0\<close>.\<close>

fun blocks :: "nat \<Rightarrow> 'a list \<Rightarrow> 'a list list" where
  "blocks 0 xs = [xs]"
| "blocks (Suc n) [] = []"
| "blocks (Suc n) (x # xs) = take (Suc n) (x # xs) # blocks (Suc n) (drop n xs)"

lemma concat_blocks_of: "concat (blocks n xs) = xs"
  by (induction n xs rule: blocks.induct) auto

lemma blocks_nonempty: "0 < n \<Longrightarrow> b \<in> set (blocks n xs) \<Longrightarrow> b \<noteq> [] \<and> length b \<le> n"
  by (induction n xs rule: blocks.induct) auto

section \<open>Ceiling division\<close>

text \<open>Python's \<open>-(-a // b)\<close> for \<open>b > 0\<close>.\<close>

definition ceil_div :: "int \<Rightarrow> int \<Rightarrow> int" where
  "ceil_div a b = - ((- a) div b)"

lemma ceil_div_upper: "0 < b \<Longrightarrow> a \<le> ceil_div a b * b"
  using div_mult_mod_eq [of "- a" b] pos_mod_sign [of b "- a"]
  unfolding ceil_div_def mult_minus_left by linarith

lemma ceil_div_lower: "0 < b \<Longrightarrow> (ceil_div a b - 1) * b < a"
  using div_mult_mod_eq [of "- a" b] pos_mod_bound [of b "- a"]
  unfolding ceil_div_def mult_minus_left left_diff_distrib by linarith

lemma ceil_div_le_iff: "0 < b \<Longrightarrow> ceil_div a b \<le> n \<longleftrightarrow> a \<le> n * b"
proof
  assume b: "0 < b" and "ceil_div a b \<le> n"
  then have "ceil_div a b * b \<le> n * b" by (simp add: mult_right_mono)
  with ceil_div_upper [OF b, of a] show "a \<le> n * b" by linarith
next
  assume b: "0 < b" and "a \<le> n * b"
  with ceil_div_lower [OF b, of a] have "(ceil_div a b - 1) * b < n * b" by linarith
  with b have "ceil_div a b - 1 < n" by simp
  then show "ceil_div a b \<le> n" by simp
qed

lemma ceil_div_pos: "0 < b \<Longrightarrow> 0 < a \<Longrightarrow> 0 < ceil_div a b"
  using ceil_div_le_iff [of b a 0] by (simp add: not_le [symmetric])

section \<open>Weights of a list of processes\<close>

text \<open>Replacing one element changes the sum of the weights by the difference of its weights.\<close>

lemma sum_weights_update:
  fixes f :: "'a \<Rightarrow> nat"
  assumes "i < length xs"
  shows "sum_list (map f (xs[i := y])) + f (xs ! i) = sum_list (map f xs) + f y"
  using assms
proof (induction xs arbitrary: i)
  case (Cons x xs)
  then show ?case by (cases i) (auto simp: add.assoc)
qed simp

end
