(* ===== verification/Py_Text.thy ===== *)
theory Py_Text
  imports Prelude
begin

text \<open>
  The \<open>str\<close> methods and the conversions \<open>int(...)\<close> and \<open>str(...)\<close> of the Python standard
  library that the sources call, on strings whose characters are the code points 0 to 255.
  The main facts: printing and parsing an integer are inverse, decimal numerals contain no
  separator, and splitting undoes joining.
\<close>

section \<open>str methods\<close>

definition ord_of :: "char \<Rightarrow> int" where
  "ord_of c = of_char c"

text \<open>\<open>str.isspace\<close> on code points below 256.\<close>

definition py_isspace :: "char \<Rightarrow> bool" where
  "py_isspace c \<longleftrightarrow> (let n = ord_of c in
     (9 \<le> n \<and> n \<le> 13) \<or> (28 \<le> n \<and> n \<le> 32) \<or> n = 133 \<or> n = 160)"

definition strip_by :: "(char \<Rightarrow> bool) \<Rightarrow> string \<Rightarrow> string" where
  "strip_by p s = rev (dropWhile p (rev (dropWhile p s)))"

definition strip :: "string \<Rightarrow> string" where
  "strip = strip_by py_isspace"

definition py_lower_char :: "char \<Rightarrow> char" where
  "py_lower_char c = (let n = ord_of c in
     if (65 \<le> n \<and> n \<le> 90) \<or> (192 \<le> n \<and> n \<le> 222 \<and> n \<noteq> 215) then char_of (n + 32) else c)"

definition lower :: "string \<Rightarrow> string" where
  "lower = map py_lower_char"

fun split_on :: "char \<Rightarrow> string \<Rightarrow> string list" where
  "split_on c [] = [[]]"
| "split_on c (x # xs) =
     (if x = c then [] # split_on c xs
      else (case split_on c xs of [] \<Rightarrow> [[x]] | p # ps \<Rightarrow> (x # p) # ps))"

text \<open>\<open>s.split(c, 1)\<close> and \<open>s.rsplit(c, 1)\<close> for a separator that occurs in \<open>s\<close>.\<close>

definition split_first :: "char \<Rightarrow> string \<Rightarrow> string \<times> string" where
  "split_first c s = (takeWhile (\<lambda>x. x \<noteq> c) s, tl (dropWhile (\<lambda>x. x \<noteq> c) s))"

definition split_last :: "char \<Rightarrow> string \<Rightarrow> string \<times> string" where
  "split_last c s = (let (b, a) = split_first c (rev s) in (rev a, rev b))"

definition starts_with :: "string \<Rightarrow> string \<Rightarrow> bool" where
  "starts_with p s \<longleftrightarrow> take (length p) s = p"

definition ends_with :: "string \<Rightarrow> string \<Rightarrow> bool" where
  "ends_with p s \<longleftrightarrow> length p \<le> length s \<and> drop (length s - length p) s = p"

text \<open>The joined text \<open>c.join(parts)\<close>.\<close>

fun join_with :: "char \<Rightarrow> string list \<Rightarrow> string" where
  "join_with c [] = []"
| "join_with c [p] = p"
| "join_with c (p # q # ps) = p @ c # join_with c (q # ps)"

section \<open>int(...) and str(...)\<close>

text \<open>The characters \<open>int(s)\<close> skips at both ends.\<close>

definition int_space :: "char \<Rightarrow> bool" where
  "int_space c \<longleftrightarrow> (let n = ord_of c in (9 \<le> n \<and> n \<le> 13) \<or> n = 32 \<or> n = 133 \<or> n = 160)"

definition is_digit :: "char \<Rightarrow> bool" where
  "is_digit c \<longleftrightarrow> 48 \<le> ord_of c \<and> ord_of c \<le> 57"

definition digit_val :: "char \<Rightarrow> int" where
  "digit_val c = ord_of c - 48"

definition digit_char :: "int \<Rightarrow> char" where
  "digit_char d = char_of (d + 48)"

text \<open>Digits with single underscores between them; the underscores are dropped.\<close>

definition digit_groups :: "string \<Rightarrow> string option" where
  "digit_groups s = (let ps = split_on CHR ''_'' s in
     if list_all (\<lambda>p. p \<noteq> [] \<and> list_all is_digit p) ps then Some (concat ps) else None)"

definition int_of_digits :: "string \<Rightarrow> int" where
  "int_of_digits s = foldl (\<lambda>n c. 10 * n + digit_val c) 0 s"

text \<open>
  \<open>int(s)\<close>; \<open>None\<close> is \<open>ValueError\<close>. More than 4300 digits are refused
  (\<open>sys.get_int_max_str_digits\<close>).
\<close>

definition int_of_str :: "string \<Rightarrow> int option" where
  "int_of_str s =
     (let t = strip_by int_space s;
          (neg, u) = (case t of [] \<Rightarrow> (False, [])
                      | c # r \<Rightarrow> if c = CHR ''-'' then (True, r)
                                 else if c = CHR ''+'' then (False, r) else (False, t))
      in case digit_groups u of
           None \<Rightarrow> None
         | Some ds \<Rightarrow> if 4300 < length ds then None
                      else Some (if neg then - int_of_digits ds else int_of_digits ds))"

function digits_of :: "int \<Rightarrow> string" where
  "digits_of n =
     (if n < 10 then [digit_char n] else digits_of (n div 10) @ [digit_char (n mod 10)])"
  by pat_completeness auto
termination
  by (relation "measure nat") (auto simp: nat_less_iff)

declare digits_of.simps [simp del]

definition str_of_int :: "int \<Rightarrow> string" where
  "str_of_int i = (if i < 0 then CHR ''-'' # digits_of (- i) else digits_of i)"

section \<open>Properties\<close>

lemma ord_digit_char [simp]: "0 \<le> d \<Longrightarrow> d < 10 \<Longrightarrow> ord_of (digit_char d) = d + 48"
  by (simp add: ord_of_def digit_char_def)

lemma is_digit_char [simp]: "0 \<le> d \<Longrightarrow> d < 10 \<Longrightarrow> is_digit (digit_char d)"
  by (simp add: is_digit_def)

lemma digit_val_char [simp]: "0 \<le> d \<Longrightarrow> d < 10 \<Longrightarrow> digit_val (digit_char d) = d"
  by (simp add: digit_val_def)

lemma digits_of_digits: "0 \<le> n \<Longrightarrow> list_all is_digit (digits_of n)"
proof (induction n rule: digits_of.induct)
  case (1 n)
  then show ?case by (subst digits_of.simps) auto
qed

lemma digits_of_nonempty [simp]: "digits_of n \<noteq> []"
  by (subst digits_of.simps) simp

lemma int_of_digits_snoc [simp]: "int_of_digits (ds @ [c]) = 10 * int_of_digits ds + digit_val c"
  by (simp add: int_of_digits_def)

lemma int_of_digits_inverse [simp]: "0 \<le> n \<Longrightarrow> int_of_digits (digits_of n) = n"
proof (induction n rule: digits_of.induct)
  case (1 n)
  then show ?case
    by (subst digits_of.simps) (auto simp: int_of_digits_def)
qed

lemma split_on_no_sep: "c \<notin> set s \<Longrightarrow> split_on c s = [s]"
  by (induction s) auto

lemma split_on_nonempty [simp]: "split_on c s \<noteq> []"
  by (induction s) (auto split: list.splits)

lemma split_on_append: "c \<notin> set p \<Longrightarrow> split_on c (p @ c # s) = p # split_on c s"
  by (induction p) auto

lemma split_join:
  "ps \<noteq> [] \<Longrightarrow> (\<And>p. p \<in> set ps \<Longrightarrow> c \<notin> set p) \<Longrightarrow> split_on c (join_with c ps) = ps"
  by (induction c ps rule: join_with.induct) (auto simp: split_on_no_sep split_on_append)

lemma set_join_with: "x \<in> set (join_with c ps) \<Longrightarrow> x = c \<or> (\<exists>p \<in> set ps. x \<in> set p)"
  by (induction c ps rule: join_with.induct) auto

lemma join_with_eq_Nil: "ps \<noteq> [] \<Longrightarrow> [] \<notin> set ps \<Longrightarrow> join_with c ps \<noteq> []"
  by (induction c ps rule: join_with.induct) auto

lemma join_split: "join_with c (split_on c s) = s"
  by (induction s) (auto split: list.splits elim!: join_with.elims)

lemma split_first_append: "c \<notin> set p \<Longrightarrow> split_first c (p @ c # s) = (p, s)"
  by (induction p) (auto simp: split_first_def)

lemma split_first_rebuild: "c \<in> set s \<Longrightarrow> split_first c s = (a, b) \<Longrightarrow> s = a @ c # b \<and> c \<notin> set a"
  by (induction s arbitrary: a b) (auto simp: split_first_def)

lemma split_last_append: "c \<notin> set s \<Longrightarrow> split_last c (p @ c # s) = (p, s)"
  by (simp add: split_last_def split_first_append)

lemma dropWhile_hd: "xs \<noteq> [] \<Longrightarrow> \<not> p (hd xs) \<Longrightarrow> dropWhile p xs = xs"
  by (simp add: dropWhile_eq_self_iff)

lemma strip_by_id: "s \<noteq> [] \<Longrightarrow> \<not> p (hd s) \<Longrightarrow> \<not> p (last s) \<Longrightarrow> strip_by p s = s"
  by (simp add: strip_by_def dropWhile_hd hd_rev)

lemma strip_by_none: "list_all (\<lambda>c. \<not> p c) s \<Longrightarrow> strip_by p s = s"
  by (cases "s = []") (auto simp: strip_by_id strip_by_def [of p "[]"] list_all_iff)

lemma strip_no_space: "list_all (\<lambda>c. \<not> py_isspace c) s \<Longrightarrow> strip s = s"
  by (simp add: strip_def strip_by_none)

lemma is_digit_not: "is_digit c \<Longrightarrow> c \<noteq> CHR ''-'' \<and> c \<noteq> CHR ''+'' \<and> c \<noteq> CHR ''_'' \<and>
    c \<noteq> CHR ''|'' \<and> \<not> int_space c"
  by (auto simp: is_digit_def int_space_def ord_of_def)

lemma digits_not_in: "list_all is_digit s \<Longrightarrow> \<not> is_digit c \<Longrightarrow> c \<notin> set s"
  by (auto simp: list_all_iff)

lemma sep_not_digit [simp]: "\<not> is_digit CHR ''_''" "\<not> is_digit CHR ''|''" "\<not> is_digit CHR ''m''"
    "\<not> is_digit CHR ''-''" "\<not> is_digit CHR ''+''" "\<not> is_digit CHR '':''" "\<not> is_digit CHR '',''"
  by (simp_all add: is_digit_def ord_of_def)

lemma digit_groups_digits: "list_all is_digit s \<Longrightarrow> s \<noteq> [] \<Longrightarrow> digit_groups s = Some s"
  by (simp add: digit_groups_def split_on_no_sep digits_not_in)

lemma int_of_str_digits:
  assumes "list_all is_digit s" "s \<noteq> []" "length s \<le> 4300"
  shows "int_of_str s = Some (int_of_digits s)"
proof -
  have "list_all (\<lambda>c. \<not> int_space c) s"
    using assms(1) is_digit_not by (auto simp: list_all_iff)
  then have "strip_by int_space s = s" by (rule strip_by_none)
  with assms is_digit_not show ?thesis
    by (cases s) (auto simp: int_of_str_def digit_groups_digits)
qed

text \<open>\<open>int(str(i)) == i\<close> for every integer that \<open>str\<close> and \<open>int\<close> convert.\<close>

lemma int_of_str_of_int:
  assumes "length (digits_of \<bar>i\<bar>) \<le> 4300"
  shows "int_of_str (str_of_int i) = Some i"
proof (cases "i < 0")
  case False
  with assms show ?thesis
    by (simp add: str_of_int_def int_of_str_digits digits_of_digits)
next
  case True
  let ?ds = "digits_of (- i)"
  have "list_all (\<lambda>c. \<not> int_space c) (CHR ''-'' # ?ds)"
    using True digits_of_digits [of "- i"] is_digit_not
    by (auto simp: list_all_iff int_space_def ord_of_def)
  then have "strip_by int_space (CHR ''-'' # ?ds) = CHR ''-'' # ?ds" by (rule strip_by_none)
  with True assms show ?thesis
    by (simp add: str_of_int_def int_of_str_def digit_groups_digits digits_of_digits)
qed

lemma digits_of_inject: "0 \<le> m \<Longrightarrow> 0 \<le> n \<Longrightarrow> digits_of m = digits_of n \<Longrightarrow> m = n"
  by (metis int_of_digits_inverse)

lemma digits_of_not_minus: "0 \<le> n \<Longrightarrow> digits_of n \<noteq> CHR ''-'' # s"
  using digits_of_digits [of n] by auto

lemma str_of_int_inject: "str_of_int i = str_of_int j \<Longrightarrow> i = j"
  using digits_of_inject [of "- i" "- j"] digits_of_inject [of i j]
    digits_of_not_minus [of i] digits_of_not_minus [of j]
  by (auto simp: str_of_int_def dest: sym split: if_splits)

lemma set_str_of_int: "c \<in> set (str_of_int i) \<Longrightarrow> c = CHR ''-'' \<or> is_digit c"
  using digits_of_digits [of i] digits_of_digits [of "- i"]
  by (auto simp: str_of_int_def list_all_iff split: if_splits)

lemma str_of_int_no_bar: "CHR ''|'' \<notin> set (str_of_int i)"
  using set_str_of_int by fastforce

lemma str_of_int_last: "0 \<le> i \<Longrightarrow> is_digit (last (str_of_int i))"
  using digits_of_digits [of i] digits_of_nonempty [of i]
  by (simp add: str_of_int_def list_all_iff)

lemma str_of_int_nonempty [simp]: "str_of_int i \<noteq> []"
  by (simp add: str_of_int_def)

lemma length_digits_of: "n < 10 ^ Suc k \<Longrightarrow> length (digits_of n) \<le> Suc k"
proof (induction k arbitrary: n)
  case 0
  then show ?case by (subst digits_of.simps) simp
next
  case (Suc k)
  then have "n div 10 < 10 ^ Suc k" by (simp add: div_less_iff_less_mult mult.commute)
  then have "length (digits_of (n div 10)) \<le> Suc k" by (rule Suc.IH)
  then show ?case by (subst digits_of.simps) simp
qed

lemma int_of_str_of_int_small: "\<bar>i\<bar> < 10 ^ 18 \<Longrightarrow> int_of_str (str_of_int i) = Some i"
  using length_digits_of [of "\<bar>i\<bar>" 17] by (intro int_of_str_of_int) simp

lemma separators_not_space [simp]:
  "\<not> py_isspace CHR ''=''" "\<not> py_isspace CHR '';''" "\<not> py_isspace CHR '':''"
  "\<not> py_isspace CHR '',''" "\<not> py_isspace CHR ''-''" "py_isspace CHR 0x09"
  by (simp_all add: py_isspace_def ord_of_def)

lemma is_digit_not_space: "is_digit c \<Longrightarrow> \<not> py_isspace c"
  by (auto simp: is_digit_def py_isspace_def Let_def)

end
