(* ===== verification/Errors.thy ===== *)
theory Errors
  imports Py_Text
begin

text \<open>
  \<open>errors.py\<close>: the typed connector exceptions, \<open>classify\<close> and \<open>map_aerospike_error\<close>,
  with \<open>_BatchResultError\<close> of \<open>engine.py\<close>. An exception of the Aerospike client is known
  to the sources only through \<open>isinstance\<close> tests against classes of \<open>aerospike.exception\<close>
  and through its \<open>code\<close> attribute, so the model carries exactly these two: the list of the
  named classes it is an instance of, and the code. Messages are not modelled.
\<close>

section \<open>Exceptions\<close>

text \<open>The classes of \<open>aerospike.exception\<close> that the sources name.\<close>

datatype ax_class =
    AerospikeError | RecordNotFound | RecordTooBig | TimeoutError | ConnectionError | ClientError
  | ForbiddenError | DeviceOverload | BatchQueueFullError | RecordBusy | RecordKeyMismatch

datatype connector_error =
    AerospikeConnectorError
  | AerospikeConfigError
  | AerospikeConnectionError
  | AerospikeRecordTooBigError
  | AerospikeTTLConfigError
  | AerospikeBusyError
  | AerospikeNamespaceProbeError
  | AerospikeServerLimitError
  | AerospikeInternalError
  | AerospikeUnknownError

datatype py_builtin =
    ValueError | TypeError | KeyError | IndexError | ZeroDivisionError | OverflowError
  | RuntimeError | ImportError | AttributeError | AssertionError | OtherException

datatype exn =
    Ax "ax_class list" "int option"
  | Conn connector_error
  | BatchResultError int
  | Builtin py_builtin

text \<open>\<open>isinstance(exc, ax.C)\<close> and \<open>getattr(exc, "code", None)\<close>.\<close>

fun isinstance :: "exn \<Rightarrow> ax_class \<Rightarrow> bool" where
  "isinstance (Ax cs _) c = (c \<in> set cs)"
| "isinstance _ c = False"

fun exc_code :: "exn \<Rightarrow> int option" where
  "exc_code (Ax _ code) = code"
| "exc_code (BatchResultError code) = Some code"
| "exc_code _ = None"

text \<open>Caught by \<open>except ax.AerospikeError\<close>.\<close>

abbreviation is_ax :: "exn \<Rightarrow> bool" where
  "is_ax e \<equiv> isinstance e AerospikeError"

definition AEROSPIKE_ERR_FAIL_FORBIDDEN :: int where
  "AEROSPIKE_ERR_FAIL_FORBIDDEN = 22"

definition AEROSPIKE_ERR_KEY_BUSY :: int where
  "AEROSPIKE_ERR_KEY_BUSY = 14"

definition result_to_exc :: "int \<Rightarrow> exn" where
  "result_to_exc result_code = BatchResultError result_code"

text \<open>Sequencing of computations that may raise: the rest runs only after a normal return.\<close>

definition bindE :: "exn + 'a \<Rightarrow> ('a \<Rightarrow> exn + 'b) \<Rightarrow> exn + 'b" where
  "bindE m f = (case m of Inl e \<Rightarrow> Inl e | Inr x \<Rightarrow> f x)"

lemma bindE_simps [simp]: "bindE (Inl e) f = Inl e" "bindE (Inr x) f = f x"
  by (simp_all add: bindE_def)

lemma bindE_eq_Inr: "bindE m f = Inr y \<longleftrightarrow> (\<exists>x. m = Inr x \<and> f x = Inr y)"
  by (cases m) auto

lemma bindE_eq_Inl: "bindE m f = Inl e \<longleftrightarrow> m = Inl e \<or> (\<exists>x. m = Inr x \<and> f x = Inl e)"
  by (cases m) auto

lemma bindE_InrE: "bindE m f = Inr y \<Longrightarrow> (\<And>x. m = Inr x \<Longrightarrow> f x = Inr y \<Longrightarrow> P) \<Longrightarrow> P"
  by (cases m) auto

lemma bindE_InlE:
  "bindE m f = Inl e \<Longrightarrow> (m = Inl e \<Longrightarrow> P) \<Longrightarrow> (\<And>x. m = Inr x \<Longrightarrow> f x = Inl e \<Longrightarrow> P) \<Longrightarrow> P"
  by (cases m) auto

lemma raise_if_InrE: "(if b then Inl e else m) = Inr y \<Longrightarrow> (\<not> b \<Longrightarrow> m = Inr y \<Longrightarrow> P) \<Longrightarrow> P"
  by (simp split: if_splits)

lemma raise_if_InlE:
  "(if b then Inl e else m) = Inl x \<Longrightarrow> (x = e \<Longrightarrow> P) \<Longrightarrow> (\<not> b \<Longrightarrow> m = Inl x \<Longrightarrow> P) \<Longrightarrow> P"
  by (auto split: if_splits)

lemmas raises_InrE = raise_if_InrE bindE_InrE
lemmas raises_InlE = raise_if_InlE bindE_InlE

section \<open>classify and map\_aerospike\_error\<close>

definition classify :: "exn \<Rightarrow> string" where
  "classify exc =
     (let code = exc_code exc in
      if code = Some AEROSPIKE_ERR_KEY_BUSY then ''busy''
      else if code = Some AEROSPIKE_ERR_FAIL_FORBIDDEN then ''forbidden_ttl''
      else if isinstance exc RecordNotFound then ''not_found''
      else if isinstance exc RecordTooBig then ''too_big''
      else if isinstance exc TimeoutError then ''timeout''
      else if isinstance exc ConnectionError \<or> isinstance exc ClientError then ''connection''
      else if code = Some AEROSPIKE_ERR_FAIL_FORBIDDEN \<or> isinstance exc ForbiddenError
        then ''forbidden_ttl''
      else if (isinstance exc DeviceOverload \<or> isinstance exc BatchQueueFullError \<or>
               isinstance exc RecordBusy) \<or> code = Some AEROSPIKE_ERR_KEY_BUSY then ''busy''
      else if isinstance exc RecordKeyMismatch then ''key_mismatch''
      else if isinstance exc AerospikeError then ''unknown''
      else ''unknown'')"

definition map_aerospike_error :: "string \<Rightarrow> exn \<Rightarrow> connector_error" where
  "map_aerospike_error op_name exc =
     (let bucket = classify exc in
      if bucket = ''not_found'' then AerospikeConnectorError
      else if bucket = ''too_big'' then AerospikeRecordTooBigError
      else if bucket = ''timeout'' then AerospikeConnectorError
      else if bucket = ''connection'' then AerospikeConnectionError
      else if bucket = ''forbidden_ttl'' then AerospikeTTLConfigError
      else if bucket = ''busy'' then AerospikeBusyError
      else if bucket = ''key_mismatch'' then AerospikeInternalError
      else if isinstance exc AerospikeError then AerospikeUnknownError
      else AerospikeUnknownError)"

section \<open>Properties\<close>

lemma classify_range:
  "classify exc \<in> {''busy'', ''forbidden_ttl'', ''not_found'', ''too_big'', ''timeout'',
     ''connection'', ''key_mismatch'', ''unknown''}"
  by (simp add: classify_def Let_def)

lemma classify_batch_result:
  "classify (result_to_exc c) =
     (if c = 14 then ''busy'' else if c = 22 then ''forbidden_ttl'' else ''unknown'')"
  by (simp add: classify_def result_to_exc_def AEROSPIKE_ERR_KEY_BUSY_def
      AEROSPIKE_ERR_FAIL_FORBIDDEN_def)

lemma classify_not_found:
  "classify exc = ''not_found'' \<longleftrightarrow>
     isinstance exc RecordNotFound \<and> exc_code exc \<noteq> Some 14 \<and> exc_code exc \<noteq> Some 22"
  by (simp add: classify_def Let_def AEROSPIKE_ERR_KEY_BUSY_def AEROSPIKE_ERR_FAIL_FORBIDDEN_def)

lemma classify_timeout:
  "classify exc = ''timeout'' \<longleftrightarrow>
     isinstance exc TimeoutError \<and> \<not> isinstance exc RecordNotFound \<and>
     \<not> isinstance exc RecordTooBig \<and> exc_code exc \<noteq> Some 14 \<and> exc_code exc \<noteq> Some 22"
  by (auto simp: classify_def Let_def AEROSPIKE_ERR_KEY_BUSY_def AEROSPIKE_ERR_FAIL_FORBIDDEN_def)

text \<open>
  The class of the raised connector error is a function of the bucket alone: each
  bucket has its own class, except that a miss and a timeout both map to the base class.
\<close>

lemma map_aerospike_error_by_bucket:
  "map_aerospike_error opn exc =
     (case classify exc of
        bucket \<Rightarrow> the (map_of [(''not_found'', AerospikeConnectorError),
          (''too_big'', AerospikeRecordTooBigError), (''timeout'', AerospikeConnectorError),
          (''connection'', AerospikeConnectionError), (''forbidden_ttl'', AerospikeTTLConfigError),
          (''busy'', AerospikeBusyError), (''key_mismatch'', AerospikeInternalError),
          (''unknown'', AerospikeUnknownError)] bucket))"
  using classify_range [of exc] by (auto simp: map_aerospike_error_def)

lemma map_batch_result:
  "map_aerospike_error opn (result_to_exc c) =
     (if c = 14 then AerospikeBusyError else if c = 22 then AerospikeTTLConfigError
      else AerospikeUnknownError)"
  by (simp add: map_aerospike_error_def classify_batch_result)

end
