(* ===== verification/Keys.thy ===== *)
theory Keys
  imports Errors
begin

unbundle bit_operations_syntax

text \<open>
  \<open>keys.py\<close> and \<open>object_keys.py\<close>: from LMCache keys to Aerospike primary keys. What a cache
  key prints as (\<open>CacheEngineKey.to_string\<close>) belongs to LMCache and is the parameter
  \<open>to_string\<close>. The locale \<open>record_keys\<close> states what the storage engine needs of the
  key scheme; its interpretation shows that the suffixes \<open>|m\<close> and \<open>|s|i\<close> provide it.
\<close>

type_synonym akey = "string \<times> string \<times> string"

section \<open>Meta and segment keys\<close>

definition meta_key :: "('k \<Rightarrow> string) \<Rightarrow> string \<Rightarrow> string \<Rightarrow> 'k \<Rightarrow> akey" where
  "meta_key to_string ns set_name ck = (ns, set_name, to_string ck @ ''|m'')"

definition segment_key :: "('k \<Rightarrow> string) \<Rightarrow> string \<Rightarrow> string \<Rightarrow> 'k \<Rightarrow> int \<Rightarrow> akey" where
  "segment_key to_string ns set_name ck index =
     (ns, set_name, to_string ck @ ''|s|'' @ str_of_int index)"

text \<open>\<open>range(n)\<close>: empty for \<open>n \<le> 0\<close>.\<close>

definition py_range :: "int \<Rightarrow> int list" where
  "py_range n = map int [0..<nat n]"

definition segment_keys :: "('k \<Rightarrow> string) \<Rightarrow> string \<Rightarrow> string \<Rightarrow> 'k \<Rightarrow> int \<Rightarrow> akey list" where
  "segment_keys to_string ns set_name ck n = map (segment_key to_string ns set_name ck) (py_range n)"

section \<open>L2 object keys\<close>

record CacheEngineKey =
  model_name :: string
  world_size :: int
  worker_id :: int
  chunk_hash :: int
  dtype :: string
  request_configs :: "(string, string) dict option"

record ObjectKey =
  ok_model_name :: string
  ok_kv_rank :: int
  ok_chunk_hash :: bytes
  ok_cache_salt :: string

text \<open>\<open>int.from_bytes(bs, byteorder="big")\<close>.\<close>

definition int_from_bytes_big :: "bytes \<Rightarrow> int" where
  "int_from_bytes_big bs = foldl (\<lambda>n b. 256 * n + uint b) 0 bs"

definition object_key_to_cache_engine_key :: "ObjectKey \<Rightarrow> string \<Rightarrow> CacheEngineKey" where
  "object_key_to_cache_engine_key key dt =
     (let ws = drop_bit 24 (ok_kv_rank key) AND 0xFF;
          wid = drop_bit 16 (ok_kv_rank key) AND 0xFF;
          ws' = (if ws \<le> 0 then 1 else ws);
          h = int_from_bytes_big (ok_chunk_hash key) AND (push_bit 64 1 - 1);
          rc = (if ok_cache_salt key \<noteq> [] then [(''lmcache.tag.cache_salt'', ok_cache_salt key)] else [])
      in \<lparr>model_name = ok_model_name key, world_size = ws', worker_id = wid, chunk_hash = h,
          dtype = dt, request_configs = (if rc = [] then None else Some rc)\<rparr>)"

section \<open>The interface the engine relies on\<close>

locale record_keys =
  fixes name :: "'k \<Rightarrow> string"
    and meta :: "'k \<Rightarrow> akey"
    and seg :: "'k \<Rightarrow> int \<Rightarrow> akey"
  assumes meta_eq: "meta k = meta k' \<longleftrightarrow> name k = name k'"
    and seg_eq: "0 \<le> i \<Longrightarrow> 0 \<le> j \<Longrightarrow> seg k i = seg k' j \<longleftrightarrow> name k = name k' \<and> i = j"
    and meta_not_seg: "0 \<le> i \<Longrightarrow> meta k \<noteq> seg k' i"
begin

text \<open>All records a key can own.\<close>

definition footprint :: "'k \<Rightarrow> akey set" where
  "footprint k = insert (meta k) (seg k ` {0..})"

lemma footprint_disjoint:
  assumes "name k \<noteq> name k'"
  shows "footprint k \<inter> footprint k' = {}"
  using assms meta_not_seg [of _ k k'] meta_not_seg [of _ k' k]
  by (auto simp: footprint_def meta_eq seg_eq dest: sym)

lemma meta_in_footprint: "meta k \<in> footprint k"
  by (simp add: footprint_def)

lemma seg_in_footprint: "0 \<le> i \<Longrightarrow> seg k i \<in> footprint k"
  by (simp add: footprint_def)

lemma segs_in_footprint: "set (map (seg k) (py_range n)) \<subseteq> footprint k"
  by (auto simp: footprint_def py_range_def)

lemma distinct_segs: "distinct (map (seg k) (py_range n))"
  by (auto simp: distinct_map inj_on_def seg_eq py_range_def)

lemma meta_notin_segs: "meta k \<notin> set (map (seg k') (py_range n))"
  by (auto simp: py_range_def meta_not_seg)

lemma distinct_metas: "distinct (map name ks) \<Longrightarrow> distinct (map meta ks)"
  by (induction ks) (auto simp: meta_eq image_iff)

end

lemma append_bar_digits_inject:
  assumes "a @ ''|s|'' @ str_of_int i = b @ ''|s|'' @ str_of_int j"
  shows "a = b \<and> i = j"
proof -
  have "split_last CHR ''|'' ((a @ ''|s'') @ CHR ''|'' # str_of_int i) = (a @ ''|s'', str_of_int i)"
    and "split_last CHR ''|'' ((b @ ''|s'') @ CHR ''|'' # str_of_int j) = (b @ ''|s'', str_of_int j)"
    by (intro split_last_append str_of_int_no_bar)+
  with assms show ?thesis by (auto dest: str_of_int_inject)
qed

lemma meta_ne_segment:
  assumes "0 \<le> i"
  shows "a @ ''|m'' \<noteq> b @ ''|s|'' @ str_of_int i"
proof
  assume "a @ ''|m'' = b @ ''|s|'' @ str_of_int i"
  then have "last (a @ ''|m'') = last (b @ ''|s|'' @ str_of_int i)" by simp
  then have "last (str_of_int i) = CHR ''m''" by simp
  with str_of_int_last [OF assms] show False by simp
qed

interpretation rk: record_keys to_string "meta_key to_string ns set_name" "segment_key to_string ns set_name"
  for to_string ns set_name
proof unfold_locales
  fix k k' :: 'a and i j :: int
  show "meta_key to_string ns set_name k = meta_key to_string ns set_name k' \<longleftrightarrow> to_string k = to_string k'"
    by (simp add: meta_key_def)
  show "0 \<le> i \<Longrightarrow> meta_key to_string ns set_name k \<noteq> segment_key to_string ns set_name k' i"
    using meta_ne_segment by (simp add: meta_key_def segment_key_def)
  show "segment_key to_string ns set_name k i = segment_key to_string ns set_name k' j \<longleftrightarrow>
      to_string k = to_string k' \<and> i = j"
    using append_bar_digits_inject by (auto simp: segment_key_def)
qed

lemmas segment_keys_alt = segment_keys_def

lemma py_range_simps [simp]: "set (py_range n) = {0..<n}" "length (py_range n) = nat n"
  by (auto simp: py_range_def image_int_atLeastLessThan)

lemma nth_py_range [simp]: "i < nat n \<Longrightarrow> py_range n ! i = int i"
  by (simp add: py_range_def)

section \<open>Properties\<close>

text \<open>
  C35: the keys of one logical key never meet those of another: if the printed cache keys
  differ, no meta or segment key of the one equals a meta or segment key of the other, and
  within one key the meta key and all segment keys are pairwise different.
\<close>

theorem key_spaces_disjoint:
  fixes to_string :: "'k \<Rightarrow> string"
  assumes "to_string k \<noteq> to_string k'" and "0 \<le> i" and "0 \<le> j"
  shows "meta_key to_string ns s k \<noteq> meta_key to_string ns s k' \<and>
         segment_key to_string ns s k i \<noteq> segment_key to_string ns s k' j \<and>
         meta_key to_string ns s k \<noteq> segment_key to_string ns s k' j \<and>
         meta_key to_string ns s k \<noteq> segment_key to_string ns s k j \<and>
         distinct (segment_keys to_string ns s k n)"
  using assms
  by (simp add: rk.meta_eq rk.seg_eq rk.meta_not_seg segment_keys_def rk.distinct_segs)

theorem key_spaces_disjoint_witness:
  "segment_key id ''ns'' ''s'' ''k|s|1'' 1 \<noteq> segment_key id ''ns'' ''s'' ''k'' 11 \<and>
   distinct (segment_keys id ''ns'' ''s'' ''k'' 12)"
  using key_spaces_disjoint [of id "''k|s|1''" "''k''" 1 11 "''ns''" "''s''"]
        key_spaces_disjoint [of id "''k''" "''k|s|1''" 1 11 "''ns''" "''s''" 12] by simp

lemma int_from_bytes_big_snoc: "int_from_bytes_big (bs @ [b]) = 256 * int_from_bytes_big bs + uint b"
  by (simp add: int_from_bytes_big_def)

lemma mask_eq: "x AND (push_bit 64 1 - 1) = (x :: int) mod 2 ^ 64"
  using take_bit_eq_mask [of 64 x] by (simp add: mask_eq_exp_minus_1 take_bit_eq_mod)

lemma and_ff: "x AND 0xFF = (x :: int) mod 256"
  using take_bit_eq_mask [of 8 x] by (simp add: mask_eq_exp_minus_1 take_bit_eq_mod)

lemma int_from_bytes_big_append:
  "int_from_bytes_big (a @ b) = int_from_bytes_big a * 256 ^ length b + int_from_bytes_big b"
  by (induction b rule: rev_induct)
     (simp_all add: int_from_bytes_big_def algebra_simps flip: append_assoc)

text \<open>Only the low 64 bits, that is the last eight bytes, of a chunk hash matter.\<close>

lemma int_from_bytes_low64:
  assumes "8 \<le> length bs"
  shows "int_from_bytes_big bs mod 2 ^ 64 = int_from_bytes_big (drop (length bs - 8) bs) mod 2 ^ 64"
proof -
  have "int_from_bytes_big bs = int_from_bytes_big (take (length bs - 8) bs @ drop (length bs - 8) bs)"
    by simp
  also have "\<dots> = int_from_bytes_big (take (length bs - 8) bs) * 2 ^ 64
      + int_from_bytes_big (drop (length bs - 8) bs)"
    using assms by (subst int_from_bytes_big_append) simp
  finally show ?thesis by simp
qed

definition salt_tag :: "string \<Rightarrow> (string, string) dict option" where
  "salt_tag s = (if s = [] then None else Some [(''lmcache.tag.cache_salt'', s)])"

lemma salt_tag_eq: "salt_tag s = salt_tag t \<longleftrightarrow> s = t"
  by (simp add: salt_tag_def)

lemma max_one: "(if x \<le> 0 then 1 else x) = max 1 (x :: int)"
  by simp

lemma mod_byte: "(x :: int) mod 256 \<le> 255"
  using pos_mod_bound [of 256 x] by linarith

text \<open>The conversion with the bit operations read as arithmetic.\<close>

lemma object_key_arith:
  "object_key_to_cache_engine_key k dt =
     \<lparr>model_name = ok_model_name k, world_size = max 1 (ok_kv_rank k div 2 ^ 24 mod 256),
      worker_id = ok_kv_rank k div 2 ^ 16 mod 256,
      chunk_hash = int_from_bytes_big (ok_chunk_hash k) mod 2 ^ 64, dtype = dt,
      request_configs = salt_tag (ok_cache_salt k)\<rparr>"
  by (simp only: object_key_to_cache_engine_key_def Let_def mask_eq and_ff drop_bit_eq_div max_one)
     (simp add: salt_tag_def)

text \<open>
  C36: two L2 object keys map to the same cache key exactly when they agree on the model name,
  the salt, the low 64 bits of the chunk hash, the worker byte, and the world-size byte with
  0 read as 1; in particular the low 16 bits of \<open>kv_rank\<close> and the high hash bytes are lost.
\<close>

theorem object_key_collision_iff:
  "object_key_to_cache_engine_key k1 dt = object_key_to_cache_engine_key k2 dt \<longleftrightarrow>
     ok_model_name k1 = ok_model_name k2 \<and> ok_cache_salt k1 = ok_cache_salt k2 \<and>
     int_from_bytes_big (ok_chunk_hash k1) mod 2 ^ 64 = int_from_bytes_big (ok_chunk_hash k2) mod 2 ^ 64 \<and>
     ok_kv_rank k1 div 2 ^ 16 mod 256 = ok_kv_rank k2 div 2 ^ 16 mod 256 \<and>
     max 1 (ok_kv_rank k1 div 2 ^ 24 mod 256) = max 1 (ok_kv_rank k2 div 2 ^ 24 mod 256)"
  by (simp only: object_key_arith CacheEngineKey.ext_inject salt_tag_eq) blast

text \<open>
  The fields of the derived cache key are always in range: the world size is between 1
  and 255, the worker id between 0 and 255, and the chunk hash an unsigned 64-bit value.
\<close>

theorem object_key_ranges:
  "world_size (object_key_to_cache_engine_key k dt) \<in> {1..255} \<and>
   worker_id (object_key_to_cache_engine_key k dt) \<in> {0..255} \<and>
   chunk_hash (object_key_to_cache_engine_key k dt) \<in> {0..<2 ^ 64}"
  by (simp add: object_key_arith mod_byte)

end
