(* ===== verification/Config.thy ===== *)
theory Config
  imports Errors
begin

text \<open>
  \<open>config.py\<close>: parsing and validation of the LMCache \<open>extra_config\<close> dictionary into a frozen
  \<open>AerospikeConfig\<close>. Configuration values are arbitrary Python objects; the code inspects
  them only through \<open>isinstance\<close> with \<open>bool\<close> and \<open>str\<close>, \<open>is None\<close>, \<open>int(...)\<close> and
  \<open>str(...)\<close>, so an object of any other class is represented by what these two return.
\<close>

section \<open>Python values\<close>

datatype pyval =
    PNone
  | PBool bool
  | PInt int
  | PStr string
  | PObj string "exn + int"

fun py_str :: "pyval \<Rightarrow> string" where
  "py_str PNone = ''None''"
| "py_str (PBool b) = (if b then ''True'' else ''False'')"
| "py_str (PInt i) = str_of_int i"
| "py_str (PStr s) = s"
| "py_str (PObj s _) = s"

fun py_int :: "pyval \<Rightarrow> exn + int" where
  "py_int PNone = Inl (Builtin TypeError)"
| "py_int (PBool b) = Inr (if b then 1 else 0)"
| "py_int (PInt i) = Inr i"
| "py_int (PStr s) = (case int_of_str s of None \<Rightarrow> Inl (Builtin ValueError) | Some i \<Rightarrow> Inr i)"
| "py_int (PObj _ r) = r"

abbreviation config_error :: "exn + 'a" where
  "config_error \<equiv> Inl (Conn AerospikeConfigError)"

section \<open>Value parsers\<close>

definition COMMIT_LEVELS :: "string list" where
  "COMMIT_LEVELS = [''all'', ''master'']"

definition REPLICAS :: "string list" where
  "REPLICAS = [''master'', ''any'', ''sequence'', ''prefer_rack'']"

definition DEFAULT_TARGET_SEGMENT_BYTES :: int where
  "DEFAULT_TARGET_SEGMENT_BYTES = 4 * 1024 * 1024"

definition DEFAULT_MIN_SEGMENT_BYTES :: int where
  "DEFAULT_MIN_SEGMENT_BYTES = 64 * 1024"

definition DEFAULT_TTL_SECONDS :: int where
  "DEFAULT_TTL_SECONDS = 86400"

fun parse_bool :: "pyval \<Rightarrow> exn + bool" where
  "parse_bool (PBool b) = Inr b"
| "parse_bool (PStr s) =
     (let lowered = lower (strip s) in
      if lowered \<in> set [''true'', ''1'', ''yes'', ''on''] then Inr True
      else if lowered \<in> set [''false'', ''0'', ''no'', ''off''] then Inr False
      else config_error)"
| "parse_bool _ = config_error"

text \<open>Only \<open>TypeError\<close> and \<open>ValueError\<close> of \<open>int(value)\<close> are turned into a configuration error.\<close>

fun parse_int :: "pyval \<Rightarrow> exn + int" where
  "parse_int (PBool b) = config_error"
| "parse_int v =
     (case py_int v of
        Inl e \<Rightarrow> if e = Builtin TypeError \<or> e = Builtin ValueError then config_error else Inl e
      | Inr i \<Rightarrow> Inr i)"

text \<open>One item of the comma-separated list: \<open>None\<close> when it is blank and skipped.\<close>

definition parse_host_part :: "string \<Rightarrow> exn + (string \<times> int) option" where
  "parse_host_part raw =
     (let part = strip raw in
      if part = [] then Inr None
      else if CHR '':'' \<notin> set part then config_error
      else
        (let (h, port_s) = split_last CHR '':'' part; host = strip h in
         if host = [] then config_error
         else (case int_of_str port_s of
                 None \<Rightarrow> config_error
               | Some port \<Rightarrow>
                   if port \<le> 0 \<or> port > 65535 then config_error else Inr (Some (host, port)))))"

fun parse_host_parts :: "string list \<Rightarrow> exn + (string \<times> int) list" where
  "parse_host_parts [] = Inr []"
| "parse_host_parts (p # ps) =
     bindE (parse_host_part p) (\<lambda>h.
     bindE (parse_host_parts ps) (\<lambda>hs.
     Inr (case h of None \<Rightarrow> hs | Some x \<Rightarrow> x # hs)))"

fun parse_hosts :: "pyval \<Rightarrow> exn + (string \<times> int) list" where
  "parse_hosts (PStr s) =
     (if strip s = [] then config_error
      else bindE (parse_host_parts (split_on CHR '','' s)) (\<lambda>hosts.
        if hosts = [] then config_error else Inr hosts))"
| "parse_hosts _ = config_error"

section \<open>AerospikeConfig\<close>

record AerospikeConfig =
  cfg_plugin_name :: string
  cfg_hosts :: "(string \<times> int) list"
  cfg_namespace :: string
  cfg_set_name :: string
  cfg_target_segment_bytes :: int
  cfg_max_segment_bytes :: "int option"
  cfg_min_segment_bytes :: int
  cfg_single_record_threshold_bytes :: "int option"
  cfg_default_ttl_seconds :: int
  cfg_read_timeout_ms :: int
  cfg_write_timeout_ms :: int
  cfg_batch_max_in_flight :: int
  cfg_executor_threads :: int
  cfg_enable_list :: bool
  cfg_enable_crc32 :: bool
  cfg_commit_level :: string
  cfg_replica :: string
  cfg_send_key :: bool
  cfg_username :: string
  cfg_password :: string
  cfg_tls_name :: string

definition config_key :: "AerospikeConfig \<Rightarrow> string \<Rightarrow> string" where
  "config_key cfg name = ''remote_storage_plugin.'' @ cfg_plugin_name cfg @ ''.'' @ name"

text \<open>The nested function \<open>lookup(short_name, *aliases)\<close>: the first key present wins.\<close>

fun lookup :: "(string, pyval) dict \<Rightarrow> string \<Rightarrow> string list \<Rightarrow> pyval" where
  "lookup data prefix [] = PNone"
| "lookup data prefix (k # ks) =
     (case dict_get data (prefix @ k) of Some v \<Rightarrow> v | None \<Rightarrow> lookup data prefix ks)"

definition config_prefix_of :: "string \<Rightarrow> string option \<Rightarrow> string" where
  "config_prefix_of plugin_name config_prefix =
     (let dflt = ''remote_storage_plugin.'' @ plugin_name @ ''.'';
          p = (case config_prefix of None \<Rightarrow> dflt | Some q \<Rightarrow> if q = [] then dflt else q)
      in if ends_with ''.'' p then p else p @ ''.'')"

text \<open>\<open>default if raw is None else parse(raw)\<close>.\<close>

definition or_default :: "pyval \<Rightarrow> 'a \<Rightarrow> (pyval \<Rightarrow> exn + 'a) \<Rightarrow> exn + 'a" where
  "or_default raw d parse = (if raw = PNone then Inr d else parse raw)"

definition str_or :: "pyval \<Rightarrow> string \<Rightarrow> string" where
  "str_or raw d = (if raw = PNone then d else py_str raw)"

definition opt_int :: "pyval \<Rightarrow> exn + int option" where
  "opt_int raw = or_default raw None (\<lambda>v. bindE (parse_int v) (\<lambda>i. Inr (Some i)))"

text \<open>The checks after parsing, in the order of the source.\<close>

definition validate :: "AerospikeConfig \<Rightarrow> exn + AerospikeConfig" where
  "validate c =
     (if cfg_commit_level c \<notin> set COMMIT_LEVELS then config_error
      else if cfg_replica c \<notin> set REPLICAS then config_error
      else if list_ex (\<lambda>v. v \<le> 0)
        [cfg_target_segment_bytes c, cfg_min_segment_bytes c, cfg_read_timeout_ms c,
         cfg_write_timeout_ms c, cfg_batch_max_in_flight c, cfg_executor_threads c] then config_error
      else if (case cfg_max_segment_bytes c of None \<Rightarrow> False | Some v \<Rightarrow> v \<le> 0) then config_error
      else if (case cfg_single_record_threshold_bytes c of None \<Rightarrow> False | Some v \<Rightarrow> v \<le> 0)
        then config_error
      else Inr c)"

definition from_extra_config ::
  "(string, pyval) dict option \<Rightarrow> string \<Rightarrow> string option \<Rightarrow> exn + AerospikeConfig" where
  "from_extra_config extra_config plugin_name config_prefix =
     (let data = (case extra_config of None \<Rightarrow> [] | Some d \<Rightarrow> d);
          prefix = config_prefix_of plugin_name config_prefix;
          lk = (\<lambda>n. lookup data prefix [n]);
          hosts_raw = lk ''hosts''
      in if hosts_raw = PNone then config_error else
      bindE (parse_hosts hosts_raw) (\<lambda>hosts.
      let namespace_s = str_or (lk ''namespace'') ''lmcache'';
          set_name_s = str_or (lookup data prefix [''set'', ''set_name'']) ''kv_chunks'' in
      bindE (or_default (lk ''target_segment_bytes'') DEFAULT_TARGET_SEGMENT_BYTES parse_int) (\<lambda>target.
      bindE (opt_int (lk ''max_segment_bytes'')) (\<lambda>mx.
      bindE (or_default (lk ''min_segment_bytes'') DEFAULT_MIN_SEGMENT_BYTES parse_int) (\<lambda>mn.
      bindE (opt_int (lk ''single_record_threshold_bytes'')) (\<lambda>single.
      bindE (or_default (lk ''default_ttl_seconds'') DEFAULT_TTL_SECONDS parse_int) (\<lambda>ttl.
      bindE (or_default (lk ''read_timeout_ms'') 1000 parse_int) (\<lambda>read_to.
      bindE (or_default (lk ''write_timeout_ms'') 2000 parse_int) (\<lambda>write_to.
      bindE (or_default (lk ''batch_max_in_flight'') 64 parse_int) (\<lambda>batch.
      bindE (or_default (lk ''executor_threads'') 16 parse_int) (\<lambda>threads.
      bindE (or_default (lk ''enable_list'') False parse_bool) (\<lambda>enable_list.
      bindE (or_default (lk ''enable_crc32'') False parse_bool) (\<lambda>enable_crc32.
      let commit_level = (if lk ''commit_level'' = PNone then ''all''
                          else lower (strip (py_str (lk ''commit_level''))));
          replica = (if lk ''replica'' = PNone then ''sequence''
                     else lower (strip (py_str (lk ''replica'')))) in
      bindE (or_default (lk ''send_key'') False parse_bool) (\<lambda>send_key.
      validate
        \<lparr>cfg_plugin_name = plugin_name, cfg_hosts = hosts, cfg_namespace = namespace_s,
         cfg_set_name = set_name_s, cfg_target_segment_bytes = target,
         cfg_max_segment_bytes = mx, cfg_min_segment_bytes = mn,
         cfg_single_record_threshold_bytes = single, cfg_default_ttl_seconds = ttl,
         cfg_read_timeout_ms = read_to, cfg_write_timeout_ms = write_to,
         cfg_batch_max_in_flight = batch, cfg_executor_threads = threads,
         cfg_enable_list = enable_list, cfg_enable_crc32 = enable_crc32,
         cfg_commit_level = commit_level, cfg_replica = replica, cfg_send_key = send_key,
         cfg_username = str_or (lk ''username'') [], cfg_password = str_or (lk ''password'') [],
         cfg_tls_name = str_or (lk ''tls_name'') []\<rparr>))))))))))))))"

definition from_storage_plugin_config ::
  "(string, pyval) dict option \<Rightarrow> string \<Rightarrow> exn + AerospikeConfig" where
  "from_storage_plugin_config extra_config plugin_name =
     from_extra_config extra_config plugin_name (Some (''storage_plugin.'' @ plugin_name))"

definition from_adapter_params ::
  "(string, pyval) dict option \<Rightarrow> string \<Rightarrow> exn + AerospikeConfig" where
  "from_adapter_params params plugin_name =
     (let data = (case params of None \<Rightarrow> [] | Some d \<Rightarrow> d);
          remapped = map (\<lambda>(k, v). (''remote_storage_plugin.'' @ plugin_name @ ''.'' @ k, v)) data
      in from_extra_config (Some remapped) plugin_name None)"

section \<open>Lemmas\<close>

definition config_ok :: "AerospikeConfig \<Rightarrow> bool" where
  "config_ok c \<longleftrightarrow>
     cfg_hosts c \<noteq> [] \<and> list_all (\<lambda>(h, p). h \<noteq> [] \<and> 1 \<le> p \<and> p \<le> 65535) (cfg_hosts c) \<and>
     0 < cfg_target_segment_bytes c \<and> 0 < cfg_min_segment_bytes c \<and>
     0 < cfg_read_timeout_ms c \<and> 0 < cfg_write_timeout_ms c \<and>
     0 < cfg_batch_max_in_flight c \<and> 0 < cfg_executor_threads c \<and>
     pred_option (\<lambda>v. 0 < v) (cfg_max_segment_bytes c) \<and>
     pred_option (\<lambda>v. 0 < v) (cfg_single_record_threshold_bytes c) \<and>
     cfg_commit_level c \<in> set COMMIT_LEVELS \<and> cfg_replica c \<in> set REPLICAS"

lemma parse_host_part_ok:
  "parse_host_part raw = Inr (Some (h, p)) \<Longrightarrow> h \<noteq> [] \<and> 1 \<le> p \<and> p \<le> 65535"
  by (auto simp: parse_host_part_def Let_def split: if_splits prod.splits option.splits)

lemma parse_host_parts_ok:
  "parse_host_parts ps = Inr hs \<Longrightarrow> list_all (\<lambda>(h, p). h \<noteq> [] \<and> 1 \<le> p \<and> p \<le> 65535) hs"
  by (induction ps arbitrary: hs)
     (auto simp: bindE_eq_Inr dest!: parse_host_part_ok split: option.splits)

lemma parse_hosts_ok:
  "parse_hosts v = Inr hs \<Longrightarrow>
   hs \<noteq> [] \<and> list_all (\<lambda>(h, p). h \<noteq> [] \<and> 1 \<le> p \<and> p \<le> 65535) hs"
  by (cases v) (auto simp: bindE_eq_Inr dest: parse_host_parts_ok split: if_splits)

lemma validate_ok:
  assumes "validate c = Inr c'" and "cfg_hosts c \<noteq> []"
    and "list_all (\<lambda>(h, p). h \<noteq> [] \<and> 1 \<le> p \<and> p \<le> 65535) (cfg_hosts c)"
  shows "c' = c \<and> config_ok c"
  using assms by (auto simp: validate_def config_ok_def not_le split: if_splits option.splits)

lemma validate_parse_ok:
  "validate c' = Inr c \<Longrightarrow> parse_hosts v = Inr (cfg_hosts c') \<Longrightarrow> config_ok c"
  using validate_ok [of c' c] parse_hosts_ok [of v] by simp

text \<open>A failing parser, and so a failing configuration, is a configuration error unless
  \<open>int(...)\<close> of some value raised something else.\<close>

definition plain_values :: "(string, pyval) dict \<Rightarrow> bool" where
  "plain_values d \<longleftrightarrow>
     list_all (\<lambda>(k, v). case v of PObj _ (Inl e) \<Rightarrow> e = Builtin TypeError \<or> e = Builtin ValueError
                          | _ \<Rightarrow> True) d"

definition plain_value :: "pyval \<Rightarrow> bool" where
  "plain_value v \<longleftrightarrow> (case v of PObj _ (Inl e) \<Rightarrow> e = Builtin TypeError \<or> e = Builtin ValueError
                          | _ \<Rightarrow> True)"

lemma plain_lookup: "plain_values d \<Longrightarrow> plain_value (lookup d p ks)"
  by (induction ks)
     (auto simp: plain_values_def plain_value_def list_all_iff split: option.splits dest!: map_of_SomeD)

lemma parse_bool_err: "parse_bool v = Inl e \<Longrightarrow> e = Conn AerospikeConfigError"
  by (cases v) (auto simp: Let_def split: if_splits)

lemma parse_int_err: "parse_int v = Inl e \<Longrightarrow> plain_value v \<Longrightarrow> e = Conn AerospikeConfigError"
  by (cases v) (auto simp: plain_value_def split: if_splits option.splits sum.splits)

lemma parse_host_part_err: "parse_host_part raw = Inl e \<Longrightarrow> e = Conn AerospikeConfigError"
  by (auto simp: parse_host_part_def Let_def split: if_splits prod.splits option.splits)

lemma parse_host_parts_err: "parse_host_parts ps = Inl e \<Longrightarrow> e = Conn AerospikeConfigError"
  by (induction ps) (auto simp: bindE_eq_Inl dest: parse_host_part_err)

lemma parse_hosts_err: "parse_hosts v = Inl e \<Longrightarrow> e = Conn AerospikeConfigError"
  by (cases v) (auto simp: bindE_eq_Inl dest: parse_host_parts_err split: if_splits)

lemma validate_err: "validate c = Inl e \<Longrightarrow> e = Conn AerospikeConfigError"
  by (auto simp: validate_def split: if_splits option.splits)

lemma or_default_err:
  "or_default raw d parse = Inl e \<Longrightarrow> parse raw = Inl e"
  by (simp add: or_default_def split: if_splits)

lemma opt_int_err: "opt_int raw = Inl e \<Longrightarrow> plain_value raw \<Longrightarrow> e = Conn AerospikeConfigError"
  by (auto simp: opt_int_def or_default_def bindE_eq_Inl dest: parse_int_err split: if_splits)

lemmas config_errs = parse_bool_err parse_int_err parse_hosts_err validate_err opt_int_err

text \<open>Look-ups see only the keys under the prefix.\<close>

definition same_under :: "string \<Rightarrow> (string, pyval) dict \<Rightarrow> (string, pyval) dict \<Rightarrow> bool" where
  "same_under prefix d d' \<longleftrightarrow> (\<forall>k. dict_get d (prefix @ k) = dict_get d' (prefix @ k))"

lemma lookup_same_under: "same_under prefix d d' \<Longrightarrow> lookup d prefix ks = lookup d' prefix ks"
  by (induction ks) (simp_all add: same_under_def split: option.splits)

lemma map_of_prefix: "map_of (map (\<lambda>(k, v). (p @ k, v)) d) (p @ k) = map_of d k"
  by (induction d) auto

text \<open>The documented form of the \<open>hosts\<close> value: \<open>host:port[,host:port...]\<close>.\<close>

definition print_host :: "string \<times> int \<Rightarrow> string" where
  "print_host hp = fst hp @ CHR '':'' # str_of_int (snd hp)"

definition print_hosts :: "(string \<times> int) list \<Rightarrow> string" where
  "print_hosts hs = join_with CHR '','' (map print_host hs)"

definition host_ok :: "string \<times> int \<Rightarrow> bool" where
  "host_ok hp \<longleftrightarrow> fst hp \<noteq> [] \<and> CHR '','' \<notin> set (fst hp) \<and> list_all (\<lambda>c. \<not> py_isspace c) (fst hp) \<and>
     1 \<le> snd hp \<and> snd hp \<le> 65535"

lemma str_of_int_plain:
  "CHR '','' \<notin> set (str_of_int i)" "CHR '':'' \<notin> set (str_of_int i)"
  "list_all (\<lambda>c. \<not> py_isspace c) (str_of_int i)"
proof -
  show "CHR '','' \<notin> set (str_of_int i)" "CHR '':'' \<notin> set (str_of_int i)"
    using set_str_of_int by fastforce+
  have "\<not> py_isspace CHR ''-''" by (simp add: py_isspace_def ord_of_def)
  then show "list_all (\<lambda>c. \<not> py_isspace c) (str_of_int i)"
    using set_str_of_int is_digit_not_space by (fastforce simp: list_all_iff)
qed

lemma print_host_plain:
  assumes "host_ok hp"
  shows "CHR '','' \<notin> set (print_host hp)" "strip (print_host hp) = print_host hp"
proof -
  show "CHR '','' \<notin> set (print_host hp)"
    using assms by (simp add: print_host_def host_ok_def str_of_int_plain)
  have "list_all (\<lambda>c. \<not> py_isspace c) (print_host hp)"
    using assms str_of_int_plain(3) by (simp add: print_host_def host_ok_def py_isspace_def ord_of_def)
  then show "strip (print_host hp) = print_host hp" by (rule strip_no_space)
qed

lemma parse_print_host: "host_ok hp \<Longrightarrow> parse_host_part (print_host hp) = Inr (Some hp)"
proof -
  assume ok: "host_ok hp"
  then have "split_last CHR '':'' (print_host hp) = (fst hp, str_of_int (snd hp))"
    unfolding print_host_def by (intro split_last_append str_of_int_plain)
  moreover have "strip (fst hp) = fst hp" and "int_of_str (str_of_int (snd hp)) = Some (snd hp)"
    using ok by (simp_all add: host_ok_def strip_no_space int_of_str_of_int_small)
  moreover have "print_host hp \<noteq> []" and "CHR '':'' \<in> set (print_host hp)"
    by (simp_all add: print_host_def)
  ultimately show ?thesis
    using ok print_host_plain(2) [OF ok] by (simp add: parse_host_part_def host_ok_def)
qed

lemma parse_print_host_parts: "list_all host_ok hs \<Longrightarrow> parse_host_parts (map print_host hs) = Inr hs"
  by (induction hs) (simp_all add: parse_print_host)

lemma print_hosts_not_blank:
  assumes "list_all host_ok hs" "hs \<noteq> []"
  shows "strip (print_hosts hs) \<noteq> []"
proof -
  obtain h p hs' where hs: "hs = (h, p) # hs'" using assms(2) by (cases hs) auto
  obtain c h' where h: "h = c # h'" "\<not> py_isspace c" using assms hs
    by (cases h) (auto simp: host_ok_def)
  obtain r where r: "print_hosts hs = c # r"
    unfolding print_hosts_def hs h by (cases hs') (auto simp: print_host_def)
  have "c \<in> set (dropWhile py_isspace (rev (c # r)))"
    using h(2) by (simp add: dropWhile_append)
  with h(2) show ?thesis
    by (auto simp: r strip_def strip_by_def simp del: rev.simps)
qed

lemma from_extra_config_valid:
  assumes "from_extra_config extra name pre = Inr c"
  shows "config_ok c"
  using assms unfolding from_extra_config_def Let_def
  by (elim raises_InrE) (erule validate_parse_ok, simp only: AerospikeConfig.simps)

lemma from_extra_config_same:
  assumes "same_under (config_prefix_of name pre) d d'"
  shows "from_extra_config (Some d) name pre = from_extra_config (Some d') name pre"
  unfolding from_extra_config_def Let_def option.case
  by (simp only: lookup_same_under [OF assms])

section \<open>Properties\<close>

text \<open>
  C37: a configuration that is accepted is well formed: at least one host, every host named
  and every port in 1..65535, every size, timeout and limit positive, and the commit level
  and replica among the known ones.
\<close>

theorem from_extra_config_ok:
  assumes "from_extra_config extra name pre = Inr c"
  shows "config_ok c"
  using assms by (rule from_extra_config_valid)

theorem from_extra_config_ok_witness:
  "\<exists>c. from_extra_config (Some [(''remote_storage_plugin.aerospike.hosts'', PStr ''h:3000'')])
          ''aerospike'' None = Inr c \<and> config_ok c"
proof -
  let ?r = "from_extra_config (Some [(''remote_storage_plugin.aerospike.hosts'', PStr ''h:3000'')])
          ''aerospike'' None"
  have "\<not> isl ?r" by code_simp
  then obtain c where c: "?r = Inr c" by (metis sum.collapse(2))
  from from_extra_config_ok [OF c] c show ?thesis by blast
qed

text \<open>
  Only the keys under the plug-in's own prefix are read: two \<open>extra_config\<close> dictionaries
  that agree there give the same result, whatever else they hold.
\<close>

theorem from_extra_config_prefix_only:
  assumes "same_under (config_prefix_of name pre) d d'"
  shows "from_extra_config (Some d) name pre = from_extra_config (Some d') name pre"
  using assms by (rule from_extra_config_same)

text \<open>
  When every configuration value is a plain one (\<open>int(...)\<close> of it raises nothing but
  \<open>TypeError\<close> or \<open>ValueError\<close>), the only exception is \<open>AerospikeConfigError\<close>.
\<close>

theorem from_extra_config_error:
  assumes "plain_values d" and "from_extra_config (Some d) name pre = Inl e"
  shows "e = Conn AerospikeConfigError"
  using assms(2) plain_lookup [OF assms(1)]
  unfolding from_extra_config_def Let_def option.case
  by (elim raises_InlE) (blast dest: or_default_err config_errs)+

theorem from_extra_config_error_witness:
  "from_extra_config (Some [(''remote_storage_plugin.a.hosts'', PStr ''h:70000'')]) ''a'' None
     = Inl (Conn AerospikeConfigError)"
proof -
  let ?d = "[(''remote_storage_plugin.a.hosts'', PStr ''h:70000'')]"
  have "isl (from_extra_config (Some ?d) ''a'' None)" by code_simp
  then obtain e where e: "from_extra_config (Some ?d) ''a'' None = Inl e" by (metis sum.collapse(1))
  have "plain_values ?d" by (simp add: plain_values_def)
  from from_extra_config_error [OF this e] e show ?thesis by simp
qed

theorem from_extra_config_prefix_only_witness:
  "from_extra_config (Some [(''other'', PInt 1), (''p.hosts'', PStr ''h:1'')]) ''x'' (Some ''p'')
   = from_extra_config (Some [(''p.hosts'', PStr ''h:1'')]) ''x'' (Some ''p'')"
  by (rule from_extra_config_prefix_only)
     (simp add: same_under_def config_prefix_of_def ends_with_def)

text \<open>
  Every non-empty list of hosts (names without commas or blanks, ports in range) is
  recovered from its documented text form \<open>host:port,host:port\<close>, also when a host name itself
  contains colons.
\<close>

theorem parse_hosts_print_hosts:
  assumes "hs \<noteq> []" and "list_all host_ok hs"
  shows "parse_hosts (PStr (print_hosts hs)) = Inr hs"
proof -
  have "split_on CHR '','' (print_hosts hs) = map print_host hs"
    unfolding print_hosts_def
    by (rule split_join) (use assms print_host_plain(1) in \<open>auto simp: list_all_iff\<close>)
  with assms print_hosts_not_blank show ?thesis
    by (simp add: parse_print_host_parts)
qed

theorem parse_hosts_print_hosts_witness:
  "parse_hosts (PStr (print_hosts [(''::1'', 3000), (''db'', 3001)])) = Inr [(''::1'', 3000), (''db'', 3001)]"
  by (rule parse_hosts_print_hosts) (simp_all add: host_ok_def py_isspace_def ord_of_def)

text \<open>
  The flat L2 \<open>adapter_params\<close> mean the same as an \<open>extra_config\<close> that holds each of them
  under the plug-in's prefix, whatever other keys that \<open>extra_config\<close> has.
\<close>

theorem from_adapter_params_equiv:
  assumes "\<forall>k. dict_get extra (config_prefix_of name None @ k) = dict_get params k"
  shows "from_adapter_params (Some params) name = from_extra_config (Some extra) name None"
proof -
  have p: "config_prefix_of name None = ''remote_storage_plugin.'' @ name @ ''.''"
    by (simp add: config_prefix_of_def ends_with_def)
  have "same_under (config_prefix_of name None)
      (map (\<lambda>(k, v). (''remote_storage_plugin.'' @ name @ ''.'' @ k, v)) params) extra"
    using assms map_of_prefix [of "''remote_storage_plugin.'' @ name @ ''.''" params]
    by (simp add: same_under_def p)
  then show ?thesis
    by (simp add: from_adapter_params_def from_extra_config_same)
qed

theorem from_adapter_params_equiv_witness:
  "from_adapter_params (Some [(''hosts'', PStr ''h:1'')]) ''a''
   = from_extra_config (Some [(''x'', PNone), (''remote_storage_plugin.a.hosts'', PStr ''h:1'')]) ''a'' None"
  by (rule from_adapter_params_equiv) (simp add: config_prefix_of_def ends_with_def)

end
