(* ===== verification/Policies.thy ===== *)
theory Policies
  imports Config
begin

text \<open>
  \<open>policies.py\<close>: the policy dictionaries passed to the Aerospike client. Which policy constants
  the installed client module has, and their values, is the parameter \<open>consts\<close>
  (\<open>hasattr\<close>/\<open>getattr\<close> on the module \<open>aerospike\<close>).
\<close>

type_synonym policy = "(string, int) dict"
type_synonym policy_consts = "string \<Rightarrow> int option"

definition COMMIT_TABLE :: "(string, string) dict" where
  "COMMIT_TABLE = [(''all'', ''POLICY_COMMIT_LEVEL_ALL''), (''master'', ''POLICY_COMMIT_LEVEL_MASTER'')]"

definition REPLICA_TABLE :: "(string, string) dict" where
  "REPLICA_TABLE =
     [(''master'', ''POLICY_REPLICA_MASTER''), (''any'', ''POLICY_REPLICA_ANY''),
      (''sequence'', ''POLICY_REPLICA_SEQUENCE''), (''prefer_rack'', ''POLICY_REPLICA_PREFER_RACK'')]"

definition policy_const :: "policy_consts \<Rightarrow> string \<Rightarrow> exn + int" where
  "policy_const consts name =
     (case consts name of None \<Rightarrow> Inl (Conn AerospikeConfigError) | Some v \<Rightarrow> Inr v)"

definition commit_level :: "policy_consts \<Rightarrow> string \<Rightarrow> exn + int" where
  "commit_level consts val =
     (case dict_get COMMIT_TABLE val of
        None \<Rightarrow> Inl (Conn AerospikeConfigError)
      | Some const \<Rightarrow> policy_const consts const)"

definition replica :: "policy_consts \<Rightarrow> string \<Rightarrow> exn + int" where
  "replica consts val =
     (case dict_get REPLICA_TABLE val of
        None \<Rightarrow> Inl (Conn AerospikeConfigError)
      | Some const \<Rightarrow> policy_const consts const)"

definition key_policy :: "policy_consts \<Rightarrow> bool \<Rightarrow> exn + int" where
  "key_policy consts send_key =
     policy_const consts (if send_key then ''POLICY_KEY_SEND'' else ''POLICY_KEY_DIGEST'')"

definition read_policy :: "policy_consts \<Rightarrow> AerospikeConfig \<Rightarrow> exn + policy" where
  "read_policy consts cfg =
     bindE (replica consts (cfg_replica cfg)) (\<lambda>r.
     bindE (key_policy consts (cfg_send_key cfg)) (\<lambda>k.
     Inr [(''total_timeout'', cfg_read_timeout_ms cfg), (''socket_timeout'', cfg_read_timeout_ms cfg),
          (''replica'', r), (''key'', k), (''max_retries'', 2)]))"

definition write_policy :: "policy_consts \<Rightarrow> AerospikeConfig \<Rightarrow> exn + policy" where
  "write_policy consts cfg =
     bindE (commit_level consts (cfg_commit_level cfg)) (\<lambda>c.
     bindE (key_policy consts (cfg_send_key cfg)) (\<lambda>k.
     bindE (policy_const consts ''POLICY_EXISTS_IGNORE'') (\<lambda>x.
     bindE (policy_const consts ''POLICY_GEN_IGNORE'') (\<lambda>g.
     Inr [(''total_timeout'', cfg_write_timeout_ms cfg), (''socket_timeout'', cfg_write_timeout_ms cfg),
          (''commit_level'', c), (''key'', k), (''exists'', x), (''gen'', g), (''max_retries'', 0)]))))"

definition batch_policy :: "AerospikeConfig \<Rightarrow> policy" where
  "batch_policy cfg =
     (let timeout = max (cfg_read_timeout_ms cfg) (cfg_write_timeout_ms cfg)
      in [(''total_timeout'', timeout), (''socket_timeout'', timeout)])"

section \<open>Lemmas\<close>

text \<open>The constants the policies of a validated configuration refer to.\<close>

definition POLICY_NAMES :: "string list" where
  "POLICY_NAMES =
     [''POLICY_COMMIT_LEVEL_ALL'', ''POLICY_COMMIT_LEVEL_MASTER'', ''POLICY_REPLICA_MASTER'',
      ''POLICY_REPLICA_ANY'', ''POLICY_REPLICA_SEQUENCE'', ''POLICY_REPLICA_PREFER_RACK'',
      ''POLICY_KEY_SEND'', ''POLICY_KEY_DIGEST'', ''POLICY_EXISTS_IGNORE'', ''POLICY_GEN_IGNORE'']"

definition consts_ok :: "policy_consts \<Rightarrow> bool" where
  "consts_ok consts \<longleftrightarrow> list_all (\<lambda>n. consts n \<noteq> None) POLICY_NAMES"

lemma policy_const_ok: "consts_ok consts \<Longrightarrow> n \<in> set POLICY_NAMES \<Longrightarrow> \<exists>v. policy_const consts n = Inr v"
  by (auto simp: consts_ok_def list_all_iff policy_const_def split: option.splits)

lemma commit_level_ok:
  assumes "consts_ok consts" "c \<in> set COMMIT_LEVELS"
  shows "\<exists>v. commit_level consts c = Inr v"
  using assms policy_const_ok [OF assms(1)]
  by (auto simp: commit_level_def COMMIT_TABLE_def COMMIT_LEVELS_def POLICY_NAMES_def)

lemma replica_ok:
  assumes "consts_ok consts" "c \<in> set REPLICAS"
  shows "\<exists>v. replica consts c = Inr v"
  using assms policy_const_ok [OF assms(1)]
  by (auto simp: replica_def REPLICA_TABLE_def REPLICAS_def POLICY_NAMES_def)

lemma key_policy_ok: "consts_ok consts \<Longrightarrow> \<exists>v. key_policy consts b = Inr v"
  unfolding key_policy_def by (rule policy_const_ok) (auto simp: POLICY_NAMES_def)

lemma write_policy_ok:
  assumes "consts_ok consts" "config_ok cfg"
  shows "\<exists>p. write_policy consts cfg = Inr p"
proof -
  obtain c where "commit_level consts (cfg_commit_level cfg) = Inr c"
    using commit_level_ok assms by (auto simp: config_ok_def)
  moreover obtain k where "key_policy consts (cfg_send_key cfg) = Inr k"
    using key_policy_ok [OF assms(1)] by blast
  moreover obtain x where "policy_const consts ''POLICY_EXISTS_IGNORE'' = Inr x"
    using policy_const_ok [OF assms(1)] by (auto simp: POLICY_NAMES_def)
  moreover obtain g where "policy_const consts ''POLICY_GEN_IGNORE'' = Inr g"
    using policy_const_ok [OF assms(1)] by (auto simp: POLICY_NAMES_def)
  ultimately show ?thesis by (simp add: write_policy_def)
qed

lemma read_policy_ok:
  assumes "consts_ok consts" "config_ok cfg"
  shows "\<exists>p. read_policy consts cfg = Inr p"
  using replica_ok [OF assms(1), of "cfg_replica cfg"] key_policy_ok [OF assms(1), of "cfg_send_key cfg"]
    assms(2)
  by (auto simp: read_policy_def config_ok_def)

text \<open>
  Building the client's policies never fails for an accepted configuration, provided the
  installed client module defines the ten policy constants: every commit level and replica
  that validation lets through is in the tables.
\<close>

theorem policies_total:
  assumes "from_extra_config extra name pre = Inr cfg" and "consts_ok consts"
  shows "(\<exists>r. read_policy consts cfg = Inr r) \<and> (\<exists>w. write_policy consts cfg = Inr w)"
  using read_policy_ok write_policy_ok assms(2) from_extra_config_valid [OF assms(1)] by blast

definition sample_consts :: policy_consts where
  "sample_consts n = (if n \<in> set POLICY_NAMES then Some 1 else None)"

lemma sample_consts_ok: "consts_ok sample_consts"
  by (simp add: consts_ok_def list_all_iff sample_consts_def)

definition sample_cfg :: AerospikeConfig where
  "sample_cfg =
     \<lparr>cfg_plugin_name = ''a'', cfg_hosts = [(''h'', 3000)], cfg_namespace = ''ns'', cfg_set_name = ''s'',
      cfg_target_segment_bytes = 4, cfg_max_segment_bytes = None, cfg_min_segment_bytes = 1,
      cfg_single_record_threshold_bytes = None, cfg_default_ttl_seconds = 60, cfg_read_timeout_ms = 1000,
      cfg_write_timeout_ms = 2000, cfg_batch_max_in_flight = 64, cfg_executor_threads = 16,
      cfg_enable_list = False, cfg_enable_crc32 = True, cfg_commit_level = ''all'',
      cfg_replica = ''sequence'', cfg_send_key = False, cfg_username = [], cfg_password = [],
      cfg_tls_name = []\<rparr>"

lemma sample_policy: "\<exists>wp. write_policy sample_consts sample_cfg = Inr wp"
  by (rule write_policy_ok [OF sample_consts_ok]) (simp add: sample_cfg_def config_ok_def COMMIT_LEVELS_def REPLICAS_def)

theorem policies_total_witness:
  "\<exists>cfg w. from_extra_config (Some [(''storage_plugin.x.hosts'', PStr ''h:1'')]) ''x'' (Some ''storage_plugin.x'')
      = Inr cfg \<and> write_policy sample_consts cfg = Inr w"
proof -
  let ?r = "from_extra_config (Some [(''storage_plugin.x.hosts'', PStr ''h:1'')]) ''x'' (Some ''storage_plugin.x'')"
  have "\<not> isl ?r" by code_simp
  then obtain cfg where cfg: "?r = Inr cfg" by (metis sum.collapse(2))
  from policies_total [OF cfg sample_consts_ok] cfg show ?thesis by blast
qed

end
