(* ===== verification/Aerospike_Client.thy ===== *)
theory Aerospike_Client
  imports Keys Policies
begin

text \<open>
  The boundary to the Aerospike client library, which is not part of the sources. A client is
  a record of the calls the sources make; each call takes the server's state and returns an
  exception or a result with the new state. The locale \<open>aerospike_client\<close> states what the
  sources rely on, following the client's documentation; \<open>healthy_client\<close> adds when a call
  succeeds. Both are interpreted on a reference server with a record-size limit and an
  availability switch. Calls of other clients and expiry come between calls (\<open>Shared_Cluster\<close>).
\<close>

section \<open>Records and calls\<close>

datatype bval = BInt int | BStr string | BBool bool | BBytes bytes

type_synonym bins = "(string, bval) dict"

type_synonym recmap = "string \<rightharpoonup> bval"

type_synonym dbview = "akey \<Rightarrow> recmap option"

text \<open>An entry of \<open>BatchRecords\<close>: \<open>br.Write\<close> with its \<open>op.write\<close> operations, its TTL and
  policy, or \<open>br.Remove\<close>.\<close>

datatype batch_op =
    BWrite akey bins int policy
  | BRemove akey

fun op_key :: "batch_op \<Rightarrow> akey" where
  "op_key (BWrite k _ _ _) = k"
| "op_key (BRemove k) = k"

text \<open>An entry of a batch-read result: the result code and the bins of the record.\<close>

type_synonym batch_rec = "int \<times> bins option"

record 's aclient =
  cl_put :: "akey \<Rightarrow> bins \<Rightarrow> int \<Rightarrow> policy \<Rightarrow> 's \<Rightarrow> (exn + unit) \<times> 's"
  cl_get :: "akey \<Rightarrow> 's \<Rightarrow> (exn + bins) \<times> 's"
  cl_select :: "akey \<Rightarrow> string list \<Rightarrow> 's \<Rightarrow> (exn + bins) \<times> 's"
  cl_batch_read :: "akey list \<Rightarrow> string list \<Rightarrow> 's \<Rightarrow> (exn + batch_rec list) \<times> 's"
  cl_batch_write :: "batch_op list \<Rightarrow> 's \<Rightarrow> (exn + int list) \<times> 's"
  cl_remove :: "akey \<Rightarrow> 's \<Rightarrow> (exn + unit) \<times> 's"
  cl_touch :: "akey \<Rightarrow> int \<Rightarrow> policy \<Rightarrow> 's \<Rightarrow> (exn + unit) \<times> 's"
  cl_operate :: "akey \<Rightarrow> bins \<Rightarrow> int \<Rightarrow> policy \<Rightarrow> 's \<Rightarrow> (exn + unit) \<times> 's"

section \<open>What a write does to a record\<close>

text \<open>A write sets the named bins and keeps the others; \<open>POLICY_EXISTS_IGNORE\<close> creates the
  record if it is not there.\<close>

definition old_bins :: "recmap option \<Rightarrow> recmap" where
  "old_bins r = (case r of None \<Rightarrow> Map.empty | Some m \<Rightarrow> m)"

definition write_rec :: "bins \<Rightarrow> recmap option \<Rightarrow> recmap option" where
  "write_rec b r = Some (old_bins r ++ map_of b)"

fun op_effect :: "batch_op \<Rightarrow> recmap option \<Rightarrow> recmap option" where
  "op_effect (BWrite _ b _ _) r = write_rec b r"
| "op_effect (BRemove _) r = None"

fun op_fits :: "(recmap option \<Rightarrow> bins \<Rightarrow> bool) \<Rightarrow> dbview \<Rightarrow> batch_op \<Rightarrow> bool" where
  "op_fits fits v (BWrite k b _ _) = fits (v k) b"
| "op_fits fits v (BRemove _) = True"

fun op_bins :: "batch_op \<Rightarrow> bins" where
  "op_bins (BWrite _ b _ _) = b"
| "op_bins (BRemove _) = []"

lemma write_rec_get:
  "write_rec b r = Some m \<Longrightarrow> m k = (case map_of b k of Some v \<Rightarrow> Some v | None \<Rightarrow> old_bins r k)"
  by (auto simp: write_rec_def map_add_def)

section \<open>The client's contract\<close>

locale aerospike_client =
  fixes C :: "'s aclient" and view :: "'s \<Rightarrow> dbview"
  assumes get_view: "cl_get C k s = (r, s') \<Longrightarrow> view s' = view s"
    and get_found: "cl_get C k s = (Inr b, s') \<Longrightarrow> view s k = Some (map_of b)"
    and get_error: "cl_get C k s = (Inl e, s') \<Longrightarrow> is_ax e"
    and get_absent: "cl_get C k s = (Inl e, s') \<Longrightarrow> isinstance e RecordNotFound \<Longrightarrow> view s k = None"
    and select_view: "cl_select C k ns s = (r, s') \<Longrightarrow> view s' = view s"
    and select_found: "cl_select C k ns s = (Inr b, s') \<Longrightarrow>
      \<exists>m. view s k = Some m \<and> map_of b = m |` set ns"
    and select_error: "cl_select C k ns s = (Inl e, s') \<Longrightarrow> is_ax e"
    and select_absent: "cl_select C k ns s = (Inl e, s') \<Longrightarrow> isinstance e RecordNotFound \<Longrightarrow> view s k = None"
    and batch_read_view: "cl_batch_read C ks ns s = (rb, s') \<Longrightarrow> view s' = view s"
    and batch_read_length: "cl_batch_read C ks ns s = (Inr recs, s') \<Longrightarrow> length recs = length ks"
    and batch_read_found: "cl_batch_read C ks ns s = (Inr recs, s') \<Longrightarrow> i < length ks \<Longrightarrow>
      fst (recs ! i) = 0 \<Longrightarrow>
      \<exists>b m. snd (recs ! i) = Some b \<and> view s (ks ! i) = Some m \<and> map_of b = m |` set ns"
    and batch_read_error: "cl_batch_read C ks ns s = (Inl e, s') \<Longrightarrow> is_ax e"
    and put_done: "cl_put C k b ttl p s = (Inr u, s') \<Longrightarrow> distinct (map fst b) \<Longrightarrow>
      view s' = (view s)(k := write_rec b (view s k))"
    and put_error: "cl_put C k b ttl p s = (Inl e, s') \<Longrightarrow> is_ax e"
    and put_in_doubt: "cl_put C k b ttl p s = (Inl e, s') \<Longrightarrow> distinct (map fst b) \<Longrightarrow>
      view s' = view s \<or> view s' = (view s)(k := write_rec b (view s k))"
    and batch_write_length: "cl_batch_write C ops s = (Inr codes, s') \<Longrightarrow> length codes = length ops"
    and batch_write_done: "cl_batch_write C ops s = (Inr codes, s') \<Longrightarrow>
      distinct (map op_key ops) \<Longrightarrow> list_all (\<lambda>x. distinct (map fst (op_bins x))) ops \<Longrightarrow>
      i < length ops \<Longrightarrow> codes ! i = 0 \<Longrightarrow>
      view s' (op_key (ops ! i)) = op_effect (ops ! i) (view s (op_key (ops ! i)))"
    and batch_write_any: "cl_batch_write C ops s = (rw, s') \<Longrightarrow>
      distinct (map op_key ops) \<Longrightarrow> list_all (\<lambda>x. distinct (map fst (op_bins x))) ops \<Longrightarrow> x \<in> set ops \<Longrightarrow>
      view s' (op_key x) = view s (op_key x) \<or> view s' (op_key x) = op_effect x (view s (op_key x))"
    and batch_write_frame: "cl_batch_write C ops s = (rw, s') \<Longrightarrow> k \<notin> op_key ` set ops \<Longrightarrow> view s' k = view s k"
    and batch_write_error: "cl_batch_write C ops s = (Inl e, s') \<Longrightarrow> is_ax e"
    and remove_done: "cl_remove C k s = (Inr u, s') \<Longrightarrow> view s' = (view s)(k := None)"
    and remove_error: "cl_remove C k s = (Inl e, s') \<Longrightarrow> is_ax e"
    and remove_in_doubt: "cl_remove C k s = (Inl e, s') \<Longrightarrow> view s' = view s \<or> view s' = (view s)(k := None)"
    and remove_absent: "cl_remove C k s = (Inl e, s') \<Longrightarrow> isinstance e RecordNotFound \<Longrightarrow>
      view s k = None"
    and touch_view: "cl_touch C k ttl p s = (rt, s') \<Longrightarrow> view s' = view s"
    and touch_error: "cl_touch C k ttl p s = (Inl e, s') \<Longrightarrow> is_ax e"
    and touch_absent: "cl_touch C k ttl p s = (Inl e, s') \<Longrightarrow> isinstance e RecordNotFound \<Longrightarrow> view s k = None"
    and touch_done: "cl_touch C k ttl p s = (Inr u, s') \<Longrightarrow> view s k \<noteq> None"
    and operate_done: "cl_operate C k b ttl p s = (Inr u, s') \<Longrightarrow> distinct (map fst b) \<Longrightarrow>
      view s' = (view s)(k := write_rec b (view s k))"
    and operate_error: "cl_operate C k b ttl p s = (Inl e, s') \<Longrightarrow> is_ax e"
    and operate_in_doubt: "cl_operate C k b ttl p s = (Inl e, s') \<Longrightarrow> distinct (map fst b) \<Longrightarrow>
      view s' = view s \<or> view s' = (view s)(k := write_rec b (view s k))"

text \<open>The locale says nothing of availability: every call may fail. A healthy server answers:
  reads tell presence, writes of records that fit succeed.\<close>

locale healthy_client = aerospike_client C view
  for C :: "'s aclient" and view :: "'s \<Rightarrow> dbview" +
  fixes live :: "'s \<Rightarrow> bool" and fits :: "'s \<Rightarrow> recmap option \<Rightarrow> bins \<Rightarrow> bool"
  assumes live_get: "live s \<Longrightarrow> view s k = Some m \<Longrightarrow> \<exists>b s'. cl_get C k s = (Inr b, s') \<and> live s'"
    and live_get_absent: "live s \<Longrightarrow> view s k = None \<Longrightarrow>
      \<exists>e s'. cl_get C k s = (Inl e, s') \<and> isinstance e RecordNotFound \<and> live s'"
    and live_select: "live s \<Longrightarrow> view s k = Some m \<Longrightarrow> \<exists>b s'. cl_select C k ns s = (Inr b, s') \<and> live s'"
    and live_select_absent: "live s \<Longrightarrow> view s k = None \<Longrightarrow>
      \<exists>e s'. cl_select C k ns s = (Inl e, s') \<and> isinstance e RecordNotFound \<and> live s'"
    and live_batch_read: "live s \<Longrightarrow> \<exists>recs s'. cl_batch_read C ks ns s = (Inr recs, s') \<and> live s' \<and>
      (\<forall>i < length ks. (fst (recs ! i) = 0) = (view s (ks ! i) \<noteq> None))"
    and live_put: "live s \<Longrightarrow> fits s (view s k) b \<Longrightarrow> \<exists>s'. cl_put C k b ttl p s = (Inr (), s') \<and> live s'"
    and live_batch_write: "live s \<Longrightarrow> distinct (map op_key ops) \<Longrightarrow>
      list_all (op_fits (fits s) (view s)) ops \<Longrightarrow>
      \<exists>codes s'. cl_batch_write C ops s = (Inr codes, s') \<and> live s' \<and> (\<forall>i < length ops.
        case ops ! i of BWrite _ _ _ _ \<Rightarrow> codes ! i = 0 | BRemove k \<Rightarrow> view s' k = None)"
    and live_remove: "live s \<Longrightarrow> view s k = Some m \<Longrightarrow> \<exists>s'. cl_remove C k s = (Inr (), s') \<and> live s'"
    and fits_batch_write: "cl_batch_write C ops s = (rw, s') \<Longrightarrow> fits s' = fits s"

section \<open>The reference server\<close>

text \<open>A single node holding all records, with the record-size limit of its namespace. An
  unavailable node answers every call with a timeout, before it changes anything.\<close>

record server =
  sv_recs :: "(akey, bins \<times> int) dict"
  sv_limit :: int
  sv_up :: bool

definition ax_timeout :: exn where
  "ax_timeout = Ax [AerospikeError, TimeoutError] (Some 9)"

definition ax_not_found :: exn where
  "ax_not_found = Ax [AerospikeError, RecordNotFound] (Some 2)"

definition ax_too_big :: exn where
  "ax_too_big = Ax [AerospikeError, RecordTooBig] (Some 13)"

fun bval_bytes :: "bval \<Rightarrow> int" where
  "bval_bytes (BBytes bs) = int (length bs)"
| "bval_bytes (BStr s) = int (length s)"
| "bval_bytes _ = 8"

definition rec_bytes :: "bins \<Rightarrow> int" where
  "rec_bytes b = sum_list (map (\<lambda>(n, v). int (length n) + bval_bytes v) b)"

definition sv_view :: "server \<Rightarrow> dbview" where
  "sv_view s k = (case dict_get (sv_recs s) k of None \<Rightarrow> None | Some (b, _) \<Rightarrow> Some (map_of b))"

definition sv_old :: "server \<Rightarrow> akey \<Rightarrow> bins" where
  "sv_old s k = (case dict_get (sv_recs s) k of None \<Rightarrow> [] | Some (b, _) \<Rightarrow> b)"

definition sv_select :: "string list option \<Rightarrow> bins \<Rightarrow> bins" where
  "sv_select ns b = (case ns of None \<Rightarrow> b | Some l \<Rightarrow> filter (\<lambda>(n, _). n \<in> set l) b)"

definition sv_read :: "akey \<Rightarrow> string list option \<Rightarrow> server \<Rightarrow> exn + bins" where
  "sv_read k ns s =
     (if \<not> sv_up s then Inl ax_timeout
      else case dict_get (sv_recs s) k of
        None \<Rightarrow> Inl ax_not_found
      | Some (b, _) \<Rightarrow> Inr (sv_select ns b))"

definition sv_batch_read :: "akey list \<Rightarrow> string list \<Rightarrow> server \<Rightarrow> exn + batch_rec list" where
  "sv_batch_read ks ns s =
     (if \<not> sv_up s then Inl ax_timeout
      else Inr (map (\<lambda>k. case sv_read k (Some ns) s of Inl _ \<Rightarrow> (2, None) | Inr b \<Rightarrow> (0, Some b)) ks))"

definition sv_write :: "akey \<Rightarrow> bins \<Rightarrow> int \<Rightarrow> server \<Rightarrow> (exn + unit) \<times> server" where
  "sv_write k b ttl s =
     (let new = dict_update (sv_old s k) b in
      if \<not> sv_up s then (Inl ax_timeout, s)
      else if rec_bytes b > sv_limit s then (Inl ax_too_big, s)
      else (Inr (), s\<lparr>sv_recs := dict_set k (new, ttl) (sv_recs s)\<rparr>))"

definition sv_remove :: "akey \<Rightarrow> server \<Rightarrow> (exn + unit) \<times> server" where
  "sv_remove k s =
     (if \<not> sv_up s then (Inl ax_timeout, s)
      else case dict_get (sv_recs s) k of
        None \<Rightarrow> (Inl ax_not_found, s)
      | Some _ \<Rightarrow> (Inr (), s\<lparr>sv_recs := dict_pop k (sv_recs s)\<rparr>))"

definition sv_touch :: "akey \<Rightarrow> int \<Rightarrow> server \<Rightarrow> (exn + unit) \<times> server" where
  "sv_touch k ttl s =
     (if \<not> sv_up s then (Inl ax_timeout, s)
      else case dict_get (sv_recs s) k of
        None \<Rightarrow> (Inl ax_not_found, s)
      | Some (b, _) \<Rightarrow> (Inr (), s\<lparr>sv_recs := dict_set k (b, ttl) (sv_recs s)\<rparr>))"

definition code_of :: "exn + unit \<Rightarrow> int" where
  "code_of r = (case r of Inr _ \<Rightarrow> 0 | Inl e \<Rightarrow> (case exc_code e of Some c \<Rightarrow> c | None \<Rightarrow> - 1))"

fun sv_op :: "batch_op \<Rightarrow> server \<Rightarrow> (exn + unit) \<times> server" where
  "sv_op (BWrite k b ttl _) s = sv_write k b ttl s"
| "sv_op (BRemove k) s = sv_remove k s"

fun sv_ops :: "batch_op list \<Rightarrow> server \<Rightarrow> int list \<times> server" where
  "sv_ops [] s = ([], s)"
| "sv_ops (x # xs) s =
     (let (r, s1) = sv_op x s; (cs, s2) = sv_ops xs s1 in (code_of r # cs, s2))"

definition sv_batch_write :: "batch_op list \<Rightarrow> server \<Rightarrow> (exn + int list) \<times> server" where
  "sv_batch_write ops s =
     (if \<not> sv_up s then (Inl ax_timeout, s) else (let (cs, s') = sv_ops ops s in (Inr cs, s')))"

definition ref_client :: "server aclient" where
  "ref_client = \<lparr>
     cl_put = \<lambda>k b ttl _. sv_write k b ttl,
     cl_get = \<lambda>k s. (sv_read k None s, s),
     cl_select = \<lambda>k ns s. (sv_read k (Some ns) s, s),
     cl_batch_read = \<lambda>ks ns s. (sv_batch_read ks ns s, s),
     cl_batch_write = sv_batch_write,
     cl_remove = sv_remove,
     cl_touch = \<lambda>k ttl _. sv_touch k ttl,
     cl_operate = \<lambda>k b ttl _. sv_write k b ttl\<rparr>"

definition sv_fits :: "server \<Rightarrow> recmap option \<Rightarrow> bins \<Rightarrow> bool" where
  "sv_fits s old b \<longleftrightarrow> rec_bytes b \<le> sv_limit s"

lemma map_of_filter_keys: "map_of (filter (\<lambda>(n, _). n \<in> A) b) = map_of b |` A"
  by (induction b) (auto simp: restrict_map_def)

lemma map_of_sv_select: "map_of (sv_select (Some l) b) = map_of b |` set l"
  by (simp add: sv_select_def map_of_filter_keys)

lemma sv_view_set [simp]:
  "sv_view (s\<lparr>sv_recs := dict_set k (b, t) (sv_recs s)\<rparr>) = (sv_view s)(k := Some (map_of b))"
  by (rule ext) (simp add: sv_view_def)

lemma sv_view_pop [simp]: "sv_view (s\<lparr>sv_recs := dict_pop k (sv_recs s)\<rparr>) = (sv_view s)(k := None)"
  by (rule ext) (simp add: sv_view_def)

lemma old_bins_sv_view: "old_bins (sv_view s k) = map_of (sv_old s k)"
  by (simp add: sv_view_def sv_old_def old_bins_def split: option.splits)

lemma write_rec_sv:
  "distinct (map fst b) \<Longrightarrow> write_rec b (sv_view s k) = Some (map_of (dict_update (sv_old s k) b))"
  by (auto simp: write_rec_def old_bins_sv_view dict_simps map_add_def split: option.splits)

lemma sv_view_None: "sv_view s k = None \<longleftrightarrow> dict_get (sv_recs s) k = None"
  by (auto simp: sv_view_def split: option.splits)

lemma sv_write_done:
  "sv_write k b ttl s = (Inr u, s') \<Longrightarrow> distinct (map fst b) \<Longrightarrow>
   sv_view s' = (sv_view s)(k := write_rec b (sv_view s k))"
  by (auto simp: sv_write_def Let_def write_rec_sv split: if_splits)

lemma sv_write_failed: "sv_write k b ttl s = (Inl e, s') \<Longrightarrow> s' = s \<and> is_ax e"
  by (auto simp: sv_write_def Let_def ax_timeout_def ax_too_big_def split: if_splits)

lemma sv_remove_done: "sv_remove k s = (Inr u, s') \<Longrightarrow> sv_view s' = (sv_view s)(k := None)"
  by (auto simp: sv_remove_def split: if_splits option.splits)

lemma sv_remove_failed: "sv_remove k s = (Inl e, s') \<Longrightarrow> s' = s \<and> is_ax e"
  by (auto simp: sv_remove_def ax_timeout_def ax_not_found_def split: if_splits option.splits)

lemma sv_up_op [simp]: "sv_up (snd (sv_op x s)) = sv_up s"
  by (cases x) (auto simp: sv_write_def sv_remove_def Let_def split: option.splits)

lemma sv_limit_op [simp]: "sv_limit (snd (sv_op x s)) = sv_limit s"
  by (cases x) (auto simp: sv_write_def sv_remove_def Let_def split: option.splits)

lemma sv_op_frame: "k \<noteq> op_key x \<Longrightarrow> sv_view (snd (sv_op x s)) k = sv_view s k"
  by (cases x) (auto simp: sv_write_def sv_remove_def Let_def split: option.splits)

lemma sv_op_effect:
  assumes "distinct (map fst (op_bins x))"
  shows "fst (sv_op x s) = Inr () \<Longrightarrow> sv_view (snd (sv_op x s)) (op_key x) = op_effect x (sv_view s (op_key x))"
    and "fst (sv_op x s) \<noteq> Inr () \<Longrightarrow> snd (sv_op x s) = s"
  using assms
  by (cases x; auto simp: sv_write_def sv_remove_def Let_def write_rec_sv split: if_splits option.splits)+

lemma code_of_Inr [simp]: "code_of (Inr u) = 0"
  by (simp add: code_of_def)

lemma code_of_zero: "code_of (fst (sv_op x s)) = 0 \<longleftrightarrow> fst (sv_op x s) = Inr ()"
  by (cases x) (auto simp: sv_write_def sv_remove_def Let_def code_of_def ax_timeout_def
      ax_not_found_def ax_too_big_def split: option.splits)

lemma sv_ops_Cons:
  "sv_ops (x # xs) s = (code_of (fst (sv_op x s)) # fst (sv_ops xs (snd (sv_op x s))),
     snd (sv_ops xs (snd (sv_op x s))))"
  by (simp add: case_prod_beta Let_def)

lemma length_sv_ops [simp]: "length (fst (sv_ops ops s)) = length ops"
  by (induction ops arbitrary: s) (simp_all add: sv_ops_Cons del: sv_ops.simps(2))

lemma sv_ops_static [simp]:
  "sv_up (snd (sv_ops ops s)) = sv_up s" "sv_limit (snd (sv_ops ops s)) = sv_limit s"
  by (induction ops arbitrary: s) (simp_all add: sv_ops_Cons del: sv_ops.simps(2))

lemma sv_ops_frame: "k \<notin> op_key ` set ops \<Longrightarrow> sv_view (snd (sv_ops ops s)) k = sv_view s k"
  by (induction ops arbitrary: s) (simp_all add: sv_ops_Cons sv_op_frame del: sv_ops.simps(2))

lemma sv_ops_effect:
  assumes "distinct (map op_key ops)" "list_all (\<lambda>x. distinct (map fst (op_bins x))) ops" "i < length ops"
  shows "sv_view (snd (sv_ops ops s)) (op_key (ops ! i)) =
    (if fst (sv_ops ops s) ! i = 0 then op_effect (ops ! i) (sv_view s (op_key (ops ! i)))
     else sv_view s (op_key (ops ! i)))"
  using assms
proof (induction ops arbitrary: s i)
  case (Cons x xs)
  show ?case
  proof (cases i)
    case 0
    then have "sv_view (snd (sv_ops (x # xs) s)) (op_key x) = sv_view (snd (sv_op x s)) (op_key x)"
      using Cons.prems by (simp add: sv_ops_Cons sv_ops_frame del: sv_ops.simps(2))
    with 0 Cons.prems sv_op_effect [of x s] show ?thesis
      by (cases "fst (sv_op x s) = Inr ()") (auto simp: sv_ops_Cons code_of_zero simp del: sv_ops.simps(2))
  next
    case (Suc j)
    then have "op_key (xs ! j) \<noteq> op_key x" using Cons.prems nth_mem [of j xs]
      by (metis Suc_less_eq distinct.simps(2) image_eqI length_Cons list.map(2) list.set_map)
    then have "sv_view (snd (sv_op x s)) (op_key (xs ! j)) = sv_view s (op_key (xs ! j))"
      by (rule sv_op_frame)
    with Suc Cons.prems Cons.IH [of j "snd (sv_op x s)"] show ?thesis
      by (simp add: sv_ops_Cons del: sv_ops.simps(2))
  qed
qed simp

lemma sv_ops_writes:
  assumes "sv_up s" "list_all (op_fits (sv_fits s) v) ops" "i < length ops"
    "ops ! i = BWrite k b t p"
  shows "fst (sv_ops ops s) ! i = 0"
  using assms
proof (induction ops arbitrary: s i)
  case (Cons x xs)
  have "sv_fits (snd (sv_op x s)) = sv_fits s" by (simp add: sv_fits_def fun_eq_iff)
  with Cons show ?case
    by (cases i) (auto simp: sv_ops_Cons sv_write_def code_of_def Let_def sv_fits_def simp del: sv_ops.simps(2))
qed simp

lemma sv_ops_removes:
  assumes "sv_up s" "distinct (map op_key ops)" "i < length ops" "ops ! i = BRemove k"
  shows "sv_view (snd (sv_ops ops s)) k = None"
  using assms
proof (induction ops arbitrary: s i)
  case (Cons x xs)
  show ?case
  proof (cases i)
    case 0
    then have "sv_view (snd (sv_op x s)) k = None"
      using Cons.prems by (auto simp: sv_remove_def sv_view_None split: option.splits)
    with 0 Cons.prems show ?thesis by (simp add: sv_ops_Cons sv_ops_frame del: sv_ops.simps(2))
  next
    case (Suc j)
    with Cons.prems Cons.IH [of "snd (sv_op x s)" j] show ?thesis
      by (simp add: sv_ops_Cons del: sv_ops.simps(2))
  qed
qed simp

lemmas ref_client_calls = ref_client_def sv_read_def sv_batch_read_def sv_touch_def

interpretation sv: aerospike_client ref_client sv_view
proof unfold_locales
  fix k :: akey and ks :: "akey list" and ns :: "string list" and s s' :: server and b :: bins
    and e and rg :: "exn + bins" and rb recs rw rt u ttl p and ops codes i x
  show "cl_get ref_client k s = (rg, s') \<Longrightarrow> sv_view s' = sv_view s"
    and "cl_select ref_client k ns s = (rg, s') \<Longrightarrow> sv_view s' = sv_view s"
    and "cl_batch_read ref_client ks ns s = (rb, s') \<Longrightarrow> sv_view s' = sv_view s"
    and "cl_batch_read ref_client ks ns s = (Inr recs, s') \<Longrightarrow> length recs = length ks"
    by (auto simp: ref_client_calls split: if_splits)
  show "cl_get ref_client k s = (Inr b, s') \<Longrightarrow> sv_view s k = Some (map_of b)"
    by (auto simp: ref_client_calls sv_view_def sv_select_def split: if_splits option.splits)
  show "cl_select ref_client k ns s = (Inr b, s') \<Longrightarrow> \<exists>m. sv_view s k = Some m \<and> map_of b = m |` set ns"
    by (auto simp: ref_client_calls sv_view_def map_of_sv_select split: if_splits option.splits)
  show "cl_get ref_client k s = (Inl e, s') \<Longrightarrow> is_ax e"
    and "cl_select ref_client k ns s = (Inl e, s') \<Longrightarrow> is_ax e"
    and "cl_batch_read ref_client ks ns s = (Inl e, s') \<Longrightarrow> is_ax e"
    and "cl_touch ref_client k ttl p s = (Inl e, s') \<Longrightarrow> is_ax e"
    by (auto simp: ref_client_calls ax_timeout_def ax_not_found_def split: if_splits option.splits)
  show "cl_get ref_client k s = (Inl e, s') \<Longrightarrow> isinstance e RecordNotFound \<Longrightarrow> sv_view s k = None"
    and "cl_select ref_client k ns s = (Inl e, s') \<Longrightarrow> isinstance e RecordNotFound \<Longrightarrow> sv_view s k = None"
    and "cl_touch ref_client k ttl p s = (Inl e, s') \<Longrightarrow> isinstance e RecordNotFound \<Longrightarrow> sv_view s k = None"
    by (auto simp: ref_client_calls ax_timeout_def sv_view_None split: if_splits option.splits)
  show "\<exists>b m. snd (recs ! i) = Some b \<and> sv_view s (ks ! i) = Some m \<and> map_of b = m |` set ns"
    if "cl_batch_read ref_client ks ns s = (Inr recs, s')" "i < length ks" "fst (recs ! i) = 0"
    using that
    by (auto simp: ref_client_calls sv_view_def map_of_sv_select split: if_splits option.splits sum.splits)
  show "cl_put ref_client k b ttl p s = (Inr u, s') \<Longrightarrow> distinct (map fst b) \<Longrightarrow>
      sv_view s' = (sv_view s)(k := write_rec b (sv_view s k))"
    and "cl_operate ref_client k b ttl p s = (Inr u, s') \<Longrightarrow> distinct (map fst b) \<Longrightarrow>
      sv_view s' = (sv_view s)(k := write_rec b (sv_view s k))"
    by (simp_all add: ref_client_def sv_write_done)
  show "cl_put ref_client k b ttl p s = (Inl e, s') \<Longrightarrow> is_ax e"
    and "cl_operate ref_client k b ttl p s = (Inl e, s') \<Longrightarrow> is_ax e"
    and "cl_remove ref_client k s = (Inl e, s') \<Longrightarrow> is_ax e"
    by (simp_all add: ref_client_def sv_write_failed sv_remove_failed)
  show "cl_put ref_client k b ttl p s = (Inl e, s') \<Longrightarrow> distinct (map fst b) \<Longrightarrow>
      sv_view s' = sv_view s \<or> sv_view s' = (sv_view s)(k := write_rec b (sv_view s k))"
    and "cl_operate ref_client k b ttl p s = (Inl e, s') \<Longrightarrow> distinct (map fst b) \<Longrightarrow>
      sv_view s' = sv_view s \<or> sv_view s' = (sv_view s)(k := write_rec b (sv_view s k))"
    and "cl_remove ref_client k s = (Inl e, s') \<Longrightarrow>
      sv_view s' = sv_view s \<or> sv_view s' = (sv_view s)(k := None)"
    by (auto simp: ref_client_def dest: sv_write_failed sv_remove_failed)
  show "cl_remove ref_client k s = (Inr u, s') \<Longrightarrow> sv_view s' = (sv_view s)(k := None)"
    by (simp add: ref_client_def sv_remove_done)
  show "cl_remove ref_client k s = (Inl e, s') \<Longrightarrow> isinstance e RecordNotFound \<Longrightarrow> sv_view s k = None"
    by (auto simp: ref_client_def sv_remove_def ax_timeout_def sv_view_None split: if_splits option.splits)
  show "cl_touch ref_client k ttl p s = (rt, s') \<Longrightarrow> sv_view s' = sv_view s"
    by (auto simp: ref_client_calls sv_view_def fun_eq_iff split: if_splits option.splits)
  show "cl_touch ref_client k ttl p s = (Inr u, s') \<Longrightarrow> sv_view s k \<noteq> None"
    by (auto simp: ref_client_calls sv_view_def split: if_splits option.splits)
  show "cl_batch_write ref_client ops s = (Inr codes, s') \<Longrightarrow> length codes = length ops"
    and "cl_batch_write ref_client ops s = (Inl e, s') \<Longrightarrow> is_ax e"
    and "cl_batch_write ref_client ops s = (rw, s') \<Longrightarrow> k \<notin> op_key ` set ops \<Longrightarrow> sv_view s' k = sv_view s k"
    by (auto simp: ref_client_def sv_batch_write_def case_prod_beta Let_def ax_timeout_def sv_ops_frame
        split: if_splits)
  assume d: "distinct (map op_key ops)" "list_all (\<lambda>x. distinct (map fst (op_bins x))) ops"
  show "cl_batch_write ref_client ops s = (Inr codes, s') \<Longrightarrow> i < length ops \<Longrightarrow> codes ! i = 0 \<Longrightarrow>
      sv_view s' (op_key (ops ! i)) = op_effect (ops ! i) (sv_view s (op_key (ops ! i)))"
    using sv_ops_effect [OF d]
    by (auto simp: ref_client_def sv_batch_write_def case_prod_beta Let_def split: if_splits)
  show "cl_batch_write ref_client ops s = (rw, s') \<Longrightarrow> x \<in> set ops \<Longrightarrow>
      sv_view s' (op_key x) = sv_view s (op_key x) \<or> sv_view s' (op_key x) = op_effect x (sv_view s (op_key x))"
    using sv_ops_effect [OF d]
    by (auto simp: ref_client_def sv_batch_write_def case_prod_beta Let_def in_set_conv_nth split: if_splits)
qed

interpretation svh: healthy_client ref_client sv_view sv_up sv_fits
proof unfold_locales
  fix s s' :: server and k :: akey and m ns ks b ttl p ops and rw :: "exn + int list"
  show "sv_up s \<Longrightarrow> sv_view s k = Some m \<Longrightarrow> \<exists>b s'. cl_get ref_client k s = (Inr b, s') \<and> sv_up s'"
    and "sv_up s \<Longrightarrow> sv_view s k = Some m \<Longrightarrow> \<exists>b s'. cl_select ref_client k ns s = (Inr b, s') \<and> sv_up s'"
    and "sv_up s \<Longrightarrow> sv_view s k = Some m \<Longrightarrow> \<exists>s'. cl_remove ref_client k s = (Inr (), s') \<and> sv_up s'"
    by (auto simp: ref_client_calls sv_remove_def sv_view_def split: option.splits)
  show "sv_up s \<Longrightarrow> sv_view s k = None \<Longrightarrow>
      \<exists>e s'. cl_get ref_client k s = (Inl e, s') \<and> isinstance e RecordNotFound \<and> sv_up s'"
    and "sv_up s \<Longrightarrow> sv_view s k = None \<Longrightarrow>
      \<exists>e s'. cl_select ref_client k ns s = (Inl e, s') \<and> isinstance e RecordNotFound \<and> sv_up s'"
    by (auto simp: ref_client_calls ax_not_found_def sv_view_def split: option.splits)
  show "sv_up s \<Longrightarrow> \<exists>recs s'. cl_batch_read ref_client ks ns s = (Inr recs, s') \<and> sv_up s' \<and>
      (\<forall>i < length ks. (fst (recs ! i) = 0) = (sv_view s (ks ! i) \<noteq> None))"
    by (auto simp: ref_client_calls sv_view_def split: option.splits sum.splits)
  show "sv_up s \<Longrightarrow> sv_fits s (sv_view s k) b \<Longrightarrow> \<exists>s'. cl_put ref_client k b ttl p s = (Inr (), s') \<and> sv_up s'"
    by (auto simp: ref_client_def sv_write_def sv_fits_def Let_def)
  show "sv_up s \<Longrightarrow> distinct (map op_key ops) \<Longrightarrow>
      list_all (op_fits (sv_fits s) (sv_view s)) ops \<Longrightarrow>
      \<exists>codes s'. cl_batch_write ref_client ops s = (Inr codes, s') \<and> sv_up s' \<and> (\<forall>i < length ops.
        case ops ! i of BWrite _ _ _ _ \<Rightarrow> codes ! i = 0 | BRemove k \<Rightarrow> sv_view s' k = None)"
    using sv_ops_writes [of s "sv_view s" ops] sv_ops_removes [of s ops]
    by (auto simp: ref_client_def sv_batch_write_def case_prod_beta Let_def sv_fits_def
        split: batch_op.splits)
  show "cl_batch_write ref_client ops s = (rw, s') \<Longrightarrow> sv_fits s' = sv_fits s"
    by (auto simp: ref_client_def sv_batch_write_def case_prod_beta Let_def sv_fits_def fun_eq_iff
        split: if_splits)
qed

end
