(* ===== verification/Crc32.thy ===== *)
theory Crc32
  imports Prelude
begin

unbundle bit_operations_syntax

text \<open>
  \<open>zlib.crc32\<close> of the Python standard library, the reflected CRC-32 with polynomial
  \<open>0xEDB88320\<close>, bit by bit over 32-bit words. Each step is injective, so two byte strings
  that differ in one byte never have the same checksum.
\<close>

type_synonym crc = "32 word"

definition crc_bit :: "crc \<Rightarrow> crc" where
  "crc_bit c = (if bit c 0 then drop_bit 1 c XOR 0xEDB88320 else drop_bit 1 c)"

definition crc_byte :: "crc \<Rightarrow> byte \<Rightarrow> crc" where
  "crc_byte c b = (crc_bit ^^ 8) (c XOR ucast b)"

definition crc32_word :: "bytes \<Rightarrow> crc" where
  "crc32_word bs = foldl crc_byte 0xFFFFFFFF bs XOR 0xFFFFFFFF"

text \<open>\<open>zlib.crc32(bs) & 0xFFFFFFFF\<close> as a Python integer.\<close>

definition crc32 :: "bytes \<Rightarrow> int" where
  "crc32 bs = uint (crc32_word bs)"

lemma crc32_range: "0 \<le> crc32 bs \<and> crc32 bs < 2 ^ 32"
  using uint_range_size [of "crc32_word bs"] by (simp add: crc32_def word_size)

lemma bit31_crc_bit: "bit (crc_bit c) 31 = bit c 0"
  using bit_imp_le_length [of c 32] by (auto simp: crc_bit_def bit_xor_iff bit_drop_bit_eq)

lemma bit0_drop_bit_eqI:
  assumes "bit (a :: crc) 0 = bit b 0" and "drop_bit 1 a = drop_bit 1 b"
  shows "a = b"
proof (rule bit_eqI)
  fix n
  show "bit a n = bit b n"
  proof (cases n)
    case 0
    with assms(1) show ?thesis by simp
  next
    case (Suc m)
    have "bit (drop_bit 1 a) m = bit (drop_bit 1 b) m" using assms(2) by simp
    with Suc show ?thesis by (simp add: bit_drop_bit_eq)
  qed
qed

lemma xor_right_cancel: "(a XOR c = b XOR c) = (a = (b :: crc))"
proof
  assume "a XOR c = b XOR c"
  then have "(a XOR c) XOR c = (b XOR c) XOR c" by simp
  then show "a = b" by (simp add: xor.assoc)
qed simp

lemma ucast_byte_inverse: "ucast (ucast (b :: byte) :: crc) = b"
  by (rule bit_word_eqI) (auto simp: bit_ucast_iff)

lemma inj_crc_bit: "inj crc_bit"
proof (rule injI)
  fix a b
  assume eq: "crc_bit a = crc_bit b"
  then have b0: "bit a 0 = bit b 0" by (metis bit31_crc_bit)
  with eq have "drop_bit 1 a = drop_bit 1 b"
    by (auto simp: crc_bit_def xor_right_cancel split: if_splits)
  with b0 show "a = b" by (rule bit0_drop_bit_eqI)
qed

lemma inj_crc_bits: "inj (crc_bit ^^ n)"
  by (rule inj_fn [OF inj_crc_bit])

lemma crc_byte_inj_reg: "crc_byte c b = crc_byte c' b \<Longrightarrow> c = c'"
  unfolding crc_byte_def by (drule injD [OF inj_crc_bits]) (simp add: xor_right_cancel)

lemma crc_byte_inj_byte: "crc_byte c b = crc_byte c b' \<Longrightarrow> b = b'"
proof -
  assume "crc_byte c b = crc_byte c b'"
  then have "c XOR ucast b = c XOR ucast b'"
    unfolding crc_byte_def by (rule injD [OF inj_crc_bits])
  then have "(ucast b :: crc) = ucast b'"
    by (metis xor.commute xor_right_cancel)
  then show ?thesis by (metis ucast_byte_inverse)
qed

lemma foldl_crc_inj: "foldl crc_byte c bs = foldl crc_byte c' bs \<Longrightarrow> c = c'"
  by (induction bs arbitrary: c c') (auto dest: crc_byte_inj_reg)

lemma crc32_eq_iff: "crc32 xs = crc32 ys \<longleftrightarrow> foldl crc_byte 0xFFFFFFFF xs = foldl crc_byte 0xFFFFFFFF ys"
  by (simp only: crc32_def crc32_word_def xor_right_cancel word_uint_eq_iff [symmetric])

text \<open>The published check value of this CRC, byte by byte.\<close>

lemma crc_byte_check_steps:
  "crc_byte 0xFFFFFFFF 0x31 = 0x7C231048"
  "crc_byte 0x7C231048 0x32 = 0xB0ACBB32"
  "crc_byte 0xB0ACBB32 0x33 = 0x77B79C2D"
  "crc_byte 0x77B79C2D 0x34 = 0x641C1F5C"
  "crc_byte 0x641C1F5C 0x35 = 0x340AC5E3"
  "crc_byte 0x340AC5E3 0x36 = 0xF68D2C9E"
  "crc_byte 0xF68D2C9E 0x37 = 0xAFFC9660"
  "crc_byte 0xAFFC9660 0x38 = 0x651F2550"
  "crc_byte 0x651F2550 0x39 = 0x340BC6D9"
  by code_simp+

lemma crc32_check_value:
  "crc32 [0x31, 0x32, 0x33, 0x34, 0x35, 0x36, 0x37, 0x38, 0x39] = 0xCBF43926"
  by (simp add: crc32_def crc32_word_def crc_byte_check_steps)

text \<open>Any change of a single byte changes the checksum.\<close>

lemma crc32_single_byte:
  assumes "i < length bs" and "b \<noteq> bs ! i"
  shows "crc32 (bs[i := b]) \<noteq> crc32 bs"
proof
  assume eq: "crc32 (bs[i := b]) = crc32 bs"
  let ?c = "foldl crc_byte 0xFFFFFFFF (take i bs)"
  have "bs[i := b] = take i bs @ b # drop (Suc i) bs" "bs = take i bs @ bs ! i # drop (Suc i) bs"
    using assms(1) by (simp_all add: upd_conv_take_nth_drop id_take_nth_drop)
  with eq have "foldl crc_byte (crc_byte ?c b) (drop (Suc i) bs)
      = foldl crc_byte (crc_byte ?c (bs ! i)) (drop (Suc i) bs)"
    unfolding crc32_eq_iff by (metis foldl_append foldl_Cons)
  then have "b = bs ! i"
    using foldl_crc_inj crc_byte_inj_byte by blast
  with assms(2) show False by simp
qed

end
