(* ===== verification/Metrics.thy ===== *)
theory Metrics
  imports Errors
begin

text \<open>
  \<open>metrics.py\<close>: the optional Prometheus hooks. The state keeps what the hooks record: the
  observed operations with their result label, the observed segment counts with payload
  sizes, and the in-flight gauge. Nothing is recorded without \<open>prometheus_client\<close>. Latencies
  are wall-clock measurements and are not modelled.
\<close>

text \<open>The declared metrics, with their help texts, label names and bucket limits; a limit \<open>(m, k)\<close> is
  the decimal \<open>m / 10 ^ k\<close>.\<close>

datatype metric =
    Counter string string "string list"
  | Histogram string string "string list" "(int \<times> nat) list"
  | Gauge string string

definition METRICS :: "metric list" where
  "METRICS =
     [Counter ''aerospike_op_total'' ''Aerospike connector operations'' [''op'', ''result''],
      Histogram ''aerospike_op_latency_seconds'' ''Aerospike connector operation latency'' [''op'']
        [(1, 3), (5, 3), (1, 2), (25, 3), (5, 2), (1, 1), (25, 2), (5, 1), (1, 0), (25, 1), (5, 0), (10, 0)],
      Histogram ''aerospike_segment_count'' ''Segment count per put'' []
        [(1, 0), (2, 0), (3, 0), (4, 0), (8, 0), (16, 0), (32, 0), (64, 0), (128, 0)],
      Histogram ''aerospike_segment_bytes'' ''Payload bytes per put'' []
        [(256, 0), (1024, 0), (4096, 0), (16384, 0), (65536, 0), (262144, 0), (1048576, 0), (4194304, 0), (16777216, 0),
         (67108864, 0)],
      Gauge ''aerospike_concurrent_in_flight'' ''Concurrent batched connector operations'']"

text \<open>\<open>_PROM\<close>: only an \<open>ImportError\<close> of \<open>prometheus_client\<close> turns the metrics off.\<close>

definition prom_available :: "exn + unit \<Rightarrow> exn + bool" where
  "prom_available import_result =
     (case import_result of
        Inr _ \<Rightarrow> Inr True
      | Inl e \<Rightarrow> if e = Builtin ImportError then Inr False else Inl e)"

record metrics =
  m_prom :: bool
  m_ops :: "(string \<times> string) list"
  m_segments :: "(int \<times> int) list"
  m_in_flight :: int

definition observe_op :: "string \<Rightarrow> string \<Rightarrow> metrics \<Rightarrow> metrics" where
  "observe_op op result m = (if m_prom m then m\<lparr>m_ops := m_ops m @ [(op, result)]\<rparr> else m)"

definition observe_segments :: "int \<Rightarrow> int \<Rightarrow> metrics \<Rightarrow> metrics" where
  "observe_segments n payload_bytes m =
     (if m_prom m then m\<lparr>m_segments := m_segments m @ [(n, payload_bytes)]\<rparr> else m)"

definition inc_in_flight :: "int \<Rightarrow> metrics \<Rightarrow> metrics" where
  "inc_in_flight delta m =
     (if m_prom m then
        (if delta > 0 then m\<lparr>m_in_flight := m_in_flight m + delta\<rparr>
         else m\<lparr>m_in_flight := m_in_flight m - (- delta)\<rparr>)
      else m)"

text \<open>\<open>with track_in_flight(): body\<close>: the gauge is restored whether or not the body raises.\<close>

definition track_in_flight :: "(metrics \<Rightarrow> 'r \<times> metrics) \<Rightarrow> metrics \<Rightarrow> 'r \<times> metrics" where
  "track_in_flight body m =
     (let (r, m') = body (inc_in_flight 1 m) in (r, inc_in_flight (- 1) m'))"

record OpTimer =
  t_op :: string
  t_result :: string
  t_finished :: bool

definition op_timer :: "string \<Rightarrow> OpTimer" where
  "op_timer op = \<lparr>t_op = op, t_result = ''ok'', t_finished = False\<rparr>"

definition finish :: "OpTimer \<Rightarrow> metrics \<Rightarrow> OpTimer \<times> metrics" where
  "finish t m =
     (if t_finished t then (t, m)
      else (t\<lparr>t_finished := True\<rparr>, observe_op (t_op t) (t_result t) m))"

definition RESULT_TABLE :: "(string, string) dict" where
  "RESULT_TABLE =
     [(''timeout'', ''timeout''), (''too_big'', ''record_too_big''), (''busy'', ''busy''),
      (''connection'', ''error''), (''not_found'', ''miss''), (''forbidden_ttl'', ''error''),
      (''key_mismatch'', ''error''), (''unknown'', ''error'')]"

definition exception_label :: "exn \<Rightarrow> string" where
  "exception_label exc = (case dict_get RESULT_TABLE (classify exc) of Some r \<Rightarrow> r | None \<Rightarrow> ''error'')"

definition map_exception :: "exn \<Rightarrow> OpTimer \<Rightarrow> OpTimer" where
  "map_exception exc t = t\<lparr>t_result := exception_label exc\<rparr>"

section \<open>Properties\<close>

text \<open>What \<open>prometheus_client\<close> asks of declarations: different names, bucket limits in increasing
  order, and no label \<open>le\<close> on a histogram.\<close>

fun metric_name :: "metric \<Rightarrow> string" where
  "metric_name (Counter n _ _) = n"
| "metric_name (Histogram n _ _ _) = n"
| "metric_name (Gauge n _) = n"

fun limit_less :: "int \<times> nat \<Rightarrow> int \<times> nat \<Rightarrow> bool" where
  "limit_less (m, k) (m', k') \<longleftrightarrow> m * 10 ^ k' < m' * 10 ^ k"

fun metric_ok :: "metric \<Rightarrow> bool" where
  "metric_ok (Histogram _ _ labels limits) \<longleftrightarrow> sorted_wrt limit_less limits \<and> limits \<noteq> [] \<and> ''le'' \<notin> set labels"
| "metric_ok _ \<longleftrightarrow> True"

lemma metrics_accepted: "distinct (map metric_name METRICS) \<and> list_all metric_ok METRICS"
  by (simp add: METRICS_def)

lemma finish_twice: "finish (fst (finish t m)) (snd (finish t m)) = finish t m"
  by (simp add: finish_def)

lemma m_prom_inc [simp]: "m_prom (inc_in_flight d m) = m_prom m"
  by (simp add: inc_in_flight_def)

lemma m_in_flight_inc: "m_in_flight (inc_in_flight d m) = (if m_prom m then m_in_flight m + d else m_in_flight m)"
  by (simp add: inc_in_flight_def)

text \<open>
  The in-flight gauge is back at its value after a tracked operation, whether the body
  returned or raised, as long as the body itself leaves the gauge and the availability of
  \<open>prometheus_client\<close> as it found them.
\<close>

theorem track_in_flight_gauge:
  assumes "m_in_flight (snd (body (inc_in_flight 1 m))) = m_in_flight (inc_in_flight 1 m)"
    and "m_prom (snd (body (inc_in_flight 1 m))) = m_prom m"
  shows "m_in_flight (snd (track_in_flight body m)) = m_in_flight m"
  using assms by (cases "body (inc_in_flight 1 m)") (simp add: track_in_flight_def m_in_flight_inc split: if_splits)

theorem track_in_flight_gauge_witness:
  "m_in_flight (snd (track_in_flight (\<lambda>n. (Inl (Builtin RuntimeError) :: exn + unit, observe_op ''x'' ''error'' n))
     \<lparr>m_prom = True, m_ops = [], m_segments = [], m_in_flight = 3\<rparr>)) = 3"
  using track_in_flight_gauge [of "\<lambda>n. (Inl (Builtin RuntimeError) :: exn + unit, observe_op ''x'' ''error'' n)"
      "\<lparr>m_prom = True, m_ops = [], m_segments = [], m_in_flight = 3\<rparr>"]
  by (simp add: observe_op_def inc_in_flight_def)

text \<open>Every bucket of \<open>classify\<close> has its own entry, so the default label is never used.\<close>

lemma exception_label_known: "dict_get RESULT_TABLE (classify exc) \<noteq> None"
  using classify_range [of exc] by (auto simp: RESULT_TABLE_def)

end
