(* ===== verification/Sharding.thy ===== *)
theory Sharding
  imports Errors
begin

text \<open>
  \<open>sharding.py\<close>: the adaptive segment planner and the per-segment lengths. Python integers
  are unbounded, so everything is over \<open>int\<close>; \<open>a // b\<close> rounds towards minus infinity as
  \<open>div\<close> does, and raises for \<open>b = 0\<close>.
\<close>

record ShardPlan =
  nseg :: int
  seg_b :: int

definition py_floordiv :: "int \<Rightarrow> int \<Rightarrow> exn + int" where
  "py_floordiv a b = (if b = 0 then Inl (Builtin ZeroDivisionError) else Inr (a div b))"

definition plan :: "int \<Rightarrow> int \<Rightarrow> int \<Rightarrow> int \<Rightarrow> int \<Rightarrow> exn + ShardPlan" where
  "plan payload_bytes target_segment_bytes max_segment_bytes min_segment_bytes
        single_record_threshold_bytes =
     (if payload_bytes = 0 then Inr \<lparr>nseg = 1, seg_b = 0\<rparr>
      else if target_segment_bytes > max_segment_bytes then Inl (Conn AerospikeConfigError)
      else if payload_bytes \<le> single_record_threshold_bytes \<and> payload_bytes \<le> max_segment_bytes
        then Inr \<lparr>nseg = 1, seg_b = payload_bytes\<rparr>
      else
        (case py_floordiv (- payload_bytes) target_segment_bytes of
           Inl e \<Rightarrow> Inl e
         | Inr q \<Rightarrow>
             (let n = - q in
              case py_floordiv (- payload_bytes) n of
                Inl e \<Rightarrow> Inl e
              | Inr q' \<Rightarrow>
                  (let s = - q' in
                   if s > max_segment_bytes then Inl (Conn AerospikeConfigError)
                   else if s < min_segment_bytes \<and> payload_bytes \<le> max_segment_bytes
                     then Inr \<lparr>nseg = 1, seg_b = payload_bytes\<rparr>
                   else Inr \<lparr>nseg = n, seg_b = s\<rparr>))))"

text \<open>The loop body of \<open>slice_lengths\<close> for the indices \<open>i, i + 1, \<dots>\<close> of \<open>range(nseg)\<close>.\<close>

fun slice_loop :: "ShardPlan \<Rightarrow> nat \<Rightarrow> int \<Rightarrow> int \<Rightarrow> int list" where
  "slice_loop shard 0 i remaining = []"
| "slice_loop shard (Suc k) i remaining =
     (if i = nseg shard - 1 then remaining # slice_loop shard k (i + 1) remaining
      else seg_b shard # slice_loop shard k (i + 1) (remaining - seg_b shard))"

definition slice_lengths :: "int \<Rightarrow> ShardPlan \<Rightarrow> int list" where
  "slice_lengths payload_bytes shard =
     (if nseg shard = 1 then [payload_bytes]
      else slice_loop shard (nat (nseg shard)) 0 payload_bytes)"

section \<open>The plan\<close>

text \<open>What every plan of a non-empty payload satisfies: the segments cover the payload, the
  last one is not empty, and none exceeds the ceiling.\<close>

definition covers :: "int \<Rightarrow> int \<Rightarrow> ShardPlan \<Rightarrow> bool" where
  "covers payload_bytes max_bytes p \<longleftrightarrow>
     1 \<le> nseg p \<and> 0 < seg_b p \<and> seg_b p \<le> max_bytes \<and>
     payload_bytes \<le> nseg p * seg_b p \<and> (nseg p - 1) * seg_b p < payload_bytes"

lemma covers_single: "0 < b \<Longrightarrow> b \<le> m \<Longrightarrow> covers b m \<lparr>nseg = 1, seg_b = b\<rparr>"
  by (simp add: covers_def)

lemma covers_single_seg: "covers b m p \<Longrightarrow> nseg p = 1 \<Longrightarrow> b \<le> seg_b p"
  by (simp add: covers_def)

lemma covers_enough: "covers (int n) m p \<Longrightarrow> n \<le> nat (nseg p) * nat (seg_b p)"
  by (simp add: covers_def nat_mult_distrib [symmetric] nat_le_iff le_nat_iff)

text \<open>The balanced segment size never exceeds the target, so the last segment is not empty.\<close>

lemma balanced_le_target:
  assumes "0 < b" "0 < t"
  shows "ceil_div b (ceil_div b t) \<le> t"
  using assms ceil_div_pos [of t b] ceil_div_upper [of t b]
  by (simp add: ceil_div_le_iff mult.commute)

lemma covers_balanced:
  assumes "0 < b" "0 < t" "t \<le> m"
  shows "covers b m \<lparr>nseg = ceil_div b t, seg_b = ceil_div b (ceil_div b t)\<rparr>"
proof -
  let ?n = "ceil_div b t" and ?s = "ceil_div b (ceil_div b t)"
  have n: "0 < ?n" and s: "0 < ?s" using assms ceil_div_pos by simp_all
  have st: "?s \<le> t" using assms by (intro balanced_le_target)
  have "(?n - 1) * ?s \<le> (?n - 1) * t" using n st by (simp add: mult_left_mono)
  also have "\<dots> < b" using assms(2) by (rule ceil_div_lower)
  finally have last: "(?n - 1) * ?s < b" .
  have "b \<le> ?n * ?s" using ceil_div_upper [OF n, of b] by (simp add: mult.commute)
  with n s st last assms(3) show ?thesis by (simp add: covers_def)
qed

lemma plan_zero [simp]: "plan 0 t m mn s = Inr \<lparr>nseg = 1, seg_b = 0\<rparr>"
  by (simp add: plan_def)

text \<open>The plan in closed form, for the configurations that \<open>limits.py\<close> lets through.\<close>

lemma plan_pos:
  assumes "0 < b" "0 < t"
  shows "plan b t m mn s =
    (if m < t then Inl (Conn AerospikeConfigError)
     else if b \<le> s \<and> b \<le> m \<or> ceil_div b (ceil_div b t) < mn \<and> b \<le> m
       then Inr \<lparr>nseg = 1, seg_b = b\<rparr>
     else Inr \<lparr>nseg = ceil_div b t, seg_b = ceil_div b (ceil_div b t)\<rparr>)"
proof -
  have n: "ceil_div b t \<noteq> 0" using ceil_div_pos [OF assms(2,1)] by simp
  have "t \<le> m \<Longrightarrow> \<not> m < ceil_div b (ceil_div b t)"
    using balanced_le_target [OF assms] by linarith
  with n assms show ?thesis
    by (simp add: plan_def py_floordiv_def ceil_div_def Let_def)
qed

section \<open>The segment lengths\<close>

lemma slice_loop_prefix:
  "int k + i < nseg p \<Longrightarrow> slice_loop p k i r = replicate k (seg_b p)"
  by (induction k arbitrary: i r) auto

lemma slice_loop_full:
  "int (Suc k) + i = nseg p \<Longrightarrow>
   slice_loop p (Suc k) i r = replicate k (seg_b p) @ [r - int k * seg_b p]"
proof (induction k arbitrary: i r)
  case 0
  then show ?case by simp
next
  case (Suc k)
  then have "i \<noteq> nseg p - 1" and "int (Suc k) + (i + 1) = nseg p" by simp_all
  with Suc.IH [of "i + 1" "r - seg_b p"] show ?case
    by (simp only: slice_loop.simps(2) [of p "Suc k"] if_False replicate_Suc append_Cons)
       (simp add: algebra_simps)
qed

text \<open>All segments but the last have \<open>seg_b\<close> bytes; the last has the rest.\<close>

lemma slice_lengths_eq:
  assumes "1 \<le> nseg p"
  shows "slice_lengths b p =
    replicate (nat (nseg p - 1)) (seg_b p) @ [b - (nseg p - 1) * seg_b p]"
proof (cases "nseg p = 1")
  case True
  then show ?thesis by (simp add: slice_lengths_def)
next
  case False
  let ?k = "nat (nseg p - 1)"
  have k: "int (Suc ?k) + 0 = nseg p" and suc: "nat (nseg p) = Suc ?k" using assms by auto
  show ?thesis
    using False slice_loop_full [OF k, of b] assms by (simp add: slice_lengths_def suc)
qed

lemma length_slice_lengths: "1 \<le> nseg p \<Longrightarrow> length (slice_lengths b p) = nat (nseg p)"
  by (simp add: slice_lengths_eq)

lemma sum_slice_lengths: "1 \<le> nseg p \<Longrightarrow> sum_list (slice_lengths b p) = b"
  by (simp add: slice_lengths_eq sum_list_replicate)

lemma nth_slice_lengths:
  assumes "covers (int n) m p" and "i < nat (nseg p)"
  shows "slice_lengths (int n) p ! i =
    int (min (i * nat (seg_b p) + nat (seg_b p)) n - i * nat (seg_b p))"
proof -
  obtain k s where p: "nseg p = int k + 1" "seg_b p = int s"
    using assms(1) that [of "nat (nseg p - 1)" "nat (seg_b p)"] by (simp add: covers_def)
  have "int n \<le> int (k * s + s)" and "int (k * s) < int n"
    using assms(1) by (simp_all add: covers_def p algebra_simps)
  then have up: "n \<le> k * s + s" and lo: "k * s < n" by (simp_all only: of_nat_le_iff of_nat_less_iff)
  have eq: "slice_lengths (int n) p = replicate k (int s) @ [int n - int k * int s]"
    using slice_lengths_eq [of p "int n"] by (simp add: p)
  have ik: "i \<le> k" using assms(2) by (simp add: p)
  show ?thesis
  proof (cases "i = k")
    case True
    with up lo show ?thesis by (simp add: eq nth_append p of_nat_diff min_def)
  next
    case False
    with ik have "Suc i * s \<le> k * s" by (intro mult_le_mono1) simp
    with lo have "i * s + s \<le> n" by simp
    with False ik show ?thesis by (simp add: eq nth_append p)
  qed
qed

section \<open>Properties\<close>

text \<open>
  For every non-empty payload and every positive target not above the ceiling, the
  planner returns a plan whose segments cover the payload, none of them above the ceiling
  and the last one non-empty; an empty payload is one empty record.
\<close>

theorem plan_covers:
  assumes "0 < payload" and "0 < target" and "target \<le> max_seg"
  shows "\<exists>p. plan payload target max_seg min_seg single = Inr p \<and> covers payload max_seg p"
  using assms by (auto simp: plan_pos covers_single covers_balanced)

theorem plan_covers_witness:
  "\<exists>p. plan 10 4 6 1 4 = Inr p \<and> covers 10 6 p"
  using plan_covers [of 10 4 6 1 4] by simp

text \<open>
  For a positive target, the planner fails only with \<open>AerospikeConfigError\<close>, and only
  when the payload is non-empty and the target is above the ceiling: the second check of the
  source (a balanced segment above the ceiling) can never fire.
\<close>

theorem plan_error_iff:
  assumes "0 \<le> payload" and "0 < target"
  shows "plan payload target max_seg min_seg single = Inl e \<longleftrightarrow>
    e = Conn AerospikeConfigError \<and> 0 < payload \<and> max_seg < target"
  using assms by (cases "payload = 0") (auto simp: plan_pos)

theorem plan_error_iff_witness:
  "plan 10 7 6 1 4 = Inl (Conn AerospikeConfigError)"
  using plan_error_iff [of 10 7 6 1 4 "Conn AerospikeConfigError"] by simp

text \<open>
  The lengths that \<open>slice_lengths\<close> lists for a covering plan are exactly the lengths of
  the slices \<open>view[i * seg_b : i * seg_b + seg_b]\<close> that \<open>put\<close> cuts, and these slices
  concatenate to the payload.
\<close>

theorem slice_lengths_match_slices:
  assumes "covers (int (length view)) max_seg p"
  defines "slices \<equiv> map (\<lambda>i. slice view (i * nat (seg_b p)) (i * nat (seg_b p) + nat (seg_b p)))
                       [0..<nat (nseg p)]"
  shows "slice_lengths (int (length view)) p = map (int \<circ> length) slices \<and> concat slices = view"
proof
  have n1: "1 \<le> nseg p" using assms(1) by (simp add: covers_def)
  show "slice_lengths (int (length view)) p = map (int \<circ> length) slices"
    by (rule nth_equalityI)
       (simp_all add: slices_def length_slice_lengths n1 nth_slice_lengths [OF assms(1)])
  show "concat slices = view"
    unfolding slices_def using covers_enough [OF assms(1)] by (rule concat_blocks_cover)
qed

theorem slice_lengths_match_slices_witness:
  "slice_lengths 5 \<lparr>nseg = 3, seg_b = 2\<rparr> = [2, 2, 1]"
proof -
  let ?v = "[1, 2, 3, 4, 5 :: byte]"
  have "covers (int (length ?v)) 4 \<lparr>nseg = 3, seg_b = 2\<rparr>" by (simp add: covers_def)
  from slice_lengths_match_slices [OF this] show ?thesis
    by (simp add: upt_rec)
qed

end
