(* ===== verification/Limits.thy ===== *)
theory Limits
  imports Config Sharding
begin

text \<open>
  \<open>limits.py\<close>: discovery of the server's record-size cap from the namespace info text, and the
  segment limits resolved from it and the configuration. The client call
  \<open>info_random_node\<close> is the parameter \<open>info\<close>: it raises or returns a text (\<open>None\<close> for
  no response).
\<close>

definition SAFETY_MARGIN_BYTES :: int where
  "SAFETY_MARGIN_BYTES = 65536"

definition MIN_RECORD_BYTES :: int where
  "MIN_RECORD_BYTES = 131072"

definition MAX_RECORD_BYTES :: int where
  "MAX_RECORD_BYTES = 8388608"

record ServerLimits =
  server_max_record_bytes :: int
  limit_source :: string
  nsup_period :: int

record ResolvedLimits =
  rl_server_max_record_bytes :: int
  rl_effective_max_segment_bytes :: int
  rl_max_segment_bytes :: int
  rl_target_segment_bytes :: int
  rl_single_record_threshold_bytes :: int
  rl_min_segment_bytes :: int

section \<open>The namespace info text\<close>

abbreviation TAB :: char where
  "TAB \<equiv> CHR 0x09"

fun parse_pairs :: "string list \<Rightarrow> (string, string) dict \<Rightarrow> (string, string) dict" where
  "parse_pairs [] pairs = pairs"
| "parse_pairs (part # parts) pairs =
     (if CHR ''='' \<notin> set part then parse_pairs parts pairs
      else (let (key, val) = split_first CHR ''='' part
            in parse_pairs parts (dict_set (strip key) (strip val) pairs)))"

definition parse_namespace_info :: "string \<Rightarrow> (string, string) dict" where
  "parse_namespace_info response =
     (let text = strip response;
          text' = (if TAB \<in> set text then snd (split_first TAB text) else text)
      in parse_pairs (split_on CHR '';'' text') [])"

text \<open>One of the two record-size fields: absent or not positive gives no cap.\<close>

definition cap_field :: "(string, string) dict \<Rightarrow> string \<Rightarrow> exn + int option" where
  "cap_field cfg name =
     (case dict_get cfg name of
        None \<Rightarrow> Inr None
      | Some text \<Rightarrow>
          (case int_of_str text of
             None \<Rightarrow> Inl (Conn AerospikeServerLimitError)
           | Some v \<Rightarrow> Inr (if v > 0 then Some v else None)))"

definition find_cap :: "(string, string) dict \<Rightarrow> exn + (int \<times> string) option" where
  "find_cap cfg =
     bindE (cap_field cfg ''max-record-size'') (\<lambda>m.
       case m of
         Some v \<Rightarrow> Inr (Some (v, ''max-record-size''))
       | None \<Rightarrow> bindE (cap_field cfg ''write-block-size'') (\<lambda>w.
           Inr (case w of Some v \<Rightarrow> Some (v, ''write-block-size'') | None \<Rightarrow> None)))"

text \<open>The range check of the cap and the \<open>nsup-period\<close> field.\<close>

definition server_limits :: "(string, string) dict \<Rightarrow> (int \<times> string) option \<Rightarrow> exn + ServerLimits" where
  "server_limits cfg found =
     (case found of
        None \<Rightarrow> Inl (Conn AerospikeServerLimitError)
      | Some (cap, source) \<Rightarrow>
          if cap < MIN_RECORD_BYTES \<or> cap > MAX_RECORD_BYTES then Inl (Conn AerospikeServerLimitError)
          else
            (case int_of_str (case dict_get cfg ''nsup-period'' of Some t \<Rightarrow> t | None \<Rightarrow> ''0'') of
               None \<Rightarrow> Inl (Conn AerospikeServerLimitError)
             | Some nsup \<Rightarrow>
                 Inr \<lparr>server_max_record_bytes = cap, limit_source = source, nsup_period = nsup\<rparr>))"

definition discover_limits :: "(string \<Rightarrow> exn + string option) \<Rightarrow> string \<Rightarrow> exn + ServerLimits" where
  "discover_limits info namespace =
     (case info (''namespace/'' @ namespace) of
        Inl e \<Rightarrow> if is_ax e then Inl (Conn AerospikeNamespaceProbeError) else Inl e
      | Inr response \<Rightarrow>
          if response = None \<or> response = Some [] then Inl (Conn AerospikeNamespaceProbeError)
          else
            (let cfg = parse_namespace_info (the response)
             in bindE (find_cap cfg) (server_limits cfg)))"

section \<open>Resolved limits\<close>

text \<open>\<open>x or d\<close> for an optional integer: \<open>None\<close> and 0 are false.\<close>

definition or_int :: "int option \<Rightarrow> int \<Rightarrow> int" where
  "or_int x d = (case x of None \<Rightarrow> d | Some v \<Rightarrow> if v = 0 then d else v)"

definition resolve_segment_limits :: "AerospikeConfig \<Rightarrow> ServerLimits \<Rightarrow> exn + ResolvedLimits" where
  "resolve_segment_limits cfg server =
     (if cfg_default_ttl_seconds cfg > 0 \<and> nsup_period server \<le> 0
        then Inl (Conn AerospikeTTLConfigError)
      else
        (let effective_max = server_max_record_bytes server - SAFETY_MARGIN_BYTES;
             max_segment = min (or_int (cfg_max_segment_bytes cfg) effective_max) effective_max;
             target = min (cfg_target_segment_bytes cfg) effective_max;
             single_threshold = min (or_int (cfg_single_record_threshold_bytes cfg) target) effective_max
         in Inr \<lparr>rl_server_max_record_bytes = server_max_record_bytes server,
                 rl_effective_max_segment_bytes = effective_max,
                 rl_max_segment_bytes = max_segment,
                 rl_target_segment_bytes = target,
                 rl_single_record_threshold_bytes = single_threshold,
                 rl_min_segment_bytes = cfg_min_segment_bytes cfg\<rparr>))"

text \<open>\<open>AerospikeStorageEngine.discover_and_resolve\<close>.\<close>

definition discover_and_resolve ::
  "(string \<Rightarrow> exn + string option) \<Rightarrow> AerospikeConfig \<Rightarrow> exn + ResolvedLimits" where
  "discover_and_resolve info cfg =
     bindE (discover_limits info (cfg_namespace cfg)) (resolve_segment_limits cfg)"

text \<open>The planner as the engine calls it.\<close>

definition plan_for :: "ResolvedLimits \<Rightarrow> int \<Rightarrow> exn + ShardPlan" where
  "plan_for r n =
     plan n (rl_target_segment_bytes r) (rl_max_segment_bytes r) (rl_min_segment_bytes r)
       (rl_single_record_threshold_bytes r)"

section \<open>Lemmas\<close>

definition limits_ok :: "ResolvedLimits \<Rightarrow> bool" where
  "limits_ok r \<longleftrightarrow>
     rl_effective_max_segment_bytes r = rl_server_max_record_bytes r - SAFETY_MARGIN_BYTES \<and>
     MIN_RECORD_BYTES \<le> rl_server_max_record_bytes r \<and>
     rl_server_max_record_bytes r \<le> MAX_RECORD_BYTES \<and>
     0 < rl_max_segment_bytes r \<and> rl_max_segment_bytes r \<le> rl_effective_max_segment_bytes r \<and>
     0 < rl_target_segment_bytes r \<and> rl_target_segment_bytes r \<le> rl_effective_max_segment_bytes r \<and>
     0 < rl_single_record_threshold_bytes r \<and>
     rl_single_record_threshold_bytes r \<le> rl_effective_max_segment_bytes r \<and>
     0 < rl_min_segment_bytes r"

lemmas record_bytes_defs = SAFETY_MARGIN_BYTES_def MIN_RECORD_BYTES_def MAX_RECORD_BYTES_def

lemma server_limits_range:
  "server_limits cfg found = Inr sl \<Longrightarrow>
   MIN_RECORD_BYTES \<le> server_max_record_bytes sl \<and> server_max_record_bytes sl \<le> MAX_RECORD_BYTES"
  by (auto simp: server_limits_def split: if_splits option.splits)

lemma discover_limits_range:
  "discover_limits info ns = Inr sl \<Longrightarrow>
   MIN_RECORD_BYTES \<le> server_max_record_bytes sl \<and> server_max_record_bytes sl \<le> MAX_RECORD_BYTES"
  by (auto simp: discover_limits_def Let_def bindE_eq_Inr dest: server_limits_range
      split: sum.splits if_splits)

lemma resolve_segment_limits_ok:
  assumes "config_ok cfg" and "MIN_RECORD_BYTES \<le> server_max_record_bytes sl"
    and "server_max_record_bytes sl \<le> MAX_RECORD_BYTES"
    and "resolve_segment_limits cfg sl = Inr r"
  shows "limits_ok r"
  using assms
  by (auto simp: resolve_segment_limits_def limits_ok_def config_ok_def record_bytes_defs or_int_def
      Let_def split: if_splits option.splits)

lemma plan_for_covers:
  assumes "limits_ok r" "rl_target_segment_bytes r \<le> rl_max_segment_bytes r" "0 < n"
  shows "\<exists>p. plan_for r n = Inr p \<and> covers n (rl_max_segment_bytes r) p"
  using assms by (auto simp: plan_for_def limits_ok_def plan_pos covers_single covers_balanced)

lemma start_up_limits_ok:
  assumes "from_extra_config extra name pre = Inr cfg"
    and "discover_and_resolve info cfg = Inr r"
  shows "limits_ok r"
proof -
  from assms(1) have "config_ok cfg" by (rule from_extra_config_valid)
  moreover from assms(2) obtain sl where
      "discover_limits info (cfg_namespace cfg) = Inr sl" "resolve_segment_limits cfg sl = Inr r"
    unfolding discover_and_resolve_def by (elim bindE_InrE)
  ultimately show ?thesis
    using discover_limits_range resolve_segment_limits_ok by blast
qed

text \<open>The info text a server sends: an optional echo of the request, a tab, the fields.\<close>

definition print_info :: "(string, string) dict \<Rightarrow> string" where
  "print_info kvs = join_with CHR '';'' (map (\<lambda>(k, v). k @ CHR ''='' # v) kvs)"

definition field_ok :: "string \<times> string \<Rightarrow> bool" where
  "field_ok kv \<longleftrightarrow> list_all (\<lambda>c. \<not> py_isspace c \<and> c \<noteq> CHR '';'') (fst kv @ snd kv) \<and> CHR ''='' \<notin> set (fst kv)"

lemma field_ok_strip: "field_ok (k, v) \<Longrightarrow> strip k = k \<and> strip v = v"
  by (intro conjI strip_no_space) (auto simp: field_ok_def list_all_iff)

lemma parse_pairs_print:
  assumes "list_all field_ok kvs" "distinct (map fst kvs)" "fst ` set d \<inter> fst ` set kvs = {}"
  shows "parse_pairs (map (\<lambda>(k, v). k @ CHR ''='' # v) kvs) d = d @ kvs"
  using assms
proof (induction kvs arbitrary: d)
  case Nil
  then show ?case by simp
next
  case (Cons kv kvs)
  obtain k v where kv: "kv = (k, v)" by force
  have "CHR ''='' \<notin> set k" "strip k = k" "strip v = v" and k: "k \<notin> fst ` set d"
    using Cons.prems field_ok_strip by (auto simp: kv field_ok_def)
  then have "dict_set (strip k) (strip v) d = d @ [(k, v)]"
    by (simp add: dict_set_new)
  with Cons.IH [of "d @ [(k, v)]"] Cons.prems \<open>CHR ''='' \<notin> set k\<close> show ?case
    by (auto simp: kv split_first_append)
qed

lemma field_ok_chars:
  assumes "field_ok (k, v)"
  shows "CHR '';'' \<notin> set (k @ CHR ''='' # v)" "c \<in> set (k @ CHR ''='' # v) \<Longrightarrow> \<not> py_isspace c"
proof -
  have all: "\<forall>c \<in> set (k @ v). \<not> py_isspace c \<and> c \<noteq> CHR '';''"
    using assms by (simp add: field_ok_def list_all_iff)
  then have "CHR '';'' \<notin> set (k @ v)" by blast
  then show "CHR '';'' \<notin> set (k @ CHR ''='' # v)" by simp
  assume "c \<in> set (k @ CHR ''='' # v)"
  then have "c = CHR ''='' \<or> c \<in> set (k @ v)" by simp
  then show "\<not> py_isspace c" using all separators_not_space(1) by blast
qed

lemma print_info_plain:
  assumes "list_all field_ok kvs"
  shows "list_all (\<lambda>c. \<not> py_isspace c) (print_info kvs)"
proof -
  have "\<not> py_isspace c" if "c \<in> set (print_info kvs)" for c
  proof -
    from that consider "c = CHR '';''" | k v where "(k, v) \<in> set kvs" "c \<in> set (k @ CHR ''='' # v)"
      unfolding print_info_def by (auto dest!: set_join_with)
    then show ?thesis
    proof cases
      case 1
      then show ?thesis by simp
    next
      case 2
      with assms have "field_ok (k, v)" by (auto simp: list_all_iff)
      then show ?thesis using 2(2) by (rule field_ok_chars(2))
    qed
  qed
  then show ?thesis by (simp add: list_all_iff)
qed

definition sample_extra :: "(string, pyval) dict" where
  "sample_extra = [(''remote_storage_plugin.a.hosts'', PStr ''h:3000'')]"

definition sample_info :: "string \<Rightarrow> exn + string option" where
  "sample_info req = Inr (Some (''ns'' @ TAB # ''max-record-size=1048576;nsup-period=120''))"

section \<open>Properties\<close>

text \<open>
  Limits that start-up accepts are consistent: from a validated configuration, a
  successful discovery and resolution gives a server cap between 128 KiB and 8 MiB, and a
  segment ceiling, a target and a single-record threshold that are all positive and at least
  64 KiB below that cap.
\<close>

theorem discover_and_resolve_ok:
  assumes "from_extra_config extra name pre = Inr cfg"
    and "discover_and_resolve info cfg = Inr r"
  shows "limits_ok r"
  using assms by (rule start_up_limits_ok)

lemma sample_resolves:
  "from_extra_config (Some sample_extra) ''a'' None =
     Inr (projr (from_extra_config (Some sample_extra) ''a'' None))"
  "discover_and_resolve sample_info (projr (from_extra_config (Some sample_extra) ''a'' None)) =
     Inr (projr (discover_and_resolve sample_info (projr (from_extra_config (Some sample_extra) ''a'' None))))"
proof -
  have "\<not> isl (from_extra_config (Some sample_extra) ''a'' None)" by code_simp
  then show "from_extra_config (Some sample_extra) ''a'' None =
     Inr (projr (from_extra_config (Some sample_extra) ''a'' None))" by (metis sum.collapse(2))
  have "\<not> isl (discover_and_resolve sample_info (projr (from_extra_config (Some sample_extra) ''a'' None)))"
    by code_simp
  then show "discover_and_resolve sample_info (projr (from_extra_config (Some sample_extra) ''a'' None)) =
     Inr (projr (discover_and_resolve sample_info (projr (from_extra_config (Some sample_extra) ''a'' None))))"
    by (metis sum.collapse(2))
qed

theorem discover_and_resolve_ok_witness:
  "limits_ok (projr (discover_and_resolve sample_info (projr (from_extra_config (Some sample_extra) ''a'' None))))"
  using sample_resolves by (rule discover_and_resolve_ok)

text \<open>
  Start-up refuses a positive TTL on a namespace whose \<open>nsup-period\<close> is not positive, and
  this is the only reason for which resolution (after discovery) fails.
\<close>

theorem resolve_ttl_error_iff:
  "resolve_segment_limits cfg sl = Inl e \<longleftrightarrow>
     e = Conn AerospikeTTLConfigError \<and> 0 < cfg_default_ttl_seconds cfg \<and> nsup_period sl \<le> 0"
  by (auto simp: resolve_segment_limits_def Let_def)

text \<open>
  Unless the operator lowers \<open>max_segment_bytes\<close>, the planner never fails: for every
  accepted configuration without an override and every payload size, start-up limits lead to
  a plan, and every segment leaves the 64 KiB margin below the server's record cap.
\<close>

theorem plan_for_total:
  assumes "from_extra_config extra name pre = Inr cfg" and "cfg_max_segment_bytes cfg = None"
    and "discover_and_resolve info cfg = Inr r" and "0 < n"
  shows "\<exists>p. plan_for r n = Inr p \<and> covers n (rl_max_segment_bytes r) p \<and>
           seg_b p + SAFETY_MARGIN_BYTES \<le> rl_server_max_record_bytes r"
proof -
  have ok: "limits_ok r"
    using assms(1,3) by (rule start_up_limits_ok)
  moreover have "rl_target_segment_bytes r \<le> rl_max_segment_bytes r"
    using assms(2,3)
    by (auto simp: discover_and_resolve_def bindE_eq_Inr resolve_segment_limits_def Let_def or_int_def
        split: if_splits)
  ultimately obtain p where "plan_for r n = Inr p" "covers n (rl_max_segment_bytes r) p"
    using plan_for_covers assms(4) by blast
  with ok show ?thesis by (auto simp: limits_ok_def covers_def)
qed

text \<open>
  With an operator override, every put of a non-empty payload fails with
  \<open>AerospikeConfigError\<close> exactly when the clamped override is below the clamped target, even
  for a payload small enough for a single record.
\<close>

theorem plan_for_override_error:
  assumes "config_ok cfg" and "discover_and_resolve info cfg = Inr r" and "0 < n"
    and "cfg_max_segment_bytes cfg = Some m"
  shows "plan_for r n = Inl (Conn AerospikeConfigError) \<longleftrightarrow>
     min m (rl_effective_max_segment_bytes r) < rl_target_segment_bytes r"
proof -
  from assms(1,2) have "limits_ok r"
    using discover_limits_range resolve_segment_limits_ok
    unfolding discover_and_resolve_def by (blast elim: bindE_InrE)
  moreover have "rl_max_segment_bytes r = min m (rl_effective_max_segment_bytes r)"
    using assms(1,2,4)
    by (auto simp: discover_and_resolve_def bindE_eq_Inr resolve_segment_limits_def Let_def or_int_def
        config_ok_def split: if_splits)
  ultimately show ?thesis
    using assms(3) by (auto simp: plan_for_def plan_pos limits_ok_def)
qed

theorem plan_for_total_witness:
  "\<exists>p. plan_for (projr (discover_and_resolve sample_info
        (projr (from_extra_config (Some sample_extra) ''a'' None)))) 5000000 = Inr p \<and> 1 \<le> nseg p"
proof -
  have "cfg_max_segment_bytes (projr (from_extra_config (Some sample_extra) ''a'' None)) = None"
    by code_simp
  from plan_for_total [OF sample_resolves(1) this sample_resolves(2), of 5000000]
  show ?thesis by (auto simp: covers_def)
qed

theorem plan_for_override_error_witness:
  "\<exists>cfg r. config_ok cfg \<and> cfg_max_segment_bytes cfg = Some 65536 \<and>
     discover_and_resolve sample_info cfg = Inr r \<and>
     plan_for r 10 = Inl (Conn AerospikeConfigError)"
proof -
  let ?c0 = "projr (from_extra_config (Some sample_extra) ''a'' None)"
  let ?cfg = "?c0\<lparr>cfg_max_segment_bytes := Some 65536\<rparr>"
  let ?r = "projr (discover_and_resolve sample_info ?cfg)"
  have ok: "config_ok ?cfg"
    using from_extra_config_valid [OF sample_resolves(1)] by (simp add: config_ok_def)
  have "\<not> isl (discover_and_resolve sample_info ?cfg)" by code_simp
  then have r: "discover_and_resolve sample_info ?cfg = Inr ?r" by (metis sum.collapse(2))
  have m: "cfg_max_segment_bytes ?cfg = Some 65536" by simp
  have "min 65536 (rl_effective_max_segment_bytes ?r) < rl_target_segment_bytes ?r" by code_simp
  with plan_for_override_error [OF ok r _ m, of 10]
  have "plan_for ?r 10 = Inl (Conn AerospikeConfigError)" by simp
  with ok m r show ?thesis by blast
qed

text \<open>
  The fields of a namespace info response are recovered in order from its text, with or
  without the echoed request before a tab; values may contain the equals sign.
\<close>

theorem parse_namespace_info_print:
  assumes "list_all field_ok kvs" and "distinct (map fst kvs)" and "kvs \<noteq> []"
    and "list_all (\<lambda>c. \<not> py_isspace c) req"
  shows "parse_namespace_info (print_info kvs) = kvs \<and>
         parse_namespace_info (req @ TAB # print_info kvs) = kvs"
proof -
  let ?t = "print_info kvs"
  have sep: "split_on CHR '';'' ?t = map (\<lambda>(k, v). k @ CHR ''='' # v) kvs"
    unfolding print_info_def
    using assms(1,3) field_ok_chars(1) by (intro split_join) (auto simp: list_all_iff)
  have parse: "parse_pairs (split_on CHR '';'' ?t) [] = kvs"
    using assms by (simp add: sep parse_pairs_print)
  have sp: "py_isspace TAB" by simp
  have t: "list_all (\<lambda>c. \<not> py_isspace c) ?t" using assms(1) by (rule print_info_plain)
  have tab: "TAB \<notin> set ?t" "TAB \<notin> set req" using t assms(4) sp by (auto simp: list_all_iff)
  have ne: "?t \<noteq> []" using assms(3) unfolding print_info_def
    by (intro join_with_eq_Nil) auto
  have "parse_namespace_info ?t = kvs"
    using parse tab(1) by (simp add: parse_namespace_info_def strip_no_space [OF t])
  moreover have "parse_namespace_info (req @ TAB # ?t) = kvs"
  proof (cases "req = []")
    case True
    have "strip (TAB # ?t) = strip ?t" using sp by (simp add: strip_def strip_by_def)
    with True parse tab(1) show ?thesis
      by (simp add: parse_namespace_info_def strip_no_space [OF t])
  next
    case False
    have "strip (req @ TAB # ?t) = req @ TAB # ?t"
      unfolding strip_def using False ne assms(4) t
      by (intro strip_by_id) (auto simp: list_all_iff)
    with parse tab show ?thesis
      by (simp add: parse_namespace_info_def split_first_append)
  qed
  ultimately show ?thesis ..
qed

theorem parse_namespace_info_print_witness:
  "parse_namespace_info (''namespace/x'' @ TAB # print_info [(''a'', ''1''), (''b'', ''x=y'')])
   = [(''a'', ''1''), (''b'', ''x=y'')]"
  using parse_namespace_info_print [of "[(''a'', ''1''), (''b'', ''x=y'')]" "''namespace/x''"]
  by (simp add: field_ok_def py_isspace_def ord_of_def)

end
