(* ===== verification/Serde.thy ===== *)
theory Serde
  imports Aerospike_Client Crc32 Metrics Limits
begin

text \<open>
  \<open>serde.py\<close>: the bins of a meta record, allocation for a read, and the copy of a payload into
  a memory object, with the memory objects themselves and the state the engine runs in.

  Memory objects belong to LMCache. What the sources use of them is a record: the bytes behind
  \<open>byte_array\<close>, whether \<open>raw_data\<close> is a tensor, the layout fields and the size. Calls of
  \<open>ref_count_down\<close> are counted in \<open>mo_downs\<close>; what LMCache does on such a call is not modelled.
  The functions of LMCache and torch that compute something are fields of \<open>lmcache_ext\<close>; the
  locale \<open>lmcache_memory\<close> states what is relied on.
\<close>

section \<open>Memory objects and the world\<close>

record memobj =
  mo_bytes :: bytes
  mo_tensor :: bool
  mo_shapes :: "int list list"
  mo_dtypes :: "string list"
  mo_fmt :: string
  mo_size :: int
  mo_downs :: nat

type_synonym heap = "nat \<Rightarrow> memobj"

record RemoteMetadata =
  rm_length :: int
  rm_shapes :: "int list list"
  rm_dtypes :: "string list"
  rm_fmt :: string

record EngineMetadata =
  save_chunk_meta :: bool
  meta_shapes :: "int list list"
  meta_dtypes :: "string list"
  meta_fmt :: string

text \<open>\<open>RemoteMetadata.serialize\<close> and \<open>deserialize\<close>; the number of bytes of
  \<open>raw_data.view(uint8).flatten()\<close>; and the copy \<open>buf[offset:end].copy_(frombuffer(payload))\<close>
  into that view.\<close>

record lmcache_ext =
  lx_serialize :: "RemoteMetadata \<Rightarrow> bytes"
  lx_deserialize :: "bval \<Rightarrow> exn + RemoteMetadata"
  lx_numel :: "memobj \<Rightarrow> nat"
  lx_copy :: "memobj \<Rightarrow> nat \<Rightarrow> bytes \<Rightarrow> exn + memobj"

text \<open>\<open>MemoryAllocator.allocate(shapes, dtypes, fmt)\<close>: a new object, \<open>None\<close>, or an exception.\<close>

type_synonym allocator = "int list list \<Rightarrow> string list \<Rightarrow> string \<Rightarrow> heap \<Rightarrow> (exn + nat option) \<times> heap"

record 's world =
  srv :: 's
  heap :: heap
  mets :: metrics
  now :: int

definition ref_count_down :: "nat \<Rightarrow> heap \<Rightarrow> heap" where
  "ref_count_down a h = h(a := (h a)\<lparr>mo_downs := Suc (mo_downs (h a))\<rparr>)"

lemma mo_bytes_ref_count_down [simp]: "mo_bytes (ref_count_down a h b) = mo_bytes (h b)"
  by (simp add: ref_count_down_def)

section \<open>Metadata bins\<close>

definition build_remote_metadata :: "memobj \<Rightarrow> RemoteMetadata" where
  "build_remote_metadata mo =
     \<lparr>rm_length = int (length (mo_bytes mo)), rm_shapes = mo_shapes mo, rm_dtypes = mo_dtypes mo,
      rm_fmt = mo_fmt mo\<rparr>"

definition meta_bins ::
  "lmcache_ext \<Rightarrow> ShardPlan \<Rightarrow> memobj \<Rightarrow> bool \<Rightarrow> bool \<Rightarrow> bool \<Rightarrow> int \<Rightarrow> bins" where
  "meta_bins X p mo save_md enable_crc pinned time =
     [(''ver'', BInt 1), (''state'', BStr ''ready''), (''nseg'', BInt (nseg p)),
      (''seg_b'', BInt (seg_b p)), (''tot_b'', BInt (int (length (mo_bytes mo)))),
      (''created_at'', BInt time), (''pin'', BBool pinned)] @
     (if save_md then [(''md'', BBytes (lx_serialize X (build_remote_metadata mo)))] else []) @
     (if nseg p = 1 then [(''b'', BBytes (mo_bytes mo))] else []) @
     (if enable_crc then [(''crc32'', BInt (crc32 (mo_bytes mo)))] else [])"

definition allocate_for_read ::
  "lmcache_ext \<Rightarrow> allocator \<Rightarrow> EngineMetadata \<Rightarrow> bins \<Rightarrow> heap \<Rightarrow> (exn + nat option \<times> bool) \<times> heap" where
  "allocate_for_read X allocate base b h =
     (case (if save_chunk_meta base then dict_get b ''md'' else None) of
        Some md \<Rightarrow>
          (case lx_deserialize X md of
             Inl e \<Rightarrow> (Inl e, h)
           | Inr rm \<Rightarrow>
               (case allocate (rm_shapes rm) (rm_dtypes rm) (rm_fmt rm) h of
                  (Inl e, h') \<Rightarrow> (Inl e, h')
                | (Inr mo, h') \<Rightarrow> (Inr (mo, False), h')))
      | None \<Rightarrow>
          (case allocate (meta_shapes base) (meta_dtypes base) (meta_fmt base) h of
             (Inl e, h') \<Rightarrow> (Inl e, h')
           | (Inr mo, h') \<Rightarrow> (Inr (mo, True), h')))"

section \<open>Copying a payload\<close>

definition patch :: "nat \<Rightarrow> bytes \<Rightarrow> bytes \<Rightarrow> bytes" where
  "patch off bs buf = take off buf @ bs @ drop (off + length bs) buf"

text \<open>\<open>len(payload)\<close> of a bin value; only byte strings can be copied.\<close>

fun payload_len :: "bval \<Rightarrow> nat option" where
  "payload_len (BBytes bs) = Some (length bs)"
| "payload_len (BStr s) = Some (length s)"
| "payload_len _ = None"

definition copy_payload :: "lmcache_ext \<Rightarrow> memobj \<Rightarrow> bval \<Rightarrow> nat \<Rightarrow> exn + memobj" where
  "copy_payload X mo payload off =
     (case payload of
        BBytes bs \<Rightarrow> if mo_tensor mo then lx_copy X mo off bs
                     else Inr (mo\<lparr>mo_bytes := patch off bs (mo_bytes mo)\<rparr>)
      | _ \<Rightarrow> Inl (Builtin TypeError))"

definition write_payload_into :: "lmcache_ext \<Rightarrow> memobj \<Rightarrow> bval \<Rightarrow> nat \<Rightarrow> exn + (nat \<times> memobj)" where
  "write_payload_into X mo payload off =
     (case payload_len payload of
        None \<Rightarrow> Inl (Builtin TypeError)
      | Some n \<Rightarrow>
          if off + n > (if mo_tensor mo then lx_numel X mo else length (mo_bytes mo))
            then Inl (Conn AerospikeInternalError)
          else bindE (copy_payload X mo payload off) (\<lambda>mo'. Inr (n, mo')))"

section \<open>What is relied on, and lemmas\<close>

locale lmcache_memory =
  fixes X :: lmcache_ext
  assumes numel: "mo_tensor mo \<Longrightarrow> lx_numel X mo = length (mo_bytes mo)"
    and copy_done: "lx_copy X mo off bs = Inr mo' \<Longrightarrow> off + length bs \<le> length (mo_bytes mo) \<Longrightarrow>
      mo' = mo\<lparr>mo_bytes := patch off bs (mo_bytes mo)\<rparr>"
    and copy_total: "bs \<noteq> [] \<Longrightarrow> off + length bs \<le> length (mo_bytes mo) \<Longrightarrow> \<exists>mo'. lx_copy X mo off bs = Inr mo'"
begin

lemma write_payload_done:
  assumes "write_payload_into X mo payload off = Inr (n, mo')"
  shows "\<exists>bs. payload = BBytes bs \<and> n = length bs \<and> off + n \<le> length (mo_bytes mo) \<and>
    mo' = mo\<lparr>mo_bytes := patch off bs (mo_bytes mo)\<rparr>"
  using assms numel [of mo]
  by (cases payload)
     (auto simp: write_payload_into_def copy_payload_def bindE_eq_Inr copy_done split: if_splits)

lemma write_payload_succeeds:
  assumes "off + length bs \<le> length (mo_bytes mo)" "bs \<noteq> [] \<or> \<not> mo_tensor mo"
  shows "write_payload_into X mo (BBytes bs) off =
    Inr (length bs, mo\<lparr>mo_bytes := patch off bs (mo_bytes mo)\<rparr>)"
  using assms numel [of mo] copy_total [of bs off mo]
  by (auto simp: write_payload_into_def copy_payload_def intro!: copy_done)

end

lemma length_patch [simp]: "off + length bs \<le> length buf \<Longrightarrow> length (patch off bs buf) = length buf"
  by (simp add: patch_def)

lemma take_patch: "off + length bs \<le> length buf \<Longrightarrow> take (off + length bs) (patch off bs buf) = take off buf @ bs"
  by (simp add: patch_def)

lemma take_patch_0 [simp]: "length bs \<le> length buf \<Longrightarrow> take (length bs) (patch 0 bs buf) = bs"
  by (simp add: patch_def)

lemma drop_patch:
  "off + length bs \<le> length buf \<Longrightarrow> drop (off + length bs) (patch off bs buf) = drop (off + length bs) buf"
  by (simp add: patch_def)

lemma distinct_meta_bins: "distinct (map fst (meta_bins X p mo save_md enable_crc pinned time))"
  by (simp add: meta_bins_def)

lemma meta_bins_get:
  "map_of (meta_bins X p mo save_md enable_crc pinned time) ''state'' = Some (BStr ''ready'')"
  "map_of (meta_bins X p mo save_md enable_crc pinned time) ''nseg'' = Some (BInt (nseg p))"
  "map_of (meta_bins X p mo save_md enable_crc pinned time) ''b'' =
     (if nseg p = 1 then Some (BBytes (mo_bytes mo)) else None)"
  "map_of (meta_bins X p mo save_md enable_crc pinned time) ''crc32'' =
     (if enable_crc then Some (BInt (crc32 (mo_bytes mo))) else None)"
  "map_of (meta_bins X p mo save_md enable_crc pinned time) ''md'' =
     (if save_md then Some (BBytes (lx_serialize X (build_remote_metadata mo))) else None)"
  by (simp_all add: meta_bins_def)

text \<open>A memory whose tensors are flat byte buffers. \<open>frombuffer\<close> refuses an empty buffer.
  The metadata text is the given one.\<close>

definition flat_memory :: "bytes \<Rightarrow> RemoteMetadata \<Rightarrow> lmcache_ext" where
  "flat_memory md_text rm = \<lparr>
     lx_serialize = \<lambda>_. md_text,
     lx_deserialize = \<lambda>v. if v = BBytes md_text then Inr rm else Inl (Builtin ValueError),
     lx_numel = \<lambda>mo. length (mo_bytes mo),
     lx_copy = \<lambda>mo off bs.
       if bs = [] then Inl (Builtin ValueError)
       else if off + length bs > length (mo_bytes mo) then Inl (Builtin RuntimeError)
       else Inr (mo\<lparr>mo_bytes := patch off bs (mo_bytes mo)\<rparr>)\<rparr>"

interpretation flat: lmcache_memory "flat_memory md_text rm" for md_text rm
  by unfold_locales (auto simp: flat_memory_def split: if_splits)

section \<open>Properties\<close>

text \<open>
  The metadata written with a chunk brings back its layout: for the bins of a put with
  \<open>save_chunk_meta\<close>, the read asks the allocator for exactly the shapes, data types and format
  of the stored object and does not reshape, provided LMCache's \<open>deserialize\<close> inverts
  \<open>serialize\<close> on that object's metadata.
\<close>

theorem allocate_for_read_same_layout:
  assumes "save_chunk_meta base"
    and "lx_deserialize X (BBytes (lx_serialize X (build_remote_metadata mo))) = Inr (build_remote_metadata mo)"
    and "alloc (mo_shapes mo) (mo_dtypes mo) (mo_fmt mo) h = (Inr r, h')"
  shows "allocate_for_read X alloc base (meta_bins X p mo True crc pinned time) h = (Inr (r, False), h')"
  using assms by (simp add: allocate_for_read_def meta_bins_get) (simp add: build_remote_metadata_def)

definition sample_mo :: memobj where
  "sample_mo = \<lparr>mo_bytes = [1, 2, 3], mo_tensor = True, mo_shapes = [[3]], mo_dtypes = [''uint8''],
     mo_fmt = ''KV_2LTD'', mo_size = 3, mo_downs = 0\<rparr>"

theorem allocate_for_read_same_layout_witness:
  "allocate_for_read (flat_memory [7] (build_remote_metadata sample_mo))
     (\<lambda>sh dt f h. (Inr (if sh = [[3]] \<and> dt = [''uint8''] then Some 5 else None), h))
     \<lparr>save_chunk_meta = True, meta_shapes = [], meta_dtypes = [], meta_fmt = []\<rparr>
     (meta_bins (flat_memory [7] (build_remote_metadata sample_mo)) \<lparr>nseg = 1, seg_b = 3\<rparr> sample_mo True False False 9)
     (\<lambda>_. sample_mo) = (Inr (Some 5, False), \<lambda>_. sample_mo)"
  by (rule allocate_for_read_same_layout) (simp_all add: flat_memory_def sample_mo_def)

end
