(* ===== verification/Engine.thy ===== *)
theory Engine
  imports Serde
begin

text \<open>
  \<open>engine.py\<close>: the storage engine, which keeps a chunk as one meta record, and as further
  segment records when it is large. Every operation is a function of the world: the server's
  state behind the client, the heap of memory objects, the metrics and the time. An operation
  returns an exception or a value, with the new world. \<open>timed\<close> is the pattern
  \<open>timer = OpTimer(op); try: ... finally: timer.finish()\<close>: the body returns the label that
  \<open>timer.result\<close> has in the end.
\<close>

section \<open>The engine\<close>

record ('s, 'k) engine =
  e_cfg :: AerospikeConfig
  e_client :: "'s aclient"
  e_meta :: EngineMetadata
  e_resolved :: ResolvedLimits
  e_reshape :: "nat \<Rightarrow> nat \<Rightarrow> heap \<Rightarrow> (exn + nat) \<times> heap"
  e_allocate_for_read :: "bins \<Rightarrow> heap \<Rightarrow> (exn + nat option \<times> bool) \<times> heap"
  e_pin_ttl :: int
  e_to_string :: "'k \<Rightarrow> string"
  e_lm :: lmcache_ext
  e_consts :: policy_consts

definition AEROSPIKE_OK :: int where
  "AEROSPIKE_OK = 0"

definition BATCH_KEYS_CHUNK :: nat where
  "BATCH_KEYS_CHUNK = 32"

definition engine_init ::
  "AerospikeConfig \<Rightarrow> 's aclient \<Rightarrow> EngineMetadata \<Rightarrow> ResolvedLimits \<Rightarrow>
   (nat \<Rightarrow> nat \<Rightarrow> heap \<Rightarrow> (exn + nat) \<times> heap) \<Rightarrow> (bins \<Rightarrow> heap \<Rightarrow> (exn + nat option \<times> bool) \<times> heap) \<Rightarrow>
   int option \<Rightarrow> ('k \<Rightarrow> string) \<Rightarrow> lmcache_ext \<Rightarrow> policy_consts \<Rightarrow> ('s, 'k) engine" where
  "engine_init cfg client metadata resolved reshape alloc pin_ttl_seconds to_str X consts =
     \<lparr>e_cfg = cfg, e_client = client, e_meta = metadata, e_resolved = resolved, e_reshape = reshape,
      e_allocate_for_read = alloc,
      e_pin_ttl = or_int pin_ttl_seconds (max (cfg_default_ttl_seconds cfg * 2) (cfg_default_ttl_seconds cfg)),
      e_to_string = to_str, e_lm = X, e_consts = consts\<rparr>"

definition ttl_value :: "('s, 'k) engine \<Rightarrow> bool \<Rightarrow> int" where
  "ttl_value E pinned = (if pinned then - 1 else cfg_default_ttl_seconds (e_cfg E))"

definition mk_of :: "('s, 'k) engine \<Rightarrow> 'k \<Rightarrow> akey" where
  "mk_of E = meta_key (e_to_string E) (cfg_namespace (e_cfg E)) (cfg_set_name (e_cfg E))"

definition sk_of :: "('s, 'k) engine \<Rightarrow> 'k \<Rightarrow> int \<Rightarrow> akey" where
  "sk_of E = segment_key (e_to_string E) (cfg_namespace (e_cfg E)) (cfg_set_name (e_cfg E))"

definition sks_of :: "('s, 'k) engine \<Rightarrow> 'k \<Rightarrow> int \<Rightarrow> akey list" where
  "sks_of E = segment_keys (e_to_string E) (cfg_namespace (e_cfg E)) (cfg_set_name (e_cfg E))"

definition timed ::
  "string \<Rightarrow> ('s world \<Rightarrow> string \<times> (exn + 'a) \<times> 's world) \<Rightarrow> 's world \<Rightarrow> (exn + 'a) \<times> 's world" where
  "timed opn body w =
     (let (label, r, w') = body w;
          (_, m) = finish ((op_timer opn)\<lparr>t_result := label\<rparr>) (mets w')
      in (r, w'\<lparr>mets := m\<rparr>))"

text \<open>The public view of the limits, and the metadata of a write.\<close>

definition resolved :: "('s, 'k) engine \<Rightarrow> ResolvedLimits" where
  "resolved E = e_resolved E"

definition put_meta :: "int \<Rightarrow> (string, int) dict" where
  "put_meta ttl = [(''ttl'', ttl)]"

section \<open>exists\<close>

definition exists_body :: "('s, 'k) engine \<Rightarrow> 'k \<Rightarrow> 's world \<Rightarrow> string \<times> (exn + bool) \<times> 's world" where
  "exists_body E ck w =
     (let (r, s) = cl_select (e_client E) (mk_of E ck) [''state''] (srv w); w1 = w\<lparr>srv := s\<rparr>
      in case r of
        Inr _ \<Rightarrow> (''hit'', Inr True, w1)
      | Inl exc \<Rightarrow>
          if isinstance exc RecordNotFound then (''miss'', Inr False, w1)
          else if is_ax exc then
            (if classify exc = ''timeout'' then (''timeout'', Inr False, w1)
             else (exception_label exc, Inl (Conn (map_aerospike_error ''exists'' exc)), w1))
          else (''ok'', Inl exc, w1))"

definition exists :: "('s, 'k) engine \<Rightarrow> 'k \<Rightarrow> 's world \<Rightarrow> (exn + bool) \<times> 's world" where
  "exists E ck = timed ''exists'' (exists_body E ck)"

section \<open>get\<close>

text \<open>\<open>int(v)\<close> of a bin value, and \<open>int(bins[name])\<close>.\<close>

fun bval_int :: "bval \<Rightarrow> exn + int" where
  "bval_int (BInt i) = Inr i"
| "bval_int (BBool b) = Inr (if b then 1 else 0)"
| "bval_int (BStr s) = (case int_of_str s of Some i \<Rightarrow> Inr i | None \<Rightarrow> Inl (Builtin ValueError))"
| "bval_int (BBytes bs) =
     (if list_all (\<lambda>x. x < 128) bs then
        (case int_of_str (map (\<lambda>x. char_of (unat x)) bs) of Some i \<Rightarrow> Inr i | None \<Rightarrow> Inl (Builtin ValueError))
      else Inl (Builtin ValueError))"

definition int_bin :: "bins \<Rightarrow> string \<Rightarrow> exn + int" where
  "int_bin b name = (case dict_get b name of None \<Rightarrow> Inl (Builtin KeyError) | Some v \<Rightarrow> bval_int v)"

text \<open>\<open>actual == expected\<close> for an integer and a bin value.\<close>

fun bval_eq_int :: "bval \<Rightarrow> int \<Rightarrow> bool" where
  "bval_eq_int (BInt i) n = (i = n)"
| "bval_eq_int (BBool b) n = (n = (if b then 1 else 0))"
| "bval_eq_int _ n = False"

definition crc_matches :: "('s, 'k) engine \<Rightarrow> bins \<Rightarrow> bytes \<Rightarrow> bool" where
  "crc_matches E b payload \<longleftrightarrow>
     \<not> cfg_enable_crc32 (e_cfg E) \<or>
     (case dict_get b ''crc32'' of None \<Rightarrow> True | Some expected \<Rightarrow> bval_eq_int expected (crc32 payload))"

text \<open>The segment loop of \<open>get\<close>: \<open>None\<close> is the early return on a missing segment.\<close>

fun read_segments ::
  "lmcache_ext \<Rightarrow> nat \<Rightarrow> batch_rec list \<Rightarrow> nat \<Rightarrow> nat \<Rightarrow> heap \<Rightarrow> (exn + nat option) \<times> heap" where
  "read_segments X a [] off written h = (Inr (Some written), h)"
| "read_segments X a ((code, rc) # recs) off written h =
     (case rc of
        None \<Rightarrow> (Inr None, ref_count_down a h)
      | Some b \<Rightarrow>
          if code \<noteq> AEROSPIKE_OK then (Inr None, ref_count_down a h)
          else
            (case dict_get b ''b'' of
               None \<Rightarrow> (Inl (Builtin KeyError), h)
             | Some chunk \<Rightarrow>
                 (case write_payload_into X (h a) chunk off of
                    Inl e \<Rightarrow> (Inl e, h)
                  | Inr (n, mo) \<Rightarrow> read_segments X a recs (off + n) (written + n) (h(a := mo)))))"

text \<open>The payload of either layout into object \<open>a\<close>: the number of bytes written, or \<open>None\<close>
  for a miss.\<close>

definition read_payload ::
  "('s, 'k) engine \<Rightarrow> 'k \<Rightarrow> bins \<Rightarrow> int \<Rightarrow> nat \<Rightarrow> 's world \<Rightarrow> (exn + nat option) \<times> 's world" where
  "read_payload E ck b n a w =
     (if n = 1 then
        (case dict_get b ''b'' of
           None \<Rightarrow> (Inr None, w)
         | Some payload \<Rightarrow>
             (case write_payload_into (e_lm E) (heap w a) payload 0 of
                Inl e \<Rightarrow> (Inl e, w)
              | Inr (k, mo) \<Rightarrow> (Inr (Some k), w\<lparr>heap := (heap w)(a := mo)\<rparr>)))
      else
        (let (r, s) = cl_batch_read (e_client E) (sks_of E ck n) [''b''] (srv w); w1 = w\<lparr>srv := s\<rparr>
         in case r of
           Inl e \<Rightarrow> (Inl e, w1)
         | Inr recs \<Rightarrow>
             (let (r', h) = read_segments (e_lm E) a recs 0 0 (heap w1) in (r', w1\<lparr>heap := h\<rparr>))))"

text \<open>The inner \<open>try\<close> of \<open>get\<close>: the label and the result, or an exception.\<close>

definition get_into ::
  "('s, 'k) engine \<Rightarrow> 'k \<Rightarrow> bins \<Rightarrow> int \<Rightarrow> nat \<Rightarrow> bool \<Rightarrow> 's world \<Rightarrow>
   (exn + string \<times> nat option) \<times> 's world" where
  "get_into E ck b n a expect_reshape w =
     (let (r, w1) = read_payload E ck b n a w in
      case r of
        Inl e \<Rightarrow> (Inl e, w1)
      | Inr None \<Rightarrow> (Inr (''miss'', None), w1)
      | Inr (Some written) \<Rightarrow>
          if \<not> crc_matches E b (take written (mo_bytes (heap w1 a)))
            then (Inr (''miss'', None), w1\<lparr>heap := ref_count_down a (heap w1)\<rparr>)
          else if expect_reshape then
            (let (r', h) = e_reshape E a written (heap w1); w2 = w1\<lparr>heap := h\<rparr> in
             case r' of Inl e \<Rightarrow> (Inl e, w2) | Inr a' \<Rightarrow> (Inr (''hit'', Some a'), w2))
          else (Inr (''hit'', Some a), w1))"

definition get_meta_error :: "exn \<Rightarrow> string \<times> (exn + nat option)" where
  "get_meta_error exc =
     (if isinstance exc RecordNotFound then (''miss'', Inr None)
      else if is_ax exc then
        (if classify exc = ''timeout'' then (''timeout'', Inr None)
         else if classify exc = ''connection'' then (''error'', Inl (Conn AerospikeConnectionError))
         else (exception_label exc, Inl (Conn (map_aerospike_error ''get'' exc))))
      else (''ok'', Inl exc))"

definition get_target ::
  "('s, 'k) engine \<Rightarrow> nat option \<Rightarrow> bins \<Rightarrow> heap \<Rightarrow> (exn + nat option \<times> bool) \<times> heap" where
  "get_target E preallocated b h =
     (case preallocated of Some a \<Rightarrow> (Inr (Some a, False), h) | None \<Rightarrow> e_allocate_for_read E b h)"

definition get_body ::
  "('s, 'k) engine \<Rightarrow> 'k \<Rightarrow> nat option \<Rightarrow> 's world \<Rightarrow> string \<times> (exn + nat option) \<times> 's world" where
  "get_body E ck preallocated w =
     (let (r, s) = cl_get (e_client E) (mk_of E ck) (srv w); w1 = w\<lparr>srv := s\<rparr> in
      case r of
        Inl exc \<Rightarrow> (let (label, res) = get_meta_error exc in (label, res, w1))
      | Inr b \<Rightarrow>
          if dict_get b ''state'' \<noteq> Some (BStr ''ready'') then (''miss'', Inr None, w1)
          else
            (case int_bin b ''nseg'' of
               Inl e \<Rightarrow> (''ok'', Inl e, w1)
             | Inr n \<Rightarrow>
                 (let (t, h) = get_target E preallocated b (heap w1); w2 = w1\<lparr>heap := h\<rparr> in
                  case t of
                    Inl e \<Rightarrow> (''ok'', Inl e, w2)
                  | Inr (None, _) \<Rightarrow> (''miss'', Inr None, w2)
                  | Inr (Some a, expect_reshape) \<Rightarrow>
                      (let (r', w3) = get_into E ck b n a expect_reshape w2 in
                       case r' of
                         Inl e \<Rightarrow> (''error'', Inl e, w3\<lparr>heap := ref_count_down a (heap w3)\<rparr>)
                       | Inr (label, res) \<Rightarrow> (label, Inr res, w3)))))"

definition get ::
  "('s, 'k) engine \<Rightarrow> 'k \<Rightarrow> nat option \<Rightarrow> 's world \<Rightarrow> (exn + nat option) \<times> 's world" where
  "get E ck preallocated = timed ''get'' (get_body E ck preallocated)"

section \<open>put\<close>

text \<open>The \<open>except\<close> clauses of the writing operations: the label and the exception that leaves.\<close>

definition write_except :: "string \<Rightarrow> exn \<Rightarrow> string \<times> exn" where
  "write_except opn exc =
     (if isinstance exc RecordTooBig then (''record_too_big'', Conn AerospikeRecordTooBigError)
      else if is_ax exc then
        (let bucket = classify exc in
         if bucket = ''forbidden_ttl'' then (''error'', Conn AerospikeTTLConfigError)
         else if bucket = ''busy'' then (''busy'', Conn AerospikeBusyError)
         else (exception_label exc, Conn (map_aerospike_error opn exc)))
      else (''ok'', exc))"

definition segment_chunk :: "bytes \<Rightarrow> ShardPlan \<Rightarrow> int \<Rightarrow> bytes" where
  "segment_chunk payload p i = slice payload (nat (i * seg_b p)) (nat (i * seg_b p + seg_b p))"

definition segment_bins :: "bool \<Rightarrow> bytes \<Rightarrow> bins" where
  "segment_bins enable_crc chunk =
     (''b'', BBytes chunk) # (if enable_crc then [(''crc32'', BInt (crc32 chunk))] else [])"

definition segment_writes ::
  "('s, 'k) engine \<Rightarrow> 'k \<Rightarrow> bytes \<Rightarrow> ShardPlan \<Rightarrow> int \<Rightarrow> policy \<Rightarrow> batch_op list" where
  "segment_writes E ck payload p ttl wp =
     map (\<lambda>i. BWrite (sk_of E ck i)
            (segment_bins (cfg_enable_crc32 (e_cfg E)) (segment_chunk payload p i)) ttl wp)
       (py_range (nseg p))"

text \<open>The first result code that is not OK.\<close>

definition first_error :: "int list \<Rightarrow> int option" where
  "first_error codes = List.find (\<lambda>c. c \<noteq> AEROSPIKE_OK) codes"

definition put_bins :: "('s, 'k) engine \<Rightarrow> ShardPlan \<Rightarrow> memobj \<Rightarrow> bool \<Rightarrow> int \<Rightarrow> bins" where
  "put_bins E p mo pinned time =
     meta_bins (e_lm E) p mo (save_chunk_meta (e_meta E)) (cfg_enable_crc32 (e_cfg E)) pinned time"

text \<open>The \<open>try\<close> block of \<open>put\<close>: segments first, the meta record last.\<close>

definition put_io ::
  "('s, 'k) engine \<Rightarrow> 'k \<Rightarrow> bytes \<Rightarrow> ShardPlan \<Rightarrow> bins \<Rightarrow> int \<Rightarrow> policy \<Rightarrow> 's \<Rightarrow> (exn + unit) \<times> 's" where
  "put_io E ck payload p mbins ttl wp s =
     (if nseg p = 1 then cl_put (e_client E) (mk_of E ck) mbins ttl wp s
      else
        (let (r, s1) = cl_batch_write (e_client E) (segment_writes E ck payload p ttl wp) s in
         case r of
           Inl e \<Rightarrow> (Inl e, s1)
         | Inr codes \<Rightarrow>
             (case first_error codes of
                Some c \<Rightarrow> (Inl (Conn (map_aerospike_error ''put-segment'' (result_to_exc c))), s1)
              | None \<Rightarrow> cl_put (e_client E) (mk_of E ck) mbins ttl wp s1)))"

definition put_body ::
  "('s, 'k) engine \<Rightarrow> 'k \<Rightarrow> bytes \<Rightarrow> ShardPlan \<Rightarrow> bins \<Rightarrow> int \<Rightarrow> policy \<Rightarrow> 's world \<Rightarrow>
   string \<times> (exn + unit) \<times> 's world" where
  "put_body E ck payload p mbins ttl wp w =
     (let (r, s) = put_io E ck payload p mbins ttl wp (srv w); w1 = w\<lparr>srv := s\<rparr> in
      case r of
        Inr _ \<Rightarrow> (''ok'', Inr (), w1)
      | Inl exc \<Rightarrow> (let (label, exc') = write_except ''put'' exc in (label, Inl exc', w1)))"

definition put :: "('s, 'k) engine \<Rightarrow> 'k \<Rightarrow> nat \<Rightarrow> bool \<Rightarrow> 's world \<Rightarrow> (exn + unit) \<times> 's world" where
  "put E ck a pinned w =
     (let mo = heap w a; payload = mo_bytes mo; n = int (length payload) in
      case plan_for (e_resolved E) n of
        Inl e \<Rightarrow> (Inl e, w)
      | Inr p \<Rightarrow>
          (let w1 = w\<lparr>mets := observe_segments (nseg p) n (mets w)\<rparr>; ttl = ttl_value E pinned in
           case write_policy (e_consts E) (e_cfg E) of
             Inl e \<Rightarrow> (Inl e, w1)
           | Inr wp \<Rightarrow>
               timed ''put'' (put_body E ck payload p (put_bins E p mo pinned (now w)) ttl wp) w1))"

section \<open>batched\_put\<close>

abbreviation chunked :: "'a list \<Rightarrow> 'a list list" where
  "chunked items \<equiv> blocks BATCH_KEYS_CHUNK items"

text \<open>The planning loop of \<open>_batched_put_chunk\<close>.\<close>

fun plan_items ::
  "('s, 'k) engine \<Rightarrow> bool \<Rightarrow> ('k \<times> nat) list \<Rightarrow> 's world \<Rightarrow>
   (exn + ('k \<times> nat \<times> ShardPlan \<times> bins) list) \<times> 's world" where
  "plan_items E pinned [] w = (Inr [], w)"
| "plan_items E pinned ((ck, a) # items) w =
     (let n = int (length (mo_bytes (heap w a))) in
      case plan_for (e_resolved E) n of
        Inl e \<Rightarrow> (Inl e, w)
      | Inr p \<Rightarrow>
          (let w1 = w\<lparr>mets := observe_segments (nseg p) n (mets w)\<rparr>;
               (r, w2) = plan_items E pinned items w1
           in (bindE r (\<lambda>ps. Inr ((ck, a, p, put_bins E p (heap w a) pinned (now w)) # ps)), w2)))"

text \<open>The sequential fallback: one \<open>put\<close> per item, expected failures become \<open>False\<close>.\<close>

definition put_failure_caught :: "exn \<Rightarrow> bool" where
  "put_failure_caught e \<longleftrightarrow>
     e \<in> {Conn AerospikeRecordTooBigError, Conn AerospikeTTLConfigError, Conn AerospikeBusyError} \<or> is_ax e"

fun put_each :: "('s, 'k) engine \<Rightarrow> bool \<Rightarrow> ('k \<times> nat) list \<Rightarrow> 's world \<Rightarrow> (exn + bool list) \<times> 's world" where
  "put_each E pinned [] w = (Inr [], w)"
| "put_each E pinned ((ck, a) # items) w =
     (let (r, w1) = put E ck a pinned w in
      case r of
        Inl e \<Rightarrow>
          if put_failure_caught e then
            (let (r', w2) = put_each E pinned items w1 in (bindE r' (\<lambda>bs. Inr (False # bs)), w2))
          else (Inl e, w1)
      | Inr _ \<Rightarrow>
          (let (r', w2) = put_each E pinned items w1 in (bindE r' (\<lambda>bs. Inr (True # bs)), w2)))"

definition batched_put_chunk ::
  "('s, 'k) engine \<Rightarrow> bool \<Rightarrow> ('k \<times> nat) list \<Rightarrow> 's world \<Rightarrow> (exn + bool list) \<times> 's world" where
  "batched_put_chunk E pinned items w =
     (case write_policy (e_consts E) (e_cfg E) of
        Inl e \<Rightarrow> (Inl e, w)
      | Inr wp \<Rightarrow>
          (let (r, w1) = plan_items E pinned items w in
           case r of
             Inl e \<Rightarrow> (Inl e, w1)
           | Inr plans \<Rightarrow>
               if list_ex (\<lambda>(_, _, p, _). nseg p > 1) plans
                 then put_each E pinned (map (\<lambda>(ck, a, _, _). (ck, a)) plans) w1
               else
                 (let (r', s) = cl_batch_write (e_client E)
                        (map (\<lambda>(ck, _, _, mbins). BWrite (mk_of E ck) mbins (ttl_value E pinned) wp) plans)
                        (srv w1)
                  in (bindE r' (\<lambda>codes. Inr (map (\<lambda>c. c = AEROSPIKE_OK) codes)), w1\<lparr>srv := s\<rparr>))))"

fun put_chunks ::
  "('s, 'k) engine \<Rightarrow> bool \<Rightarrow> ('k \<times> nat) list list \<Rightarrow> 's world \<Rightarrow> (exn + bool list) \<times> 's world" where
  "put_chunks E pinned [] w = (Inr [], w)"
| "put_chunks E pinned (c # cs) w =
     (let (r, w1) = batched_put_chunk E pinned c w in
      case r of
        Inl e \<Rightarrow> (Inl e, w1)
      | Inr bs \<Rightarrow> (let (r', w2) = put_chunks E pinned cs w1 in (bindE r' (\<lambda>bs'. Inr (bs @ bs')), w2)))"

definition batched_put_body ::
  "('s, 'k) engine \<Rightarrow> ('k \<times> nat) list \<Rightarrow> bool \<Rightarrow> 's world \<Rightarrow> string \<times> (exn + bool list) \<times> 's world" where
  "batched_put_body E items pinned w =
     (let (r, w1) = put_chunks E pinned (chunked items) w in
      case r of
        Inr results \<Rightarrow> (''ok'', Inr results, w1)
      | Inl exc \<Rightarrow> (let (label, exc') = write_except ''batched_put'' exc in (label, Inl exc', w1)))"

definition batched_put ::
  "('s, 'k) engine \<Rightarrow> ('k \<times> nat) list \<Rightarrow> bool \<Rightarrow> 's world \<Rightarrow> (exn + bool list) \<times> 's world" where
  "batched_put E items pinned w =
     (if items = [] then (Inr [], w) else timed ''batched_put'' (batched_put_body E items pinned) w)"

section \<open>batched\_get\_preallocated\<close>

definition META_READ_BINS :: "string list" where
  "META_READ_BINS = [''state'', ''nseg'', ''b'', ''crc32'']"

text \<open>The guarded copy of a single-record payload: \<open>True\<close> when the buffer holds it.\<close>

definition load_single :: "('s, 'k) engine \<Rightarrow> bins \<Rightarrow> bval \<Rightarrow> nat \<Rightarrow> heap \<Rightarrow> bool \<times> heap" where
  "load_single E b payload a h =
     (case write_payload_into (e_lm E) (h a) payload 0 of
        Inl _ \<Rightarrow> (False, h)
      | Inr (n, mo) \<Rightarrow> (crc_matches E b (take n (mo_bytes mo)), h(a := mo)))"

text \<open>The loop over the meta records of one chunk; \<open>i\<close> is the index of the next result. The
  entries with several segments are collected.\<close>

fun load_metas ::
  "('s, 'k) engine \<Rightarrow> batch_rec list \<Rightarrow> ('k \<times> nat) list \<Rightarrow> nat \<Rightarrow> bool list \<Rightarrow> heap \<Rightarrow>
   (exn + (nat \<times> 'k \<times> nat) list) \<times> bool list \<times> heap" where
  "load_metas E [] items i results h = (Inr [], results, h)"
| "load_metas E (rc # recs) [] i results h = (Inl (Builtin IndexError), results, h)"
| "load_metas E ((code, rc) # recs) ((ck, a) # items) i results h =
     (case rc of
        None \<Rightarrow> load_metas E recs items (Suc i) results h
      | Some b \<Rightarrow>
          if code \<noteq> AEROSPIKE_OK \<or> dict_get b ''state'' \<noteq> Some (BStr ''ready'')
            then load_metas E recs items (Suc i) results h
          else
            (case int_bin b ''nseg'' of
               Inl e \<Rightarrow> (Inl e, results, h)
             | Inr n \<Rightarrow>
                 if n \<noteq> 1 then
                   (let (r, results', h') = load_metas E recs items (Suc i) results h
                    in (bindE r (\<lambda>ms. Inr ((i, ck, a) # ms)), results', h'))
                 else
                   (case dict_get b ''b'' of
                      None \<Rightarrow> load_metas E recs items (Suc i) results h
                    | Some payload \<Rightarrow>
                        (let (ok, h') = load_single E b payload a h
                         in load_metas E recs items (Suc i) (if ok then results[i := True] else results) h'))))"

fun load_multi ::
  "('s, 'k) engine \<Rightarrow> (nat \<times> 'k \<times> nat) list \<Rightarrow> bool list \<Rightarrow> 's world \<Rightarrow> (exn + unit) \<times> bool list \<times> 's world" where
  "load_multi E [] results w = (Inr (), results, w)"
| "load_multi E ((i, ck, a) # ms) results w =
     (let (r, w1) = get E ck (Some a) w in
      case r of
        Inl e \<Rightarrow> (Inl e, results, w1)
      | Inr res \<Rightarrow> load_multi E ms (if res \<noteq> None then results[i := True] else results) w1)"

definition load_chunk ::
  "('s, 'k) engine \<Rightarrow> ('k \<times> nat) list \<Rightarrow> bool list \<Rightarrow> nat \<Rightarrow> 's world \<Rightarrow> (exn + unit) \<times> bool list \<times> 's world" where
  "load_chunk E items results off w =
     (let (r, s) = cl_batch_read (e_client E) (map (\<lambda>(ck, _). mk_of E ck) items) META_READ_BINS (srv w);
          w1 = w\<lparr>srv := s\<rparr>
      in case r of
        Inl e \<Rightarrow> (Inl e, results, w1)
      | Inr recs \<Rightarrow>
          (let (r', results', h) = load_metas E recs items off results (heap w1); w2 = w1\<lparr>heap := h\<rparr> in
           case r' of
             Inl e \<Rightarrow> (Inl e, results', w2)
           | Inr multi \<Rightarrow> load_multi E multi results' w2))"

fun load_chunks ::
  "('s, 'k) engine \<Rightarrow> ('k \<times> nat) list list \<Rightarrow> bool list \<Rightarrow> nat \<Rightarrow> 's world \<Rightarrow>
   (exn + unit) \<times> bool list \<times> 's world" where
  "load_chunks E [] results off w = (Inr (), results, w)"
| "load_chunks E (c # cs) results off w =
     (let (r, results', w1) = load_chunk E c results off w in
      case r of
        Inl e \<Rightarrow> (Inl e, results', w1)
      | Inr _ \<Rightarrow> load_chunks E cs results' (off + length c) w1)"

definition batched_get_body ::
  "('s, 'k) engine \<Rightarrow> ('k \<times> nat) list \<Rightarrow> 's world \<Rightarrow> string \<times> (exn + bool list) \<times> 's world" where
  "batched_get_body E items w =
     (let (r, results, w1) = load_chunks E (chunked items) (replicate (length items) False) 0 w in
      case r of
        Inr _ \<Rightarrow> (''ok'', Inr results, w1)
      | Inl exc \<Rightarrow>
          if is_ax exc then
            (if classify exc = ''timeout'' then (''timeout'', Inr results, w1)
             else if classify exc = ''connection'' then (''error'', Inl (Conn AerospikeConnectionError), w1)
             else (exception_label exc, Inl (Conn (map_aerospike_error ''batched_get'' exc)), w1))
          else (''ok'', Inl exc, w1))"

definition batched_get_preallocated ::
  "('s, 'k) engine \<Rightarrow> ('k \<times> nat) list \<Rightarrow> 's world \<Rightarrow> (exn + bool list) \<times> 's world" where
  "batched_get_preallocated E items w =
     (if items = [] then (Inr [], w) else timed ''batched_get'' (batched_get_body E items) w)"

section \<open>Lookup\<close>

text \<open>The number of leading result codes that are OK.\<close>

fun count_ok :: "batch_rec list \<Rightarrow> int" where
  "count_ok [] = 0"
| "count_ok (rc # recs) = (if fst rc \<noteq> AEROSPIKE_OK then 0 else 1 + count_ok recs)"

definition batched_contains :: "('s, 'k) engine \<Rightarrow> 'k list \<Rightarrow> 's world \<Rightarrow> (exn + int) \<times> 's world" where
  "batched_contains E keys =
     timed ''batched_contains'' (\<lambda>w.
       if keys = [] then (''ok'', Inr 0, w)
       else
         (let (r, s) = cl_batch_read (e_client E) (map (mk_of E) keys) [] (srv w); w1 = w\<lparr>srv := s\<rparr> in
          case r of
            Inl e \<Rightarrow> if is_ax e then (''error'', Inr 0, w1) else (''ok'', Inl e, w1)
          | Inr recs \<Rightarrow> (''ok'', Inr (count_ok recs), w1)))"

definition batched_exists_mask :: "('s, 'k) engine \<Rightarrow> 'k list \<Rightarrow> 's world \<Rightarrow> (exn + bool list) \<times> 's world" where
  "batched_exists_mask E keys =
     timed ''batched_exists'' (\<lambda>w.
       if keys = [] then (''ok'', Inr [], w)
       else
         (let (r, s) = cl_batch_read (e_client E) (map (mk_of E) keys) [] (srv w); w1 = w\<lparr>srv := s\<rparr> in
          case r of
            Inl e \<Rightarrow> if is_ax e then (''error'', Inr (replicate (length keys) False), w1) else (''ok'', Inl e, w1)
          | Inr recs \<Rightarrow> (''ok'', Inr (map (\<lambda>rc. fst rc = AEROSPIKE_OK) recs), w1)))"

section \<open>Pins\<close>

definition pin_keys_batch :: "('s, 'k) engine \<Rightarrow> 'k list \<Rightarrow> 's world \<Rightarrow> (exn + unit) \<times> 's world" where
  "pin_keys_batch E keys w =
     (case write_policy (e_consts E) (e_cfg E) of
        Inl e \<Rightarrow> (Inl e, w)
      | Inr wp \<Rightarrow>
          (let (r, s) = cl_batch_write (e_client E)
                 (map (\<lambda>ck. BWrite (mk_of E ck) [(''pin'', BBool True)] (e_pin_ttl E) wp) keys) (srv w);
               w1 = w\<lparr>srv := s\<rparr>
           in case r of
             Inl e \<Rightarrow> if is_ax e then (Inr (), w1) else (Inl e, w1)
           | Inr _ \<Rightarrow> (Inr (), w1)))"

definition pin_keys :: "('s, 'k) engine \<Rightarrow> 'k list \<Rightarrow> 's world \<Rightarrow> (exn + unit) \<times> 's world" where
  "pin_keys E keys w = (if keys = [] then (Inr (), w) else pin_keys_batch E keys w)"

definition unpin :: "('s, 'k) engine \<Rightarrow> 'k \<Rightarrow> 's world \<Rightarrow> (exn + bool) \<times> 's world" where
  "unpin E ck w =
     (let ttl = cfg_default_ttl_seconds (e_cfg E) in
      case write_policy (e_consts E) (e_cfg E) of
        Inl e \<Rightarrow> (Inl e, w)
      | Inr wp \<Rightarrow>
          (let (r, s) = cl_touch (e_client E) (mk_of E ck) ttl wp (srv w);
               (r', s') = (case r of
                   Inl e \<Rightarrow> (Inl e, s)
                 | Inr _ \<Rightarrow> cl_operate (e_client E) (mk_of E ck) [(''pin'', BBool False)] ttl wp s);
               w1 = w\<lparr>srv := s'\<rparr>
           in case r' of
             Inr _ \<Rightarrow> (Inr True, w1)
           | Inl e \<Rightarrow> if isinstance e RecordNotFound \<or> is_ax e then (Inr False, w1) else (Inl e, w1)))"

definition pin :: "('s, 'k) engine \<Rightarrow> 'k \<Rightarrow> 's world \<Rightarrow> (exn + bool) \<times> 's world" where
  "pin E ck w =
     (let (r, w1) = exists E ck w in
      case r of
        Inl e \<Rightarrow> (Inl e, w1)
      | Inr False \<Rightarrow> (Inr False, w1)
      | Inr True \<Rightarrow> (let (r', w2) = pin_keys E [ck] w1 in (bindE r' (\<lambda>_. Inr True), w2)))"

section \<open>remove\<close>

text \<open>The probe of the segment count: \<open>Inr None\<close> is the early return for an absent record.\<close>

definition remove_probe :: "('s, 'k) engine \<Rightarrow> 'k \<Rightarrow> 's \<Rightarrow> (exn + int option) \<times> 's" where
  "remove_probe E key s =
     (let (r, s1) = cl_select (e_client E) (mk_of E key) [''nseg''] s in
      case r of
        Inr b \<Rightarrow>
          (case dict_get b ''nseg'' of
             None \<Rightarrow> (Inr (Some 1), s1)
           | Some v \<Rightarrow> (bindE (bval_int v) (\<lambda>n. Inr (Some n)), s1))
      | Inl e \<Rightarrow>
          if isinstance e RecordNotFound then (Inr None, s1)
          else if is_ax e then (Inr (Some 1), s1)
          else (Inl e, s1))"

definition remove_segments :: "('s, 'k) engine \<Rightarrow> 'k \<Rightarrow> int \<Rightarrow> 's \<Rightarrow> (exn + unit) \<times> 's" where
  "remove_segments E key n s =
     (if n > 1 then
        (let (r, s1) = cl_batch_write (e_client E) (map (\<lambda>i. BRemove (sk_of E key i)) (py_range n)) s in
         case r of
           Inl e \<Rightarrow> if is_ax e then (Inr (), s1) else (Inl e, s1)
         | Inr _ \<Rightarrow> (Inr (), s1))
      else (Inr (), s))"

definition remove_srv :: "('s, 'k) engine \<Rightarrow> 'k \<Rightarrow> 's \<Rightarrow> (exn + bool) \<times> 's" where
  "remove_srv E key s =
     (let (r, s1) = remove_probe E key s in
      case r of
        Inl e \<Rightarrow> (Inl e, s1)
      | Inr None \<Rightarrow> (Inr False, s1)
      | Inr (Some n) \<Rightarrow>
          (let (r', s2) = cl_remove (e_client E) (mk_of E key) s1 in
           case r' of
             Inl e \<Rightarrow>
               if isinstance e RecordNotFound then (Inr False, s2)
               else if is_ax e then (Inl (Conn (map_aerospike_error ''remove'' e)), s2)
               else (Inl e, s2)
           | Inr _ \<Rightarrow> (let (r'', s3) = remove_segments E key n s2 in (bindE r'' (\<lambda>_. Inr True), s3))))"

definition remove :: "('s, 'k) engine \<Rightarrow> 'k \<Rightarrow> 's world \<Rightarrow> (exn + bool) \<times> 's world" where
  "remove E key w = (let (r, s) = remove_srv E key (srv w) in (r, w\<lparr>srv := s\<rparr>))"

end
