(* ===== verification/Engine_Read.thy ===== *)
theory Engine_Read
  imports Engine
begin

text \<open>
  The reading operations of the engine against the abstract content of the database.
  \<open>payload_of E v ck\<close> is the chunk that the records of view \<open>v\<close> hold for key \<open>ck\<close>: the abstract
  specification of the engine is a map from keys to byte strings. The locale \<open>storage_env\<close>
  joins the contracts of the client and of the memory objects; the lemmas on reading are
  proved in it once, and the properties at the end instantiate them.
\<close>

section \<open>The abstract content\<close>

definition rec_payload :: "recmap option \<Rightarrow> bytes option" where
  "rec_payload r =
     (case r of None \<Rightarrow> None | Some m \<Rightarrow> (case m ''b'' of Some (BBytes bs) \<Rightarrow> Some bs | _ \<Rightarrow> None))"

definition chunks_from :: "('s, 'k) engine \<Rightarrow> dbview \<Rightarrow> 'k \<Rightarrow> recmap \<Rightarrow> int \<Rightarrow> bytes list option" where
  "chunks_from E v ck m n =
     (if n = 1 then map_option (\<lambda>bs. [bs]) (rec_payload (Some m))
      else those (map (\<lambda>k. rec_payload (v k)) (sks_of E ck n)))"

definition meta_nseg :: "recmap \<Rightarrow> int option" where
  "meta_nseg m =
     (if m ''state'' = Some (BStr ''ready'') then
        (case m ''nseg'' of None \<Rightarrow> None | Some x \<Rightarrow> (case bval_int x of Inl _ \<Rightarrow> None | Inr n \<Rightarrow> Some n))
      else None)"

definition stored_chunks :: "('s, 'k) engine \<Rightarrow> dbview \<Rightarrow> 'k \<Rightarrow> bytes list option" where
  "stored_chunks E v ck =
     (case v (mk_of E ck) of
        None \<Rightarrow> None
      | Some m \<Rightarrow> (case meta_nseg m of None \<Rightarrow> None | Some n \<Rightarrow> chunks_from E v ck m n))"

definition payload_of :: "('s, 'k) engine \<Rightarrow> dbview \<Rightarrow> 'k \<Rightarrow> bytes option" where
  "payload_of E v ck = map_option concat (stored_chunks E v ck)"

text \<open>The checksum stored with a key accepts its payload, if checksums are on.\<close>

definition crc_good :: "('s, 'k) engine \<Rightarrow> dbview \<Rightarrow> 'k \<Rightarrow> bytes \<Rightarrow> bool" where
  "crc_good E v ck p \<longleftrightarrow>
     \<not> cfg_enable_crc32 (e_cfg E) \<or>
     (case v (mk_of E ck) of None \<Rightarrow> True | Some m \<Rightarrow>
        (case m ''crc32'' of None \<Rightarrow> True | Some x \<Rightarrow> bval_eq_int x (crc32 p)))"

section \<open>General lemmas\<close>

lemma timed_simps [simp]:
  "fst (timed opn body w) = fst (snd (body w))"
  "srv (snd (timed opn body w)) = srv (snd (snd (body w)))"
  "heap (snd (timed opn body w)) = heap (snd (snd (body w)))"
  "now (snd (timed opn body w)) = now (snd (snd (body w)))"
  by (simp_all add: timed_def case_prod_beta Let_def)

lemma timed_ops:
  "m_prom (mets (snd (snd (body w)))) \<Longrightarrow>
   m_ops (mets (snd (timed opn body w))) = m_ops (mets (snd (snd (body w)))) @ [(opn, fst (body w))]"
  by (simp add: timed_def case_prod_beta Let_def finish_def op_timer_def observe_op_def)

lemma timedE:
  assumes "timed opn body w = (r, w')"
  obtains label w1 where "body w = (label, r, w1)" "srv w' = srv w1" "heap w' = heap w1" "now w' = now w1"
  using assms timed_simps [of opn body w] by (metis prod.collapse fst_conv snd_conv)

lemma those_map_iff: "those (map f ks) = Some cs \<longleftrightarrow> list_all2 (\<lambda>k c. f k = Some c) ks cs"
proof (induction ks arbitrary: cs)
  case (Cons k ks)
  then show ?case by (cases cs) (auto simp: option.map_sel split: option.splits)
qed auto

lemma patch_patch:
  assumes "off + length c + length d \<le> length buf"
  shows "patch (off + length c) d (patch off c buf) = patch off (c @ d) buf"
  using assms by (simp add: patch_def ac_simps)

lemma patch_empty [simp]: "patch off [] buf = buf"
  by (simp add: patch_def)

lemma rec_payload_restrict:
  "map_of b = m |` set ns \<Longrightarrow> ''b'' \<in> set ns \<Longrightarrow> map_of b ''b'' = m ''b''"
  by (simp add: restrict_map_def)

lemma rec_payload_Some: "rec_payload (Some m) = Some c \<longleftrightarrow> m ''b'' = Some (BBytes c)"
  by (auto simp: rec_payload_def split: option.splits bval.splits)

text \<open>Object \<open>a\<close> with payload \<open>p\<close> copied to its start.\<close>

definition loaded :: "nat \<Rightarrow> bytes \<Rightarrow> heap \<Rightarrow> heap" where
  "loaded a p h = h(a := (h a)\<lparr>mo_bytes := patch 0 p (mo_bytes (h a))\<rparr>)"

lemma take_loaded [simp]: "length p \<le> length (mo_bytes (h a)) \<Longrightarrow> take (length p) (mo_bytes (loaded a p h a)) = p"
  by (simp add: loaded_def)

lemma loaded_other [simp]: "c \<noteq> a \<Longrightarrow> loaded a p h c = h c"
  by (simp add: loaded_def)

section \<open>Reading in an environment\<close>

locale storage_env = aerospike_client "e_client E" view + lmcache_memory "e_lm E"
  for E :: "('s, 'k) engine" and view :: "'s \<Rightarrow> dbview"
begin

definition seg_ok :: "batch_rec \<Rightarrow> bytes \<Rightarrow> bool" where
  "seg_ok rc c \<longleftrightarrow> fst rc = 0 \<and> (\<exists>b. snd rc = Some b \<and> map_of b ''b'' = Some (BBytes c))"

lemma read_segments_done:
  assumes "read_segments (e_lm E) a recs off written h = (Inr (Some t), h')"
    and "off \<le> length (mo_bytes (h a))"
  shows "\<exists>cs. list_all2 seg_ok recs cs \<and> t = written + length (concat cs) \<and>
    off + length (concat cs) \<le> length (mo_bytes (h a)) \<and>
    h' = h(a := (h a)\<lparr>mo_bytes := patch off (concat cs) (mo_bytes (h a))\<rparr>)"
  using assms
proof (induction recs arbitrary: off written h)
  case Nil
  then show ?case by (auto simp: fun_eq_iff)
next
  case (Cons r recs)
  obtain code rc where r: "r = (code, rc)" by (cases r)
  from Cons.prems r obtain b x n mo where rc: "rc = Some b" "code = 0" "map_of b ''b'' = Some x"
    and w: "write_payload_into (e_lm E) (h a) x off = Inr (n, mo)"
    and rest: "read_segments (e_lm E) a recs (off + n) (written + n) (h(a := mo)) = (Inr (Some t), h')"
    by (auto simp: AEROSPIKE_OK_def split: option.splits if_splits sum.splits)
  from write_payload_done [OF w] obtain c where c: "x = BBytes c" "n = length c"
    "off + n \<le> length (mo_bytes (h a))" "mo = (h a)\<lparr>mo_bytes := patch off c (mo_bytes (h a))\<rparr>" by blast
  have le: "off + n \<le> length (mo_bytes ((h(a := mo)) a))" using c by simp
  from Cons.IH [OF rest le] obtain cs where cs: "list_all2 seg_ok recs cs"
    "t = written + n + length (concat cs)" "off + n + length (concat cs) \<le> length (mo_bytes ((h(a := mo)) a))"
    "h' = (h(a := mo))(a := ((h(a := mo)) a)\<lparr>mo_bytes := patch (off + n) (concat cs) (mo_bytes ((h(a := mo)) a))\<rparr>)"
    by blast
  have "seg_ok (code, rc) c" using rc c by (simp add: seg_ok_def)
  moreover have "patch (off + n) (concat cs) (mo_bytes mo) = patch off (c @ concat cs) (mo_bytes (h a))"
    using c cs(3) by (simp add: patch_patch)
  ultimately show ?case using c cs r by (intro exI [of _ "c # cs"]) auto
qed

text \<open>Conversely, present segments that fit are all copied.\<close>

lemma read_segments_succeeds:
  assumes "list_all2 seg_ok recs cs" "off + length (concat cs) \<le> length (mo_bytes (h a))"
    and "mo_tensor (h a) \<Longrightarrow> [] \<notin> set cs"
  shows "fst (read_segments (e_lm E) a recs off written h) = Inr (Some (written + length (concat cs)))"
  using assms
proof (induction recs cs arbitrary: off written h rule: list_all2_induct)
  case Nil
  then show ?case by simp
next
  case (Cons rc recs c cs)
  let ?mo = "(h a)\<lparr>mo_bytes := patch off c (mo_bytes (h a))\<rparr>"
  have w: "write_payload_into (e_lm E) (h a) (BBytes c) off = Inr (length c, ?mo)"
    using Cons.prems by (intro write_payload_succeeds) auto
  have "fst (read_segments (e_lm E) a recs (off + length c) (written + length c) (h(a := ?mo))) =
      Inr (Some (written + length c + length (concat cs)))"
    using Cons.prems by (intro Cons.IH) auto
  with w Cons.hyps(1) show ?case
    by (cases rc) (auto simp: seg_ok_def AEROSPIKE_OK_def add.assoc)
qed

lemma batch_read_chunks:
  assumes "cl_batch_read (e_client E) ks [''b''] s = (Inr recs, s')" "list_all2 seg_ok recs cs"
  shows "those (map (\<lambda>k. rec_payload (view s k)) ks) = Some cs"
  unfolding those_map_iff
proof (rule list_all2_all_nthI)
  show "length ks = length cs"
    using batch_read_length [OF assms(1)] list_all2_lengthD [OF assms(2)] by simp
  fix i assume i: "i < length ks"
  with batch_read_length [OF assms(1)] have ok: "seg_ok (recs ! i) (cs ! i)"
    using list_all2_nthD [OF assms(2), of i] by simp
  from batch_read_found [OF assms(1) i] ok rec_payload_restrict
  show "rec_payload (view s (ks ! i)) = Some (cs ! i)"
    by (fastforce simp: seg_ok_def rec_payload_Some)
qed

lemma read_payload_done:
  assumes "read_payload E ck b n a w = (Inr (Some t), w')"
  shows "\<exists>cs. chunks_from E (view (srv w)) ck (map_of b) n = Some cs \<and> t = length (concat cs) \<and>
    t \<le> length (mo_bytes (heap w a)) \<and> heap w' = loaded a (concat cs) (heap w) \<and>
    view (srv w') = view (srv w)"
proof (cases "n = 1")
  case True
  with assms obtain x mo where "map_of b ''b'' = Some x"
    "write_payload_into (e_lm E) (heap w a) x 0 = Inr (t, mo)" "w' = w\<lparr>heap := (heap w)(a := mo)\<rparr>"
    by (auto simp: read_payload_def split: option.splits sum.splits)
  with write_payload_done True show ?thesis
    by (fastforce simp: chunks_from_def rec_payload_Some loaded_def)
next
  case False
  with assms obtain recs s where r: "cl_batch_read (e_client E) (sks_of E ck n) [''b''] (srv w) = (Inr recs, s)"
    "read_segments (e_lm E) a recs 0 0 (heap w) = (Inr (Some t), heap w')" "srv w' = s"
    by (auto simp: read_payload_def Let_def split: prod.splits sum.splits)
  from read_segments_done [OF r(2)] obtain cs where cs: "list_all2 seg_ok recs cs"
    "t = length (concat cs)" "t \<le> length (mo_bytes (heap w a))"
    "heap w' = (heap w)(a := (heap w a)\<lparr>mo_bytes := patch 0 (concat cs) (mo_bytes (heap w a))\<rparr>)"
    by auto
  with batch_read_chunks [OF r(1) cs(1)] batch_read_view [OF r(1)] False r(3) show ?thesis
    by (auto simp: chunks_from_def loaded_def)
qed

text \<open>Reading never changes the content of the database.\<close>

lemma batch_read_view' [simp]: "view (snd (cl_batch_read (e_client E) ks ns s)) = view s"
  by (rule batch_read_view [OF prod.collapse [symmetric]])

lemma cl_get_view' [simp]: "view (snd (cl_get (e_client E) k s)) = view s"
  by (rule get_view [OF prod.collapse [symmetric]])

lemma cl_select_view' [simp]: "view (snd (cl_select (e_client E) k ns s)) = view s"
  by (rule select_view [OF prod.collapse [symmetric]])

lemma read_payload_view [simp]: "view (srv (snd (read_payload E ck b n a w))) = view (srv w)"
  by (simp add: read_payload_def Let_def case_prod_beta split: option.splits sum.splits)

lemma get_into_view [simp]: "view (srv (snd (get_into E ck b n a ex w))) = view (srv w)"
  using read_payload_view [of ck b n a w]
  by (auto simp: get_into_def Let_def case_prod_beta split: option.splits sum.splits)

lemma get_view_unchanged: "view (srv (snd (get E ck pre w))) = view (srv w)"
  using get_into_view
  by (auto simp: get_def get_body_def Let_def case_prod_beta split: option.splits sum.splits)

lemma get_into_hit:
  assumes "get_into E ck b n a ex w = (Inr (label, Some a'), w')"
  shows "\<exists>cs. chunks_from E (view (srv w)) ck (map_of b) n = Some cs \<and> crc_matches E b (concat cs) \<and>
    length (concat cs) \<le> length (mo_bytes (heap w a)) \<and>
    (if ex then e_reshape E a (length (concat cs)) (loaded a (concat cs) (heap w)) = (Inr a', heap w')
     else a' = a \<and> heap w' = loaded a (concat cs) (heap w))"
proof -
  from assms obtain t w1 where r: "read_payload E ck b n a w = (Inr (Some t), w1)"
    and crc: "crc_matches E b (take t (mo_bytes (heap w1 a)))"
    and rest: "if ex then e_reshape E a t (heap w1) = (Inr a', heap w') else a' = a \<and> heap w' = heap w1"
    by (auto simp: get_into_def Let_def split: prod.splits sum.splits option.splits if_splits)
  from read_payload_done [OF r] crc rest show ?thesis by fastforce
qed

lemma crc_matches_good:
  assumes "view s (mk_of E ck) = Some (map_of b)"
  shows "crc_matches E b p = crc_good E (view s) ck p"
  using assms by (simp add: crc_matches_def crc_good_def)

lemma get_hit:
  assumes "get E ck pre w = (Inr (Some a'), w')"
  shows "\<exists>p b a ex h. view (srv w) (mk_of E ck) = Some (map_of b) \<and>
    payload_of E (view (srv w)) ck = Some p \<and> crc_good E (view (srv w)) ck p \<and>
    get_target E pre b (heap w) = (Inr (Some a, ex), h) \<and> length p \<le> length (mo_bytes (h a)) \<and>
    (if ex then e_reshape E a (length p) (loaded a p h) = (Inr a', heap w')
     else a' = a \<and> heap w' = loaded a p h)"
proof -
  from assms obtain label w1 where g: "get_body E ck pre w = (label, Inr (Some a'), w1)"
    and hw: "heap w' = heap w1" unfolding get_def by (rule timedE)
  from g obtain b s n a ex h where b: "cl_get (e_client E) (mk_of E ck) (srv w) = (Inr b, s)"
    and st: "map_of b ''state'' = Some (BStr ''ready'')" and n: "int_bin b ''nseg'' = Inr n"
    and t: "get_target E pre b (heap w) = (Inr (Some a, ex), h)"
    and r: "get_into E ck b n a ex (w\<lparr>srv := s, heap := h\<rparr>) = (Inr (label, Some a'), w1)"
    by (auto simp: get_body_def get_meta_error_def Let_def
        split: prod.splits sum.splits option.splits if_splits)
  from n have m: "meta_nseg (map_of b) = Some n"
    using st by (auto simp: meta_nseg_def int_bin_def split: option.splits)
  from get_into_hit [OF r] obtain cs where cs: "chunks_from E (view s) ck (map_of b) n = Some cs"
    "crc_matches E b (concat cs)" "length (concat cs) \<le> length (mo_bytes (h a))"
    "if ex then e_reshape E a (length (concat cs)) (loaded a (concat cs) h) = (Inr a', heap w1)
     else a' = a \<and> heap w1 = loaded a (concat cs) h" by (auto split: if_splits)
  have v: "view s = view (srv w)" and f: "view (srv w) (mk_of E ck) = Some (map_of b)"
    using get_view [OF b] get_found [OF b] by auto
  have "payload_of E (view (srv w)) ck = Some (concat cs)"
    using cs(1) v f m by (simp add: payload_of_def stored_chunks_def)
  with cs f t hw crc_matches_good [OF f] show ?thesis
    by (intro exI [of _ "concat cs"] exI [of _ b] exI [of _ a] exI [of _ ex] exI [of _ h]) simp
qed

text \<open>Conversely, on a healthy server a stored chunk is found.\<close>

lemma get_into_succeeds:
  assumes "read_payload E ck b n a w = (Inr (Some t), w1)" "crc_matches E b (take t (mo_bytes (heap w1 a)))"
  shows "get_into E ck b n a False w = (Inr (''hit'', Some a), w1)"
  using assms by (simp add: get_into_def)

end

locale healthy_env = storage_env E view + healthy_client "e_client E" view live fits
  for E :: "('s, 'k) engine" and view :: "'s \<Rightarrow> dbview" and live :: "'s \<Rightarrow> bool"
    and fits :: "'s \<Rightarrow> recmap option \<Rightarrow> bins \<Rightarrow> bool"
begin

lemma batch_read_all_found:
  assumes "live s" "those (map (\<lambda>k. rec_payload (view s k)) ks) = Some cs"
  obtains recs s' where "cl_batch_read (e_client E) ks [''b''] s = (Inr recs, s')"
    "live s'" "list_all2 seg_ok recs cs"
proof -
  from live_batch_read [OF assms(1)] obtain recs s' where
    r: "cl_batch_read (e_client E) ks [''b''] s = (Inr recs, s')" and l: "live s'"
    and c: "\<forall>i < length ks. (fst (recs ! i) = 0) = (view s (ks ! i) \<noteq> None)" by blast
  have len: "length recs = length ks" "length ks = length cs"
    using batch_read_length [OF r] assms(2) by (auto simp: those_map_iff dest: list_all2_lengthD)
  have "list_all2 seg_ok recs cs"
  proof (rule list_all2_all_nthI)
    show "length recs = length cs" using len by simp
    fix i assume i: "i < length recs"
    with assms(2) len have p: "rec_payload (view s (ks ! i)) = Some (cs ! i)"
      by (auto simp: those_map_iff list_all2_conv_all_nth)
    then have z: "fst (recs ! i) = 0" using c i len by (auto simp: rec_payload_def split: option.splits)
    from batch_read_found [OF r _ z] i len p z rec_payload_restrict
    show "seg_ok (recs ! i) (cs ! i)" by (fastforce simp: seg_ok_def rec_payload_Some)
  qed
  with that r l show thesis by blast
qed

lemma read_payload_succeeds:
  assumes "live (srv w)" "chunks_from E (view (srv w)) ck (map_of b) n = Some cs"
    and "length (concat cs) \<le> length (mo_bytes (heap w a))" "mo_tensor (heap w a) \<Longrightarrow> [] \<notin> set cs"
  obtains w' where "read_payload E ck b n a w = (Inr (Some (length (concat cs))), w')" "live (srv w')"
proof (cases "n = 1")
  case True
  with assms(2) obtain bs where bs: "map_of b ''b'' = Some (BBytes bs)" "cs = [bs]"
    by (auto simp: chunks_from_def rec_payload_Some)
  with assms(3,4) have "write_payload_into (e_lm E) (heap w a) (BBytes bs) 0 =
      Inr (length bs, (heap w a)\<lparr>mo_bytes := patch 0 bs (mo_bytes (heap w a))\<rparr>)"
    by (intro write_payload_succeeds) auto
  with True bs assms(1) that show thesis by (simp add: read_payload_def)
next
  case False
  with assms(2) have "those (map (\<lambda>k. rec_payload (view (srv w) k)) (sks_of E ck n)) = Some cs"
    by (simp add: chunks_from_def)
  then obtain recs s where r: "cl_batch_read (e_client E) (sks_of E ck n) [''b''] (srv w) = (Inr recs, s)"
    "live s" "list_all2 seg_ok recs cs" by (rule batch_read_all_found [OF assms(1)])
  from read_segments_succeeds [OF r(3), of 0 "heap w" a 0] assms(3,4)
  obtain h where "read_segments (e_lm E) a recs 0 0 (heap w) = (Inr (Some (length (concat cs))), h)"
    by (cases "read_segments (e_lm E) a recs 0 0 (heap w)") auto
  with False r that show thesis by (simp add: read_payload_def)
qed

text \<open>The target is the caller's buffer or one that the allocator gives for the meta bins.\<close>

lemma get_succeeds_into:
  assumes "live (srv w)" "stored_chunks E (view (srv w)) ck = Some cs"
    "crc_good E (view (srv w)) ck (concat cs)"
    "\<And>b. view (srv w) (mk_of E ck) = Some (map_of b) \<Longrightarrow> get_target E pre b (heap w) = (Inr (Some a, False), h)"
    "length (concat cs) \<le> length (mo_bytes (h a))" "mo_tensor (h a) \<Longrightarrow> [] \<notin> set cs"
  shows "\<exists>w'. get E ck pre w = (Inr (Some a), w') \<and> heap w' = loaded a (concat cs) h \<and> live (srv w')"
proof -
  from assms(2) obtain m n where m: "view (srv w) (mk_of E ck) = Some m" "meta_nseg m = Some n"
    "chunks_from E (view (srv w)) ck m n = Some cs"
    by (auto simp: stored_chunks_def split: option.splits)
  from live_get [OF assms(1) m(1)] obtain b s where b: "cl_get (e_client E) (mk_of E ck) (srv w) = (Inr b, s)"
    "live s" by blast
  have v: "view s = view (srv w)" and mb: "m = map_of b" using get_view [OF b(1)] get_found [OF b(1)] m(1) by auto
  let ?w = "w\<lparr>srv := s, heap := h\<rparr>"
  from m(3) v mb have "chunks_from E (view (srv ?w)) ck (map_of b) n = Some cs" by simp
  then obtain w1 where r: "read_payload E ck b n a ?w = (Inr (Some (length (concat cs))), w1)" "live (srv w1)"
    using read_payload_succeeds [of ?w ck b n cs a] assms(5,6) b(2) by auto
  from read_payload_done [OF r(1)] have h: "heap w1 = loaded a (concat cs) h"
    using m(3) v mb by auto
  have "crc_matches E b (concat cs)" using assms(3) crc_matches_good [of "srv w" ck b] m(1) mb by simp
  with h assms(5) have i: "get_into E ck b n a False ?w = (Inr (''hit'', Some a), w1)"
    by (intro get_into_succeeds [OF r(1)]) simp
  have st: "map_of b ''state'' = Some (BStr ''ready'')" "int_bin b ''nseg'' = Inr n"
    using m(2) mb by (auto simp: meta_nseg_def int_bin_def split: if_splits option.splits sum.splits)
  have "get_body E ck pre w = (''hit'', Inr (Some a), w1)"
    using b(1) st i assms(4) m(1) mb by (simp add: get_body_def)
  then have "fst (get E ck pre w) = Inr (Some a)" "srv (snd (get E ck pre w)) = srv w1"
    "heap (snd (get E ck pre w)) = heap w1" by (simp_all add: get_def)
  with h r(2) show ?thesis by (metis prod.collapse)
qed

lemma get_succeeds:
  assumes "live (srv w)" "stored_chunks E (view (srv w)) ck = Some cs"
    "crc_good E (view (srv w)) ck (concat cs)"
    "length (concat cs) \<le> length (mo_bytes (heap w a))" "mo_tensor (heap w a) \<Longrightarrow> [] \<notin> set cs"
  shows "\<exists>w'. get E ck (Some a) w = (Inr (Some a), w') \<and> heap w' = loaded a (concat cs) (heap w) \<and> live (srv w')"
  by (rule get_succeeds_into [OF assms(1-3), where h = "heap w"]) (use assms(4,5) in \<open>simp_all add: get_target_def\<close>)

end

end
