(* ===== verification/Engine_Write.thy ===== *)
theory Engine_Write
  imports Engine_Read
begin

text \<open>
  The writing operations \<open>put\<close> and \<open>remove\<close> against the abstract content: what a put stores,
  that the meta record is the commit point, and that no operation touches another key.
\<close>

section \<open>The records a key owns\<close>

definition owned :: "('s, 'k) engine \<Rightarrow> 'k \<Rightarrow> akey set" where
  "owned E ck = insert (mk_of E ck) (sk_of E ck ` {0..})"

abbreviation same_name :: "('s, 'k) engine \<Rightarrow> 'k \<Rightarrow> 'k \<Rightarrow> bool" where
  "same_name E ck ck' \<equiv> e_to_string E ck = e_to_string E ck'"

lemma owned_disjoint: "\<not> same_name E ck ck' \<Longrightarrow> owned E ck \<inter> owned E ck' = {}"
  using rk.footprint_disjoint [of "e_to_string E" ck ck']
  by (simp add: owned_def rk.footprint_def mk_of_def sk_of_def)

lemma mk_owned [simp]: "mk_of E ck \<in> owned E ck"
  by (simp add: owned_def)

lemma sk_owned [simp]: "0 \<le> i \<Longrightarrow> sk_of E ck i \<in> owned E ck"
  by (simp add: owned_def)

lemma sks_of_eq: "sks_of E ck n = map (sk_of E ck) (py_range n)"
  by (simp add: sks_of_def sk_of_def segment_keys_def)

lemma sks_owned: "k \<in> set (sks_of E ck n) \<Longrightarrow> k \<in> owned E ck"
  by (auto simp: sks_of_eq owned_def)

lemma mk_not_sk: "0 \<le> i \<Longrightarrow> mk_of E ck \<noteq> sk_of E ck' i"
  using rk.meta_not_seg [of i] by (simp add: mk_of_def sk_of_def)

lemma sk_not_mk: "0 \<le> i \<Longrightarrow> sk_of E ck' i \<noteq> mk_of E ck"
  using mk_not_sk by metis

lemma sk_eq_iff: "0 \<le> i \<Longrightarrow> 0 \<le> j \<Longrightarrow> sk_of E ck i = sk_of E ck j \<longleftrightarrow> i = j"
  by (simp add: sk_of_def rk.seg_eq)

lemma distinct_sks: "distinct (sks_of E ck n)"
  using rk.distinct_segs [of "e_to_string E"] by (simp add: sks_of_eq sk_of_def)

lemma same_name_keys: "same_name E ck ck' \<Longrightarrow> mk_of E ck = mk_of E ck' \<and> sks_of E ck = sks_of E ck'"
  by (auto simp: mk_of_def meta_key_def sks_of_def segment_keys_def segment_key_def fun_eq_iff)

lemma same_name_content:
  "same_name E ck ck' \<Longrightarrow> stored_chunks E v ck = stored_chunks E v ck' \<and> crc_good E v ck p = crc_good E v ck' p"
  using same_name_keys [of E ck ck']
  by (simp add: stored_chunks_def chunks_from_def [abs_def] crc_good_def split: option.splits)

text \<open>The content of a key depends on its own records only.\<close>

lemma content_cong:
  assumes "\<And>k. k \<in> owned E ck \<Longrightarrow> v k = v' k"
  shows "stored_chunks E v ck = stored_chunks E v' ck" and "crc_good E v ck p = crc_good E v' ck p"
proof -
  have m: "v (mk_of E ck) = v' (mk_of E ck)" by (rule assms) simp
  have "map (\<lambda>k. rec_payload (v k)) (sks_of E ck n) = map (\<lambda>k. rec_payload (v' k)) (sks_of E ck n)" for n
    using assms by (auto dest: sks_owned)
  then have "chunks_from E v ck = chunks_from E v' ck" by (simp only: chunks_from_def [abs_def])
  with m show "stored_chunks E v ck = stored_chunks E v' ck"
    by (simp add: stored_chunks_def split: option.splits)
  from m show "crc_good E v ck p = crc_good E v' ck p" by (simp add: crc_good_def)
qed

text \<open>A change confined to the records of \<open>ck\<close> is invisible to all keys with another name.\<close>

lemma content_frame:
  assumes "\<And>k. k \<notin> owned E ck \<Longrightarrow> v' k = v k" "\<not> same_name E ck' ck"
  shows "stored_chunks E v' ck' = stored_chunks E v ck'" and "payload_of E v' ck' = payload_of E v ck'"
proof -
  have "v' k = v k" if "k \<in> owned E ck'" for k
    using owned_disjoint [OF assms(2)] that assms(1) by blast
  then show "stored_chunks E v' ck' = stored_chunks E v ck'" by (rule content_cong)
  then show "payload_of E v' ck' = payload_of E v ck'" by (simp add: payload_of_def)
qed

section \<open>Plans and chunks\<close>

definition put_chunks_of :: "bytes \<Rightarrow> ShardPlan \<Rightarrow> bytes list" where
  "put_chunks_of payload p =
     (if nseg p = 1 then [payload] else map (segment_chunk payload p) (py_range (nseg p)))"

definition plan_fits :: "bytes \<Rightarrow> ShardPlan \<Rightarrow> bool" where
  "plan_fits payload p \<longleftrightarrow> payload = [] \<and> nseg p = 1 \<or> (\<exists>m. covers (int (length payload)) m p)"

lemma plan_for_fits:
  assumes "0 < rl_target_segment_bytes r" "plan_for r (int (length payload)) = Inr p"
  shows "plan_fits payload p"
proof (cases "payload = []")
  case False
  then have "covers (int (length payload)) (rl_max_segment_bytes r) p"
    using assms plan_pos [of "int (length payload)" "rl_target_segment_bytes r" "rl_max_segment_bytes r"]
    by (auto simp: plan_for_def covers_single covers_balanced split: if_splits)
  then show ?thesis by (auto simp: plan_fits_def)
qed (use assms in \<open>auto simp: plan_for_def plan_fits_def\<close>)

lemma segment_chunks_eq:
  assumes "0 \<le> seg_b p"
  shows "map (segment_chunk payload p) (py_range (nseg p)) =
    map (\<lambda>i. slice payload (i * nat (seg_b p)) (i * nat (seg_b p) + nat (seg_b p))) [0..<nat (nseg p)]"
  using assms by (auto simp: py_range_def segment_chunk_def nat_mult_distrib nat_add_distrib)

lemma concat_put_chunks: "plan_fits payload p \<Longrightarrow> concat (put_chunks_of payload p) = payload"
proof -
  assume f: "plan_fits payload p"
  show ?thesis
  proof (cases "nseg p = 1")
    case False
    with f obtain m where c: "covers (int (length payload)) m p" by (auto simp: plan_fits_def)
    then have "0 \<le> seg_b p" by (simp add: covers_def)
    then show ?thesis
      using False concat_blocks_cover [OF covers_enough [OF c]]
      by (simp add: put_chunks_of_def segment_chunks_eq)
  qed (simp add: put_chunks_of_def)
qed

lemma segment_chunk_bounds:
  assumes "covers (int (length payload)) m p" "0 \<le> i" "i < nseg p"
  shows "segment_chunk payload p i \<noteq> []" and "int (length (segment_chunk payload p i)) \<le> m"
proof -
  have s: "0 < seg_b p" "seg_b p \<le> m" and l: "(nseg p - 1) * seg_b p < int (length payload)"
    using assms(1) by (auto simp: covers_def)
  have "i * seg_b p \<le> (nseg p - 1) * seg_b p" using assms(3) s by (simp add: mult_right_mono)
  with l have i: "i * seg_b p < int (length payload)" by linarith
  have p0: "0 \<le> i * seg_b p" using assms(2) s by simp
  have len: "length (segment_chunk payload p i) = min (nat (i * seg_b p + seg_b p)) (length payload) - nat (i * seg_b p)"
    by (simp add: segment_chunk_def)
  have "nat (i * seg_b p) < min (nat (i * seg_b p + seg_b p)) (length payload)"
    using i p0 s(1) by (simp add: nat_less_iff)
  then have "0 < length (segment_chunk payload p i)" unfolding len by linarith
  then show "segment_chunk payload p i \<noteq> []" by simp
  show "int (length (segment_chunk payload p i)) \<le> m" unfolding len using s p0 by (simp add: nat_add_distrib)
qed

lemma put_chunks_nonempty:
  assumes "plan_fits payload p" "payload \<noteq> []"
  shows "[] \<notin> set (put_chunks_of payload p)"
proof (cases "nseg p = 1")
  case False
  with assms obtain m where c: "covers (int (length payload)) m p" by (auto simp: plan_fits_def)
  show ?thesis
  proof
    assume "[] \<in> set (put_chunks_of payload p)"
    then obtain i where "0 \<le> i" "i < nseg p" "segment_chunk payload p i = []"
      using False by (auto simp: put_chunks_of_def)
    with segment_chunk_bounds(1) [OF c] show False by blast
  qed
qed (use assms in \<open>simp add: put_chunks_of_def\<close>)

section \<open>put\<close>

text \<open>The records after a complete put.\<close>

definition put_stored ::
  "('s, 'k) engine \<Rightarrow> 'k \<Rightarrow> bytes \<Rightarrow> ShardPlan \<Rightarrow> bins \<Rightarrow> dbview \<Rightarrow> dbview \<Rightarrow> bool" where
  "put_stored E ck payload p mbins v v' \<longleftrightarrow>
     v' (mk_of E ck) = write_rec mbins (v (mk_of E ck)) \<and>
     (nseg p \<noteq> 1 \<longrightarrow> (\<forall>i \<in> {0..<nseg p}. v' (sk_of E ck i) =
        write_rec (segment_bins (cfg_enable_crc32 (e_cfg E)) (segment_chunk payload p i)) (v (sk_of E ck i))))"

lemma rec_payload_segment: "rec_payload (write_rec (segment_bins crc c) r) = Some c"
  by (auto simp: write_rec_def rec_payload_Some segment_bins_def)

lemma distinct_segment_bins: "distinct (map fst (segment_bins crc c))"
  by (simp add: segment_bins_def)

lemma segment_writes_simps:
  "map op_key (segment_writes E ck payload p ttl wp) = sks_of E ck (nseg p)"
  "list_all (\<lambda>x. distinct (map fst (op_bins x))) (segment_writes E ck payload p ttl wp)"
  "length (segment_writes E ck payload p ttl wp) = nat (nseg p)"
  by (simp_all add: segment_writes_def sks_of_eq list_all_iff distinct_segment_bins)

lemma nth_segment_writes:
  "i < nat (nseg p) \<Longrightarrow> segment_writes E ck payload p ttl wp ! i =
     BWrite (sk_of E ck (int i))
       (segment_bins (cfg_enable_crc32 (e_cfg E)) (segment_chunk payload p (int i))) ttl wp"
  by (simp add: segment_writes_def)

lemma op_keys_segment_writes: "op_key ` set (segment_writes E ck payload p ttl wp) = set (sks_of E ck (nseg p))"
  using arg_cong [OF segment_writes_simps(1), of set E ck payload p ttl wp] by simp

lemma put_stored_content:
  assumes "put_stored E ck payload p mbins v v'" "mbins = put_bins E p mo pinned time"
    "mo_bytes mo = payload" "plan_fits payload p"
  shows "stored_chunks E v' ck = Some (put_chunks_of payload p)" and "payload_of E v' ck = Some payload"
    and "crc_good E v' ck payload"
proof -
  obtain m where m: "v' (mk_of E ck) = Some m" "write_rec mbins (v (mk_of E ck)) = Some m"
    using assms(1) by (auto simp: put_stored_def write_rec_def)
  have g: "m k = (case map_of mbins k of Some x \<Rightarrow> Some x | None \<Rightarrow> old_bins (v (mk_of E ck)) k)" for k
    by (rule write_rec_get [OF m(2)])
  have n: "meta_nseg m = Some (nseg p)"
    by (simp add: meta_nseg_def g assms(2) put_bins_def meta_bins_get)
  have "chunks_from E v' ck m (nseg p) = Some (put_chunks_of payload p)"
  proof (cases "nseg p = 1")
    case True
    then show ?thesis
      by (simp add: chunks_from_def put_chunks_of_def rec_payload_def g assms(2,3) put_bins_def meta_bins_get)
  next
    case False
    with assms(1) have "list_all2 (\<lambda>k c. rec_payload (v' k) = Some c) (sks_of E ck (nseg p)) (put_chunks_of payload p)"
      by (auto simp: put_stored_def put_chunks_of_def sks_of_eq list_all2_conv_all_nth rec_payload_segment)
    with False show ?thesis by (simp add: chunks_from_def those_map_iff)
  qed
  with m(1) n show "stored_chunks E v' ck = Some (put_chunks_of payload p)" by (simp add: stored_chunks_def)
  with assms(4) show "payload_of E v' ck = Some payload" by (simp add: payload_of_def concat_put_chunks)
  show "crc_good E v' ck payload"
    by (simp add: crc_good_def m(1) g assms(2,3) put_bins_def meta_bins_get)
qed

lemma first_error_None: "first_error codes = None \<longleftrightarrow> (\<forall>c \<in> set codes. c = 0)"
  by (auto simp: first_error_def find_None_iff AEROSPIKE_OK_def)

context storage_env
begin

text \<open>The segment phase: nothing but the segments of \<open>ck\<close> changes, each of them to its new
  content or not at all, and on success all of them.\<close>

lemma segment_phase:
  assumes "cl_batch_write (e_client E) (segment_writes E ck payload p ttl wp) s = (r, s1)"
  shows "\<And>k. k \<notin> set (sks_of E ck (nseg p)) \<Longrightarrow> view s1 k = view s k"
    and "\<And>i. i \<in> {0..<nseg p} \<Longrightarrow> view s1 (sk_of E ck i) = view s (sk_of E ck i) \<or>
      view s1 (sk_of E ck i) =
        write_rec (segment_bins (cfg_enable_crc32 (e_cfg E)) (segment_chunk payload p i)) (view s (sk_of E ck i))"
    and "\<And>codes i. r = Inr codes \<Longrightarrow> first_error codes = None \<Longrightarrow> i \<in> {0..<nseg p} \<Longrightarrow>
      view s1 (sk_of E ck i) =
        write_rec (segment_bins (cfg_enable_crc32 (e_cfg E)) (segment_chunk payload p i)) (view s (sk_of E ck i))"
proof -
  let ?ops = "segment_writes E ck payload p ttl wp"
  note ok = segment_writes_simps [of E ck payload p ttl wp]
  have d: "distinct (map op_key ?ops)" by (simp add: ok distinct_sks)
  show "view s1 k = view s k" if "k \<notin> set (sks_of E ck (nseg p))" for k
    using batch_write_frame [OF assms] that by (simp add: op_keys_segment_writes)
  fix i assume i: "i \<in> {0..<nseg p}"
  let ?x = "BWrite (sk_of E ck i)
    (segment_bins (cfg_enable_crc32 (e_cfg E)) (segment_chunk payload p i)) ttl wp"
  have nth: "?ops ! nat i = ?x" "nat i < length ?ops" using i by (simp_all add: nth_segment_writes ok)
  then have x: "?x \<in> set ?ops" by (metis nth_mem)
  from batch_write_any [OF assms d ok(2) x] show "view s1 (sk_of E ck i) = view s (sk_of E ck i) \<or>
      view s1 (sk_of E ck i) =
        write_rec (segment_bins (cfg_enable_crc32 (e_cfg E)) (segment_chunk payload p i)) (view s (sk_of E ck i))"
    by simp
  fix codes assume r: "r = Inr codes" "first_error codes = None"
  with assms have cl: "cl_batch_write (e_client E) ?ops s = (Inr codes, s1)" by simp
  have "codes ! nat i = 0"
    using r(2) batch_write_length [OF cl] nth(2) by (auto simp: first_error_None)
  from batch_write_done [OF cl d ok(2) nth(2) this] nth(1)
  show "view s1 (sk_of E ck i) =
        write_rec (segment_bins (cfg_enable_crc32 (e_cfg E)) (segment_chunk payload p i)) (view s (sk_of E ck i))"
    by simp
qed

text \<open>What one segment can look like after a put that failed half-way: as before, or new.\<close>

definition segments_old_or_new :: "'k \<Rightarrow> bytes \<Rightarrow> ShardPlan \<Rightarrow> dbview \<Rightarrow> dbview \<Rightarrow> bool" where
  "segments_old_or_new ck payload p v v' \<longleftrightarrow>
     (\<forall>i \<ge> 0. v' (sk_of E ck i) = v (sk_of E ck i) \<or> i < nseg p \<and> nseg p \<noteq> 1 \<and> v' (sk_of E ck i) =
        write_rec (segment_bins (cfg_enable_crc32 (e_cfg E)) (segment_chunk payload p i)) (v (sk_of E ck i)))"

lemma segment_phase_meta:
  assumes "cl_batch_write (e_client E) (segment_writes E ck payload p ttl wp) s = (r, s1)"
  shows "view s1 (mk_of E ck) = view s (mk_of E ck)" and "k \<notin> owned E ck \<Longrightarrow> view s1 k = view s k"
    and "nseg p \<noteq> 1 \<Longrightarrow> segments_old_or_new ck payload p (view s) (view s1)"
proof -
  have "mk_of E ck \<notin> set (sks_of E ck (nseg p))" by (auto simp: sks_of_eq mk_not_sk)
  then show "view s1 (mk_of E ck) = view s (mk_of E ck)" by (rule segment_phase(1) [OF assms])
  show "k \<notin> owned E ck \<Longrightarrow> view s1 k = view s k"
    using segment_phase(1) [OF assms, of k] sks_owned [of k E ck "nseg p"] by blast
  show "segments_old_or_new ck payload p (view s) (view s1)" if n: "nseg p \<noteq> 1"
    unfolding segments_old_or_new_def
  proof (intro allI impI)
    fix i :: int assume i: "0 \<le> i"
    have "\<not> i < nseg p \<Longrightarrow> sk_of E ck i \<notin> set (sks_of E ck (nseg p))"
      using i by (auto simp: sks_of_eq sk_eq_iff)
    with i n segment_phase(1) [OF assms, of "sk_of E ck i"] segment_phase(2) [OF assms, of i]
    show "view s1 (sk_of E ck i) = view s (sk_of E ck i) \<or> i < nseg p \<and> nseg p \<noteq> 1 \<and> view s1 (sk_of E ck i) =
        write_rec (segment_bins (cfg_enable_crc32 (e_cfg E)) (segment_chunk payload p i)) (view s (sk_of E ck i))"
      by (cases "i < nseg p") auto
  qed
qed

lemma meta_put_stored:
  assumes "v1 (mk_of E ck) = v (mk_of E ck)" "v' = v1(mk_of E ck := write_rec mbins (v1 (mk_of E ck)))"
    and "nseg p \<noteq> 1 \<Longrightarrow> (\<forall>i \<in> {0..<nseg p}. v1 (sk_of E ck i) =
      write_rec (segment_bins (cfg_enable_crc32 (e_cfg E)) (segment_chunk payload p i)) (v (sk_of E ck i)))"
  shows "put_stored E ck payload p mbins v v'"
  using assms by (auto simp: put_stored_def sk_not_mk)

text \<open>The outcomes of the put's I/O: complete, or the meta record is as it was.\<close>

lemma put_io_outcome:
  assumes io: "put_io E ck payload p mbins ttl wp s = (r, s')" and d: "distinct (map fst mbins)"
  shows "(\<forall>k. k \<notin> owned E ck \<longrightarrow> view s' k = view s k) \<and>
    (put_stored E ck payload p mbins (view s) (view s') \<or>
     isl r \<and> view s' (mk_of E ck) = view s (mk_of E ck) \<and> segments_old_or_new ck payload p (view s) (view s'))"
proof (cases "nseg p = 1")
  case True
  with io have c: "cl_put (e_client E) (mk_of E ck) mbins ttl wp s = (r, s')" by (simp add: put_io_def)
  show ?thesis
  proof (cases r)
    case (Inl e)
    with c put_in_doubt [OF _ d] consider "view s' = view s" | "view s' = (view s)(mk_of E ck := write_rec mbins (view s (mk_of E ck)))"
      by blast
    then show ?thesis using Inl True by cases (auto simp: segments_old_or_new_def put_stored_def)
  next
    case (Inr u)
    with c put_done [OF _ d] True show ?thesis by (auto simp: put_stored_def)
  qed
next
  case False
  obtain r1 s1 where b: "cl_batch_write (e_client E) (segment_writes E ck payload p ttl wp) s = (r1, s1)"
    by fastforce
  note ph = segment_phase_meta [OF b]
  have fr: "\<forall>k. k \<notin> owned E ck \<longrightarrow> view s1 k = view s k" using ph(2) by blast
  show ?thesis
  proof (cases "\<exists>codes. r1 = Inr codes \<and> first_error codes = None")
    case False
    with io b \<open>nseg p \<noteq> 1\<close> have "s' = s1" "isl r"
      by (auto simp: put_io_def split: sum.splits option.splits)
    with ph(1,3) fr \<open>nseg p \<noteq> 1\<close> show ?thesis by simp
  next
    case True
    with io b \<open>nseg p \<noteq> 1\<close> have c: "cl_put (e_client E) (mk_of E ck) mbins ttl wp s1 = (r, s')"
      by (auto simp: put_io_def)
    have segs: "\<forall>i \<in> {0..<nseg p}. view s1 (sk_of E ck i) =
      write_rec (segment_bins (cfg_enable_crc32 (e_cfg E)) (segment_chunk payload p i)) (view s (sk_of E ck i))"
      using True segment_phase(3) [OF b] by blast
    have "view s' = (view s1)(mk_of E ck := write_rec mbins (view s1 (mk_of E ck))) \<or> isl r \<and> view s' = view s1"
      using put_done [OF _ d, of "mk_of E ck" ttl wp s1] put_in_doubt [OF _ d, of "mk_of E ck" ttl wp s1] c
      by (cases r) auto
    then show ?thesis
      using meta_put_stored [of "view s1" ck "view s" "view s'" mbins p payload] ph fr segs \<open>nseg p \<noteq> 1\<close> by auto
  qed
qed

lemma put_io_error: "put_io E ck payload p mbins ttl wp s = (Inl e, s') \<Longrightarrow> is_ax e \<or> (\<exists>c. e = Conn c)"
  by (auto simp: put_io_def split: if_splits prod.splits sum.splits option.splits
      dest: put_error batch_write_error)

end

lemma write_except_conn: "is_ax e \<or> (\<exists>c. e = Conn c) \<Longrightarrow> \<exists>c. snd (write_except opn e) = Conn c"
  by (auto simp: write_except_def Let_def)

text \<open>A put that gets past planning, by its I/O.\<close>

lemma putE:
  assumes "put E ck a pinned w = (r, w')"
  obtains (plan_error) e where "plan_for (e_resolved E) (int (length (mo_bytes (heap w a)))) = Inl e" "r = Inl e" "w' = w"
  | (policy_error) e where "write_policy (e_consts E) (e_cfg E) = Inl e" "r = Inl e" "srv w' = srv w" "heap w' = heap w"
  | (io) p wp ri where "plan_for (e_resolved E) (int (length (mo_bytes (heap w a)))) = Inr p"
      "put_io E ck (mo_bytes (heap w a)) p (put_bins E p (heap w a) pinned (now w)) (ttl_value E pinned) wp (srv w)
         = (ri, srv w')"
      "heap w' = heap w" "r = (case ri of Inr _ \<Rightarrow> Inr () | Inl e \<Rightarrow> Inl (snd (write_except ''put'' e)))"
proof (cases "plan_for (e_resolved E) (int (length (mo_bytes (heap w a))))")
  case (Inl e)
  then show thesis using assms by (intro plan_error [of e]) (auto simp: put_def Let_def)
next
  case plan: (Inr p)
  show thesis
  proof (cases "write_policy (e_consts E) (e_cfg E)")
    case (Inl e)
    then show thesis using assms plan by (intro policy_error [of e]) (auto simp: put_def Let_def)
  next
    case (Inr wp)
    let ?w1 = "w\<lparr>mets := observe_segments (nseg p) (int (length (mo_bytes (heap w a)))) (mets w)\<rparr>"
    let ?b = "put_body E ck (mo_bytes (heap w a)) p (put_bins E p (heap w a) pinned (now w)) (ttl_value E pinned) wp"
    from assms plan Inr have "timed ''put'' ?b ?w1 = (r, w')" by (simp add: put_def Let_def)
    then obtain label w2 where b: "?b ?w1 = (label, r, w2)" "srv w' = srv w2" "heap w' = heap w2" by (rule timedE)
    obtain ri s where i: "put_io E ck (mo_bytes (heap w a)) p (put_bins E p (heap w a) pinned (now w))
        (ttl_value E pinned) wp (srv w) = (ri, s)" by fastforce
    with b have "srv w' = s" "heap w' = heap w"
      "r = (case ri of Inr _ \<Rightarrow> Inr () | Inl e \<Rightarrow> Inl (snd (write_except ''put'' e)))"
      by (auto simp: put_body_def case_prod_beta Let_def split: sum.splits)
    with plan i show thesis by (intro io [of p wp ri]) auto
  qed
qed

context storage_env
begin

lemma put_outcome:
  assumes "put E ck a pinned w = (r, w')"
  shows "heap w' = heap w \<and> (\<forall>k. k \<notin> owned E ck \<longrightarrow> view (srv w') k = view (srv w) k) \<and>
    (isl r \<and> view (srv w') = view (srv w) \<or>
     (\<exists>p. plan_for (e_resolved E) (int (length (mo_bytes (heap w a)))) = Inr p \<and>
        (put_stored E ck (mo_bytes (heap w a)) p (put_bins E p (heap w a) pinned (now w)) (view (srv w)) (view (srv w')) \<or>
         isl r \<and> view (srv w') (mk_of E ck) = view (srv w) (mk_of E ck) \<and>
         segments_old_or_new ck (mo_bytes (heap w a)) p (view (srv w)) (view (srv w')))))"
  using assms
proof (cases rule: putE)
  case (io p wp ri)
  have "distinct (map fst (put_bins E p (heap w a) pinned (now w)))"
    by (simp add: put_bins_def distinct_meta_bins)
  from put_io_outcome [OF io(2) this] io(1,3,4) show ?thesis by (cases ri) auto
qed auto

text \<open>A successful put stores the payload under every key of this name and under no other.\<close>

lemma put_refines:
  assumes "put E ck a pinned w = (Inr u, w')" "0 < rl_target_segment_bytes (e_resolved E)"
  shows "payload_of E (view (srv w')) ck' =
    (if same_name E ck' ck then Some (mo_bytes (heap w a)) else payload_of E (view (srv w)) ck')"
    and "\<exists>p. plan_for (e_resolved E) (int (length (mo_bytes (heap w a)))) = Inr p \<and>
      stored_chunks E (view (srv w')) ck = Some (put_chunks_of (mo_bytes (heap w a)) p)"
    and "crc_good E (view (srv w')) ck (mo_bytes (heap w a))"
proof -
  let ?b = "mo_bytes (heap w a)" and ?v = "view (srv w)" and ?v' = "view (srv w')"
  from put_outcome [OF assms(1)] obtain p where p: "plan_for (e_resolved E) (int (length ?b)) = Inr p"
    and st: "put_stored E ck ?b p (put_bins E p (heap w a) pinned (now w)) ?v ?v'"
    and fr: "\<And>k. k \<notin> owned E ck \<Longrightarrow> ?v' k = ?v k" by auto
  note c = put_stored_content [OF st refl refl plan_for_fits [OF assms(2) p]]
  show "payload_of E ?v' ck' = (if same_name E ck' ck then Some ?b else payload_of E ?v ck')"
    using c(2) same_name_content [of E ck' ck ?v'] content_frame(2) [OF fr, where E = E and ck = ck and ck' = ck']
    by (auto simp: payload_of_def)
  show "\<exists>p. plan_for (e_resolved E) (int (length ?b)) = Inr p \<and> stored_chunks E ?v' ck = Some (put_chunks_of ?b p)"
    using p c(1) by blast
  show "crc_good E ?v' ck ?b" by (rule c(3))
qed

text \<open>A failed put changes no other key; its own key keeps its meta record or is fully stored.\<close>

lemma put_failed:
  assumes "put E ck a pinned w = (Inl e, w')" "0 < rl_target_segment_bytes (e_resolved E)"
  shows "\<not> same_name E ck' ck \<Longrightarrow> payload_of E (view (srv w')) ck' = payload_of E (view (srv w)) ck'"
    and "view (srv w') (mk_of E ck) = view (srv w) (mk_of E ck) \<or>
      payload_of E (view (srv w')) ck = Some (mo_bytes (heap w a))"
proof -
  let ?b = "mo_bytes (heap w a)"
  note o = put_outcome [OF assms(1)]
  then show "\<not> same_name E ck' ck \<Longrightarrow> payload_of E (view (srv w')) ck' = payload_of E (view (srv w)) ck'"
    by (intro content_frame(2)) auto
  show "view (srv w') (mk_of E ck) = view (srv w) (mk_of E ck) \<or> payload_of E (view (srv w')) ck = Some ?b"
  proof (cases "view (srv w') (mk_of E ck) = view (srv w) (mk_of E ck)")
    case False
    with o obtain p where p: "plan_for (e_resolved E) (int (length ?b)) = Inr p"
      "put_stored E ck ?b p (put_bins E p (heap w a) pinned (now w)) (view (srv w)) (view (srv w'))" by auto
    from put_stored_content(2) [OF p(2) refl refl plan_for_fits [OF assms(2) p(1)]] show ?thesis by simp
  qed simp
qed

text \<open>Writing the same chunk again is safe even when it fails half-way.\<close>

lemma put_again:
  assumes "put E ck a pinned w = (r, w')" "plan_for (e_resolved E) (int (length (mo_bytes (heap w a)))) = Inr p"
    "plan_fits (mo_bytes (heap w a)) p"
    "stored_chunks E (view (srv w)) ck = Some (put_chunks_of (mo_bytes (heap w a)) p)"
    "view (srv w) (mk_of E ck) = Some m" "meta_nseg m = Some (nseg p)"
  shows "payload_of E (view (srv w')) ck = Some (mo_bytes (heap w a))"
proof -
  let ?b = "mo_bytes (heap w a)" and ?v = "view (srv w)" and ?v' = "view (srv w')"
  from put_outcome [OF assms(1)] assms(2)
  consider "?v' = ?v" | "put_stored E ck ?b p (put_bins E p (heap w a) pinned (now w)) ?v ?v'"
    | "?v' (mk_of E ck) = ?v (mk_of E ck)" "segments_old_or_new ck ?b p ?v ?v'" by auto
  then show ?thesis
  proof cases
    case 1
    with assms(3,4) show ?thesis by (simp add: payload_of_def concat_put_chunks)
  next
    case 2
    from put_stored_content(2) [OF this refl refl assms(3)] show ?thesis .
  next
    case 3
    have "stored_chunks E ?v' ck = Some (put_chunks_of ?b p)"
    proof (cases "nseg p = 1")
      case True
      with 3(1) assms(4-6) show ?thesis by (simp add: stored_chunks_def chunks_from_def)
    next
      case False
      with assms(4-6) have old: "list_all2 (\<lambda>k c. rec_payload (?v k) = Some c) (sks_of E ck (nseg p)) (put_chunks_of ?b p)"
        by (simp add: stored_chunks_def chunks_from_def those_map_iff)
      have "rec_payload (?v' (sk_of E ck (int i))) = Some (put_chunks_of ?b p ! i)" if "i < nat (nseg p)" for i
      proof -
        have "rec_payload (?v (sk_of E ck (int i))) = Some (segment_chunk ?b p (int i))"
          using list_all2_nthD [OF old, of i] that False by (simp add: sks_of_eq put_chunks_of_def)
        moreover have "?v' (sk_of E ck (int i)) = ?v (sk_of E ck (int i)) \<or> ?v' (sk_of E ck (int i)) =
            write_rec (segment_bins (cfg_enable_crc32 (e_cfg E)) (segment_chunk ?b p (int i))) (?v (sk_of E ck (int i)))"
          using 3(2) unfolding segments_old_or_new_def by (elim allE [of _ "int i"]) auto
        ultimately show ?thesis using that False by (auto simp: rec_payload_segment put_chunks_of_def)
      qed
      then have "list_all2 (\<lambda>k c. rec_payload (?v' k) = Some c) (sks_of E ck (nseg p)) (put_chunks_of ?b p)"
        using False by (auto simp: list_all2_conv_all_nth sks_of_eq put_chunks_of_def)
      with 3(1) assms(5,6) False show ?thesis
        by (simp add: stored_chunks_def chunks_from_def those_map_iff)
    qed
    with assms(3) show ?thesis by (simp add: payload_of_def concat_put_chunks)
  qed
qed

text \<open>The only exceptions that leave a put are the connector's own.\<close>

lemma put_errors:
  assumes "put E ck a pinned w = (Inl e, w')" "0 < rl_target_segment_bytes (e_resolved E)"
  shows "\<exists>c. e = Conn c"
  using assms(1)
proof (cases rule: putE)
  case (plan_error e')
  with assms(2) show ?thesis
    using plan_pos [of "int (length (mo_bytes (heap w a)))"] plan_zero
    by (cases "mo_bytes (heap w a) = []") (auto simp: plan_for_def split: if_splits)
next
  case (policy_error e')
  then show ?thesis
    by (auto simp: write_policy_def commit_level_def key_policy_def policy_const_def
        elim!: bindE_InlE split: option.splits)
next
  case (io p wp ri)
  then obtain e' where "ri = Inl e'" "e = snd (write_except ''put'' e')" by (cases ri) auto
  with io(2) put_io_error write_except_conn show ?thesis by metis
qed

end

context healthy_env
begin

text \<open>On a healthy server a put whose records fit succeeds.\<close>

lemma put_io_succeeds:
  assumes "live s" "fits s (view s (mk_of E ck)) mbins"
    "nseg p \<noteq> 1 \<Longrightarrow> (\<forall>i \<in> {0..<nseg p}. fits s (view s (sk_of E ck i))
       (segment_bins (cfg_enable_crc32 (e_cfg E)) (segment_chunk payload p i)))"
  shows "\<exists>s'. put_io E ck payload p mbins ttl wp s = (Inr (), s') \<and> live s'"
proof (cases "nseg p = 1")
  case True
  with live_put [OF assms(1,2)] show ?thesis by (simp add: put_io_def)
next
  case False
  let ?ops = "segment_writes E ck payload p ttl wp"
  have d: "distinct (map op_key ?ops)" by (simp add: segment_writes_simps distinct_sks)
  have "list_all (op_fits (fits s) (view s)) ?ops"
    using assms(3) [OF False] by (auto simp: segment_writes_def list_all_iff)
  from live_batch_write [OF assms(1) d this] obtain codes s1 where
    b: "cl_batch_write (e_client E) ?ops s = (Inr codes, s1)" and l: "live s1"
    and z: "\<forall>i < length ?ops. case ?ops ! i of BWrite _ _ _ _ \<Rightarrow> codes ! i = 0 | BRemove k \<Rightarrow> view s1 k = None" by blast
  have "codes ! i = 0" if "i < length codes" for i
    using z that batch_write_length [OF b]
    by (auto simp: segment_writes_simps nth_segment_writes dest!: spec [of _ i])
  then have z': "first_error codes = None" by (auto simp: first_error_None in_set_conv_nth)
  have "fits s1 (view s1 (mk_of E ck)) mbins"
    using assms(2) fits_batch_write [OF b] segment_phase_meta(1) [OF b] by simp
  from live_put [OF l this] b z' False show ?thesis by (simp add: put_io_def)
qed

lemma put_succeeds:
  assumes "live (srv w)" "plan_for (e_resolved E) (int (length (mo_bytes (heap w a)))) = Inr p"
    "write_policy (e_consts E) (e_cfg E) = Inr wp"
    "fits (srv w) (view (srv w) (mk_of E ck)) (put_bins E p (heap w a) pinned (now w))"
    "nseg p \<noteq> 1 \<Longrightarrow> (\<forall>i \<in> {0..<nseg p}. fits (srv w) (view (srv w) (sk_of E ck i))
       (segment_bins (cfg_enable_crc32 (e_cfg E)) (segment_chunk (mo_bytes (heap w a)) p i)))"
  shows "\<exists>w'. put E ck a pinned w = (Inr (), w') \<and> live (srv w')"
proof -
  from put_io_succeeds [OF assms(1,4,5)] obtain s' where i:
    "put_io E ck (mo_bytes (heap w a)) p (put_bins E p (heap w a) pinned (now w)) (ttl_value E pinned) wp (srv w)
       = (Inr (), s')" "live s'" by blast
  let ?w1 = "w\<lparr>mets := observe_segments (nseg p) (int (length (mo_bytes (heap w a)))) (mets w)\<rparr>"
  let ?b = "put_body E ck (mo_bytes (heap w a)) p (put_bins E p (heap w a) pinned (now w)) (ttl_value E pinned) wp"
  have "?b ?w1 = (''ok'', Inr (), ?w1\<lparr>srv := s'\<rparr>)" using i by (simp add: put_body_def)
  then have "fst (timed ''put'' ?b ?w1) = Inr ()" "srv (snd (timed ''put'' ?b ?w1)) = s'" by simp_all
  moreover have "put E ck a pinned w = timed ''put'' ?b ?w1" using assms(2,3) by (simp add: put_def Let_def)
  ultimately show ?thesis using i(2) by (metis prod.collapse)
qed

end

end
