(* ===== verification/Engine_Ops.thy ===== *)
theory Engine_Ops
  imports Engine_Write
begin

text \<open>
  The remaining single-key and lookup operations of the engine: \<open>remove\<close>, \<open>exists\<close>,
  \<open>batched_contains\<close>, \<open>batched_exists_mask\<close>, and the pins.
\<close>

text \<open>Primary keys are triples; quantifiers over them stay as they are.\<close>

declare split_paired_All [simp del] split_paired_Ex [simp del]

section \<open>Pins do not touch the content\<close>

definition pin_only :: "dbview \<Rightarrow> dbview \<Rightarrow> bool" where
  "pin_only v v' \<longleftrightarrow> (\<forall>k. v' k = v k \<or> (\<exists>x. v' k = write_rec [(''pin'', BBool x)] (v k)))"

lemma pin_only_rec:
  assumes "pin_only v v'"
  shows "rec_payload (v' k) = rec_payload (v k)"
    and "v k = Some m \<Longrightarrow> \<exists>m'. v' k = Some m' \<and> (\<forall>n. n \<noteq> ''pin'' \<longrightarrow> m' n = m n)"
    and "v k = None \<Longrightarrow> v' k = None \<or> (\<exists>x. v' k = Some [''pin'' \<mapsto> BBool x])"
proof -
  have "v' k = v k \<or> (\<exists>x. v' k = write_rec [(''pin'', BBool x)] (v k))" using assms by (simp add: pin_only_def)
  then show "rec_payload (v' k) = rec_payload (v k)"
    and "v k = Some m \<Longrightarrow> \<exists>m'. v' k = Some m' \<and> (\<forall>n. n \<noteq> ''pin'' \<longrightarrow> m' n = m n)"
    and "v k = None \<Longrightarrow> v' k = None \<or> (\<exists>x. v' k = Some [''pin'' \<mapsto> BBool x])"
    by (auto simp: rec_payload_def write_rec_def old_bins_def split: option.splits)
qed

lemma meta_nseg_cong: "\<forall>n. n \<noteq> ''pin'' \<longrightarrow> m' n = m n \<Longrightarrow> meta_nseg m' = meta_nseg m"
  by (simp add: meta_nseg_def)

lemma pin_only_content:
  assumes "pin_only v v'"
  shows "stored_chunks E v' ck = stored_chunks E v ck" and "payload_of E v' ck = payload_of E v ck"
    and "crc_good E v' ck p = crc_good E v ck p"
proof -
  have c: "chunks_from E v' ck m n = chunks_from E v ck m n" for m n
    by (simp add: chunks_from_def pin_only_rec(1) [OF assms])
  have d: "chunks_from E v ck m' n = chunks_from E v ck m n" if "\<forall>n. n \<noteq> ''pin'' \<longrightarrow> m' n = m n" for m m' n
    using that by (simp add: chunks_from_def rec_payload_def)
  show s: "stored_chunks E v' ck = stored_chunks E v ck"
  proof (cases "v (mk_of E ck)")
    case None
    with pin_only_rec(3) [OF assms None] show ?thesis
      by (auto simp: stored_chunks_def meta_nseg_def)
  next
    case (Some m)
    with pin_only_rec(2) [OF assms Some] obtain m' where
      m': "v' (mk_of E ck) = Some m'" "\<forall>n. n \<noteq> ''pin'' \<longrightarrow> m' n = m n" by blast
    with Some show ?thesis
      by (simp add: stored_chunks_def c d [OF m'(2)] meta_nseg_cong [OF m'(2)] split: option.splits)
  qed
  then show "payload_of E v' ck = payload_of E v ck" by (simp add: payload_of_def)
  show "crc_good E v' ck p = crc_good E v ck p"
    using pin_only_rec(2,3) [OF assms, of "mk_of E ck"]
    by (cases "v (mk_of E ck)") (auto simp: crc_good_def)
qed

section \<open>Lemmas in an environment\<close>

lemma distinct_mks:
  "distinct (map (e_to_string E) cks) \<Longrightarrow> distinct (map (mk_of E) cks)"
  using rk.distinct_metas [of "e_to_string E" cks] by (simp add: mk_of_def)

lemma count_ok_eq: "count_ok recs = int (length (takeWhile (\<lambda>rc. fst rc = 0) recs))"
  by (induction recs) (auto simp: AEROSPIKE_OK_def)

lemma takeWhile_length_cong:
  assumes "length xs = length ys" "\<And>i. i < length xs \<Longrightarrow> P (xs ! i) = Q (ys ! i)"
  shows "length (takeWhile P xs) = length (takeWhile Q ys)"
proof -
  have "map P xs = map Q ys" using assms by (intro nth_equalityI) auto
  then have "length (takeWhile id (map P xs)) = length (takeWhile id (map Q ys))" by simp
  then show ?thesis by (simp add: takeWhile_map)
qed

context storage_env
begin

lemma remove_probe_outcome:
  assumes "remove_probe E key s = (r, s1)"
  shows "view s1 = view s" and "r = Inr None \<Longrightarrow> view s (mk_of E key) = None"
    and "r = Inr (Some n) \<Longrightarrow> n = 1 \<or> (\<exists>m x. view s (mk_of E key) = Some m \<and> m ''nseg'' = Some x \<and> bval_int x = Inr n)"
proof -
  obtain q t where q: "cl_select (e_client E) (mk_of E key) [''nseg''] s = (q, t)" by fastforce
  with assms have t: "s1 = t" by (auto simp: remove_probe_def split: sum.splits option.splits if_splits)
  with select_view [OF q] show "view s1 = view s" by simp
  show "view s (mk_of E key) = None" if "r = Inr None"
    using assms q that select_absent [of "mk_of E key" "[''nseg'']" s]
    by (auto simp: remove_probe_def bindE_eq_Inr split: sum.splits option.splits if_splits)
  show "n = 1 \<or> (\<exists>m x. view s (mk_of E key) = Some m \<and> m ''nseg'' = Some x \<and> bval_int x = Inr n)"
    if r: "r = Inr (Some n)"
  proof (cases q)
    case (Inl e)
    with assms q r show ?thesis by (auto simp: remove_probe_def split: if_splits)
  next
    case (Inr b)
    with select_found q obtain m where m: "view s (mk_of E key) = Some m" "map_of b = m |` {''nseg''}" by fastforce
    then have "map_of b ''nseg'' = m ''nseg''" by simp
    with Inr assms q r m(1) show ?thesis
      by (auto simp: remove_probe_def bindE_eq_Inr split: option.splits)
  qed
qed

lemma remove_segments_outcome:
  assumes "remove_segments E key n s = (r, s1)"
  shows "k \<notin> set (sks_of E key n) \<Longrightarrow> view s1 k = view s k"
    and "view s1 k = view s k \<or> view s1 k = None" and "\<exists>u. r = Inr u"
proof -
  let ?ops = "map (\<lambda>i. BRemove (sk_of E key i)) (py_range n)"
  have mo: "map op_key ?ops = sks_of E key n" by (simp add: sks_of_eq comp_def)
  have ko: "op_key ` set ?ops = set (sks_of E key n)" by (simp add: image_image sks_of_eq)
  have d: "distinct (map op_key ?ops)" by (simp only: mo distinct_sks)
  have l: "list_all (\<lambda>x. distinct (map fst (op_bins x))) ?ops" by (simp add: list_all_iff)
  consider "n \<le> 1" "s1 = s" "r = Inr ()" | q where "cl_batch_write (e_client E) ?ops s = (q, s1)" "r = Inr ()"
    using assms batch_write_error [of ?ops s]
    by (auto simp: remove_segments_def split: if_splits prod.splits sum.splits)
  note c = this
  have fr: "view s1 k = view s k" if "k \<notin> set (sks_of E key n)"
    using c by cases (use that batch_write_frame ko in auto)
  then show "k \<notin> set (sks_of E key n) \<Longrightarrow> view s1 k = view s k" .
  from c show "view s1 k = view s k \<or> view s1 k = None"
  proof cases
    case 2
    show ?thesis
    proof (cases "k \<in> set (sks_of E key n)")
      case True
      then have "BRemove k \<in> set ?ops" by (auto simp: sks_of_eq)
      with batch_write_any [OF 2(1) d l, of "BRemove k"] show ?thesis by simp
    qed (simp add: fr)
  qed simp
  show "\<exists>u. r = Inr u" using c by cases auto
qed

lemma remove_done_outcome:
  assumes "remove E key w = (Inr True, w')"
  shows "view (srv w') (mk_of E key) = None" and "k \<notin> owned E key \<Longrightarrow> view (srv w') k = view (srv w) k"
    and "heap w' = heap w"
proof -
  from assms obtain n s1 s2 where p: "remove_probe E key (srv w) = (Inr (Some n), s1)"
    and d: "cl_remove (e_client E) (mk_of E key) s1 = (Inr (), s2)"
    and g: "remove_segments E key n s2 = (Inr (), srv w')" and h: "heap w' = heap w"
    by (auto simp: remove_def remove_srv_def bindE_eq_Inr split: prod.splits sum.splits option.splits if_splits)
  show "heap w' = heap w" by (rule h)
  have v2: "view s2 = (view (srv w))(mk_of E key := None)"
    using remove_done [OF d] remove_probe_outcome(1) [OF p] by simp
  have "mk_of E key \<notin> set (sks_of E key n)" by (auto simp: sks_of_eq mk_not_sk)
  with remove_segments_outcome(1) [OF g] v2 show "view (srv w') (mk_of E key) = None" by simp
  show "view (srv w') k = view (srv w) k" if "k \<notin> owned E key"
    using that remove_segments_outcome(1) [OF g, of k] v2 sks_owned [of k E key n] by (auto simp: owned_def)
qed

lemma remove_false_outcome:
  assumes "remove E key w = (Inr False, w')"
  shows "view (srv w) (mk_of E key) = None" and "view (srv w') = view (srv w)"
proof -
  from assms consider s1 where "remove_probe E key (srv w) = (Inr None, s1)" "srv w' = s1"
    | n s1 e s2 where "remove_probe E key (srv w) = (Inr (Some n), s1)"
      "cl_remove (e_client E) (mk_of E key) s1 = (Inl e, s2)" "isinstance e RecordNotFound" "srv w' = s2"
    by (auto simp: remove_def remove_srv_def bindE_eq_Inr split: prod.splits sum.splits option.splits if_splits)
  then have "view (srv w) (mk_of E key) = None \<and> view (srv w') = view (srv w)"
  proof cases
    case 1
    with remove_probe_outcome [OF 1(1)] show ?thesis by simp
  next
    case 2
    from remove_absent [OF 2(2,3)] remove_in_doubt [OF 2(2)] remove_probe_outcome(1) [OF 2(1)] 2(4)
    show ?thesis by (auto simp: fun_upd_idem)
  qed
  then show "view (srv w) (mk_of E key) = None" and "view (srv w') = view (srv w)" by auto
qed

lemma exists_sound:
  assumes "exists E ck w = (Inr r, w')"
  shows "r \<Longrightarrow> view (srv w) (mk_of E ck) \<noteq> None" and "view (srv w') = view (srv w)"
proof -
  from assms obtain label w1 where b: "exists_body E ck w = (label, Inr r, w1)" "srv w' = srv w1"
    unfolding exists_def by (rule timedE)
  obtain q s where q: "cl_select (e_client E) (mk_of E ck) [''state''] (srv w) = (q, s)" by fastforce
  from b q have "srv w1 = s" by (auto simp: exists_body_def Let_def split: sum.splits if_splits)
  with b(2) select_view [OF q] show "view (srv w') = view (srv w)" by simp
  show "view (srv w) (mk_of E ck) \<noteq> None" if r
  proof -
    from b q that obtain bb where "q = Inr bb"
      by (auto simp: exists_body_def Let_def split: sum.splits if_splits)
    with select_found q show ?thesis by fastforce
  qed
qed

lemma pin_keys_outcome:
  assumes "pin_keys E cks w = (r, w')" "distinct (map (e_to_string E) cks)"
  shows "pin_only (view (srv w)) (view (srv w'))" and "heap w' = heap w"
proof -
  let ?ops = "\<lambda>wp. map (\<lambda>ck. BWrite (mk_of E ck) [(''pin'', BBool True)] (e_pin_ttl E) wp) cks"
  from assms(1) consider "srv w' = srv w" "heap w' = heap w"
    | wp q where "cl_batch_write (e_client E) (?ops wp) (srv w) = (q, srv w')" "heap w' = heap w"
    by (auto simp: pin_keys_def pin_keys_batch_def Let_def split: if_splits sum.splits prod.splits)
  note c = this
  then show "heap w' = heap w" by cases
  from c show "pin_only (view (srv w)) (view (srv w'))"
  proof cases
    case 2
    have mo: "map op_key (?ops wp) = map (mk_of E) cks" by (simp add: comp_def)
    have ko: "op_key ` set (?ops wp) = mk_of E ` set cks" by (simp add: image_image)
    have d: "distinct (map op_key (?ops wp))" using distinct_mks [OF assms(2)] by (simp only: mo)
    have l: "list_all (\<lambda>x. distinct (map fst (op_bins x))) (?ops wp)" by (simp add: list_all_iff)
    show ?thesis unfolding pin_only_def
    proof
      fix k
      show "view (srv w') k = view (srv w) k \<or> (\<exists>x. view (srv w') k = write_rec [(''pin'', BBool x)] (view (srv w) k))"
      proof (cases "k \<in> mk_of E ` set cks")
        case True
        then have "BWrite k [(''pin'', BBool True)] (e_pin_ttl E) wp \<in> set (?ops wp)" by auto
        from batch_write_any [OF 2(1) d l this] show ?thesis by auto
      next
        case False
        with batch_write_frame [OF 2(1)] ko show ?thesis by simp
      qed
    qed
  qed (simp add: pin_only_def)
qed

lemma unpin_outcome:
  assumes "unpin E ck w = (r, w')"
  shows "pin_only (view (srv w)) (view (srv w'))"
    and "r = Inr True \<Longrightarrow> view (srv w) (mk_of E ck) \<noteq> None"
proof -
  let ?k = "mk_of E ck" and ?b = "[(''pin'', BBool False)]" and ?ttl = "cfg_default_ttl_seconds (e_cfg E)"
  from assms consider "srv w' = srv w" "r \<noteq> Inr True"
    | wp e where "cl_touch (e_client E) ?k ?ttl wp (srv w) = (Inl e, srv w')" "r \<noteq> Inr True"
    | wp s q where "cl_touch (e_client E) ?k ?ttl wp (srv w) = (Inr (), s)"
        "cl_operate (e_client E) ?k ?b ?ttl wp s = (q, srv w')"
    by (auto simp: unpin_def Let_def split: sum.splits prod.splits if_splits)
  note c = this
  have "pin_only (view (srv w)) (view (srv w')) \<and> (r = Inr True \<longrightarrow> view (srv w) ?k \<noteq> None)"
    using c
  proof cases
    case 3
    have v: "view s = view (srv w)" by (rule touch_view [OF 3(1)])
    have "view (srv w') = view s \<or> view (srv w') = (view s)(?k := write_rec ?b (view s ?k))"
      using 3(2) operate_done [of ?k ?b ?ttl wp s] operate_in_doubt [of ?k ?b ?ttl wp s] by (cases q) auto
    then have "pin_only (view s) (view (srv w'))" unfolding pin_only_def by (metis fun_upd_apply)
    with v touch_done [OF 3(1)] show ?thesis by simp
  qed (auto simp: pin_only_def dest: touch_view)
  then show "pin_only (view (srv w)) (view (srv w'))" and "r = Inr True \<Longrightarrow> view (srv w) ?k \<noteq> None" by auto
qed

lemma contains_sound:
  assumes "batched_contains E cks w = (Inr c, w')"
  shows "0 \<le> c \<and> nat c \<le> length cks" and "\<forall>i < nat c. view (srv w) (mk_of E (cks ! i)) \<noteq> None"
    and "view (srv w') = view (srv w)"
proof -
  from assms obtain label w1 where b: "(if cks = [] then (''ok'', Inr 0, w) else
      (let (r, s) = cl_batch_read (e_client E) (map (mk_of E) cks) [] (srv w); w1 = w\<lparr>srv := s\<rparr> in
        case r of Inl e \<Rightarrow> if is_ax e then (''error'', Inr 0, w1) else (''ok'', Inl e, w1)
        | Inr recs \<Rightarrow> (''ok'', Inr (count_ok recs), w1))) = (label, Inr c, w1)" "srv w' = srv w1"
    unfolding batched_contains_def by (rule timedE)
  obtain q s where q: "cl_batch_read (e_client E) (map (mk_of E) cks) [] (srv w) = (q, s)" by fastforce
  show "view (srv w') = view (srv w)"
    using b q batch_read_view [OF q] by (auto simp: Let_def split: if_splits sum.splits)
  consider "c = 0" | recs where "q = Inr recs" "c = count_ok recs"
    using b(1) q by (auto simp: Let_def split: if_splits sum.splits)
  then have "0 \<le> c \<and> nat c \<le> length cks \<and> (\<forall>i < nat c. view (srv w) (mk_of E (cks ! i)) \<noteq> None)"
  proof cases
    case 2
    with q have q': "cl_batch_read (e_client E) (map (mk_of E) cks) [] (srv w) = (Inr recs, s)" by simp
    have len: "length recs = length cks" using batch_read_length [OF q'] by simp
    have c: "nat c = length (takeWhile (\<lambda>rc. fst rc = 0) recs)" "0 \<le> c" using 2 by (simp_all add: count_ok_eq)
    have "view (srv w) (mk_of E (cks ! i)) \<noteq> None" if "i < nat c" for i
    proof -
      have "recs ! i \<in> set (takeWhile (\<lambda>rc. fst rc = 0) recs)"
        using nth_mem [of i "takeWhile (\<lambda>rc. fst rc = 0) recs"] that c(1) by (simp add: takeWhile_nth)
      then have "fst (recs ! i) = 0" by (auto dest: set_takeWhileD)
      moreover have "i < length cks" using that c(1) len length_takeWhile_le [of "\<lambda>rc. fst rc = 0" recs] by linarith
      ultimately show ?thesis using batch_read_found [OF q', of i] by auto
    qed
    moreover have "nat c \<le> length cks"
      using c(1) len length_takeWhile_le [of "\<lambda>rc. fst rc = 0" recs] by simp
    ultimately show ?thesis using c(2) by blast
  qed simp
  then show "0 \<le> c \<and> nat c \<le> length cks" and "\<forall>i < nat c. view (srv w) (mk_of E (cks ! i)) \<noteq> None" by auto
qed

end

context healthy_env
begin

lemma exists_live:
  assumes "live (srv w)"
  shows "\<exists>w'. exists E ck w = (Inr (view (srv w) (mk_of E ck) \<noteq> None), w') \<and> live (srv w')"
proof -
  have "fst (snd (exists_body E ck w)) = Inr (view (srv w) (mk_of E ck) \<noteq> None) \<and> live (srv (snd (snd (exists_body E ck w))))"
  proof (cases "view (srv w) (mk_of E ck)")
    case None
    from live_select_absent [OF assms None, of "[''state'']"] show ?thesis by (auto simp: exists_body_def None)
  next
    case (Some m)
    from live_select [OF assms Some, of "[''state'']"] show ?thesis by (auto simp: exists_body_def Some)
  qed
  then show ?thesis unfolding exists_def by (metis prod.collapse timed_simps(1,2))
qed

lemma batch_probe_live:
  assumes "live (srv w)"
  obtains recs s where "cl_batch_read (e_client E) (map (mk_of E) cks) [] (srv w) = (Inr recs, s)"
    "length recs = length cks" "\<And>i. i < length cks \<Longrightarrow> (fst (recs ! i) = 0) = (view (srv w) (mk_of E (cks ! i)) \<noteq> None)"
proof -
  from live_batch_read [OF assms, of "map (mk_of E) cks" "[]"] obtain recs s where
    r: "cl_batch_read (e_client E) (map (mk_of E) cks) [] (srv w) = (Inr recs, s)"
    and c: "\<forall>i < length (map (mk_of E) cks). (fst (recs ! i) = 0) = (view (srv w) (map (mk_of E) cks ! i) \<noteq> None)" by blast
  with that [OF r] batch_read_length [OF r] show thesis by simp
qed

lemma contains_live:
  assumes "live (srv w)"
  shows "fst (batched_contains E cks w) =
    Inr (int (length (takeWhile (\<lambda>ck. view (srv w) (mk_of E ck) \<noteq> None) cks)))"
proof (cases "cks = []")
  case False
  obtain recs s where r: "cl_batch_read (e_client E) (map (mk_of E) cks) [] (srv w) = (Inr recs, s)"
    "length recs = length cks" "\<And>i. i < length cks \<Longrightarrow> (fst (recs ! i) = 0) = (view (srv w) (mk_of E (cks ! i)) \<noteq> None)"
    using batch_probe_live [OF assms, of cks] by blast
  have "length (takeWhile (\<lambda>rc. fst rc = 0) recs) = length (takeWhile (\<lambda>ck. view (srv w) (mk_of E ck) \<noteq> None) cks)"
    using r(2,3) by (intro takeWhile_length_cong) auto
  with False r(1) show ?thesis by (simp add: batched_contains_def count_ok_eq)
qed (simp add: batched_contains_def)

lemma mask_live:
  assumes "live (srv w)"
  shows "fst (batched_exists_mask E cks w) = Inr (map (\<lambda>ck. view (srv w) (mk_of E ck) \<noteq> None) cks)"
proof (cases "cks = []")
  case False
  obtain recs s where r: "cl_batch_read (e_client E) (map (mk_of E) cks) [] (srv w) = (Inr recs, s)"
    "length recs = length cks" "\<And>i. i < length cks \<Longrightarrow> (fst (recs ! i) = 0) = (view (srv w) (mk_of E (cks ! i)) \<noteq> None)"
    using batch_probe_live [OF assms, of cks] by blast
  have "map (\<lambda>rc. fst rc = AEROSPIKE_OK) recs = map (\<lambda>ck. view (srv w) (mk_of E ck) \<noteq> None) cks"
    using r(2,3) by (intro nth_equalityI) (auto simp: AEROSPIKE_OK_def)
  with False r(1) show ?thesis by (simp add: batched_exists_mask_def)
qed (simp add: batched_exists_mask_def)

text \<open>On a healthy server a removal leaves no record of the key behind.\<close>

lemma remove_live:
  assumes "live (srv w)" "view (srv w) (mk_of E key) = Some m" "m ''nseg'' = Some x" "bval_int x = Inr n"
    and only: "\<And>i. 0 \<le> i \<Longrightarrow> view (srv w) (sk_of E key i) \<noteq> None \<Longrightarrow> 1 < n \<and> i < n"
  shows "\<exists>w'. remove E key w = (Inr True, w') \<and> (\<forall>k \<in> owned E key. view (srv w') k = None)"
proof -
  from live_select [OF assms(1,2)] obtain b s1 where
    b: "cl_select (e_client E) (mk_of E key) [''nseg''] (srv w) = (Inr b, s1)" "live s1" by blast
  from select_found [OF b(1)] assms(2,3) have "map_of b ''nseg'' = Some x" by auto
  with b(1) assms(4) have p: "remove_probe E key (srv w) = (Inr (Some n), s1)" by (simp add: remove_probe_def)
  have v1: "view s1 = view (srv w)" by (rule select_view [OF b(1)])
  with live_remove [OF b(2), of "mk_of E key" m] assms(2) obtain s2 where
    d: "cl_remove (e_client E) (mk_of E key) s1 = (Inr (), s2)" "live s2" by auto
  have v2: "view s2 = (view (srv w))(mk_of E key := None)" using remove_done [OF d(1)] v1 by simp
  obtain r s3 where g: "remove_segments E key n s2 = (r, s3)" by fastforce
  have w': "remove E key w = (Inr True, w\<lparr>srv := s3\<rparr>)"
    using p d(1) g remove_segments_outcome(3) [OF g] by (auto simp: remove_def remove_srv_def)
  have "view s3 (sk_of E key i) = None" if i: "0 \<le> i" for i
  proof (cases "1 < n \<and> i < n")
    case True
    let ?ops = "map (\<lambda>i. BRemove (sk_of E key i)) (py_range n)"
    have "distinct (map op_key ?ops)" using distinct_sks [of E key n] by (simp add: sks_of_eq comp_def)
    moreover have "list_all (op_fits (fits s2) (view s2)) ?ops" by (simp add: list_all_iff)
    ultimately obtain codes t where t: "cl_batch_write (e_client E) ?ops s2 = (Inr codes, t)"
      and z: "\<forall>i < length ?ops. case ?ops ! i of BWrite _ _ _ _ \<Rightarrow> codes ! i = 0 | BRemove k \<Rightarrow> view t k = None"
      using live_batch_write [OF d(2)] by blast
    from t g True have "s3 = t" by (simp add: remove_segments_def)
    moreover have "?ops ! nat i = BRemove (sk_of E key i)" "nat i < length ?ops" using i True by simp_all
    with z have "view t (sk_of E key i) = None" by fastforce
    ultimately show ?thesis by simp
  next
    case False
    with only [OF i] have "view (srv w) (sk_of E key i) = None" by blast
    with remove_segments_outcome(2) [OF g, of "sk_of E key i"] v2 sk_not_mk [OF i] show ?thesis by auto
  qed
  moreover have "view s3 (mk_of E key) = None"
    using remove_segments_outcome(2) [OF g, of "mk_of E key"] v2 by auto
  ultimately show ?thesis using w' by (auto simp: owned_def)
qed

end

end
