(* ===== verification/Engine_Props.thy ===== *)
theory Engine_Props
  imports Engine_Ops
begin

text \<open>
  The properties of the storage engine's single-key and lookup operations, over any client that
  keeps the contract \<open>storage_env\<close> (safety) or \<open>healthy_env\<close> (progress), and their instances
  on an engine over the reference server with three segments per sample chunk.
\<close>

section \<open>The engine over the reference server\<close>

lemma engine_init_sel [simp]:
  "e_client (engine_init cfg cl md rl rs al pt ts X cs) = cl"
  "e_lm (engine_init cfg cl md rl rs al pt ts X cs) = X"
  "e_cfg (engine_init cfg cl md rl rs al pt ts X cs) = cfg"
  "e_resolved (engine_init cfg cl md rl rs al pt ts X cs) = rl"
  "e_to_string (engine_init cfg cl md rl rs al pt ts X cs) = ts"
  "e_consts (engine_init cfg cl md rl rs al pt ts X cs) = cs"
  "e_meta (engine_init cfg cl md rl rs al pt ts X cs) = md"
  "e_allocate_for_read (engine_init cfg cl md rl rs al pt ts X cs) = al"
  by (simp_all add: engine_init_def)

interpretation ref_env:
  healthy_env "engine_init cfg ref_client md rl rs al pt ts (flat_memory t rm) cs" sv_view sv_up sv_fits
  for cfg md rl rs al pt ts t rm cs
proof -
  have "aerospike_client ref_client sv_view" by (rule sv.aerospike_client_axioms)
  moreover have "healthy_client_axioms ref_client sv_view sv_up sv_fits"
    using svh.healthy_client_axioms by (simp add: healthy_client_def)
  moreover have "lmcache_memory (flat_memory t rm)" by (rule flat.lmcache_memory_axioms)
  ultimately show "healthy_env (engine_init cfg ref_client md rl rs al pt ts (flat_memory t rm) cs) sv_view sv_up sv_fits"
    by (simp add: healthy_env_def storage_env_def healthy_client_def)
qed

definition sample_limits :: ResolvedLimits where
  "sample_limits =
     \<lparr>rl_server_max_record_bytes = 131072, rl_effective_max_segment_bytes = 65536,
      rl_max_segment_bytes = 6, rl_target_segment_bytes = 4, rl_single_record_threshold_bytes = 4,
      rl_min_segment_bytes = 1\<rparr>"

definition sample_engine :: "(server, string) engine" where
  "sample_engine =
     engine_init sample_cfg ref_client
       \<lparr>save_chunk_meta = False, meta_shapes = [], meta_dtypes = [], meta_fmt = []\<rparr> sample_limits
       (\<lambda>a n h. (Inr a, h)) (\<lambda>b h. (Inr (Some 1, False), h)) None id
       (flat_memory [] (build_remote_metadata sample_mo)) sample_consts"

definition sample_bytes :: bytes where
  "sample_bytes = [10, 20, 30, 40, 50, 60, 70, 80, 90, 100]"

definition sample_heap :: heap where
  "sample_heap a = sample_mo\<lparr>mo_bytes := (if a = 0 then sample_bytes else replicate 12 0)\<rparr>"

definition empty_server :: server where
  "empty_server = \<lparr>sv_recs = [], sv_limit = 1000, sv_up = True\<rparr>"

definition sample_world :: "server world" where
  "sample_world =
     \<lparr>srv = empty_server, heap = sample_heap,
      mets = \<lparr>m_prom = True, m_ops = [], m_segments = [], m_in_flight = 0\<rparr>, now = 1700000000\<rparr>"

definition sample_plan :: ShardPlan where
  "sample_plan = \<lparr>nseg = 3, seg_b = 4\<rparr>"

lemma sample_env: "healthy_env sample_engine sv_view sv_up sv_fits"
  unfolding sample_engine_def by (rule ref_env.healthy_env_axioms)

lemma sample_storage_env: "storage_env sample_engine sv_view"
  unfolding sample_engine_def by (rule ref_env.storage_env_axioms)

lemma sample_sel [simp]:
  "e_resolved sample_engine = sample_limits" "e_cfg sample_engine = sample_cfg"
  "e_consts sample_engine = sample_consts" "e_to_string sample_engine = id"
  "rl_target_segment_bytes sample_limits = 4" "cfg_enable_crc32 sample_cfg"
  "srv sample_world = empty_server" "heap sample_world = sample_heap" "now sample_world = 1700000000"
  "sv_up empty_server" "sv_view empty_server k = None" "mo_bytes (sample_heap 0) = sample_bytes"
  "length sample_bytes = 10" "mo_bytes (sample_heap (Suc 0)) = replicate 12 0"
  "sample_bytes \<noteq> []"
  by (simp_all add: sample_engine_def sample_limits_def sample_cfg_def sample_world_def empty_server_def
      sv_view_def sample_heap_def sample_bytes_def)

lemma sample_plan_for: "plan_for sample_limits 10 = Inr sample_plan"
  by code_simp

lemma sample_put_fits:
  "sv_fits empty_server r (put_bins sample_engine sample_plan (sample_heap 0) pinned time)"
  "i \<in> {0..<3} \<Longrightarrow> sv_fits empty_server r (segment_bins True (segment_chunk sample_bytes sample_plan i))"
  by (simp_all add: sv_fits_def rec_bytes_def put_bins_def meta_bins_def sample_plan_def empty_server_def
      segment_bins_def segment_chunk_def sample_engine_def)

lemma empty_payload: "payload_of sample_engine (sv_view empty_server) ck = None"
  by (simp add: payload_of_def stored_chunks_def)

text \<open>The sample put succeeds; the later witnesses start from its result.\<close>

lemma sample_put: "\<exists>w'. put sample_engine ck 0 pinned sample_world = (Inr (), w') \<and> sv_up (srv w')"
proof -
  obtain wp where wp: "write_policy sample_consts sample_cfg = Inr wp" using sample_policy by blast
  show ?thesis
    by (rule healthy_env.put_succeeds [OF sample_env, where p = sample_plan and wp = wp])
       (use wp sample_put_fits in \<open>auto simp: sample_plan_for sample_plan_def\<close>)
qed

section \<open>put and get\<close>

text \<open>
  C1: a chunk that is put can be read back. On a healthy server whose record limits the planned
  records respect, \<open>put\<close> succeeds, and a following \<open>get\<close> into a buffer large enough returns that
  buffer with the stored bytes at its start, through one record or any number of segments, with
  or without checksums, and touches no other memory object.
\<close>

theorem put_get_roundtrip:
  assumes env: "healthy_env E view live fits" and live: "live (srv w)"
    and limits: "0 < rl_target_segment_bytes (e_resolved E)"
    and plan: "plan_for (e_resolved E) (int (length (mo_bytes (heap w a)))) = Inr p"
    and policy: "write_policy (e_consts E) (e_cfg E) = Inr wp"
    and meta_fits: "fits (srv w) (view (srv w) (mk_of E ck)) (put_bins E p (heap w a) pinned (now w))"
    and seg_fits: "nseg p \<noteq> 1 \<Longrightarrow> (\<forall>i \<in> {0..<nseg p}. fits (srv w) (view (srv w) (sk_of E ck i))
       (segment_bins (cfg_enable_crc32 (e_cfg E)) (segment_chunk (mo_bytes (heap w a)) p i)))"
    and room: "length (mo_bytes (heap w a)) \<le> length (mo_bytes (heap w d))"
    and tensor: "mo_tensor (heap w d) \<Longrightarrow> mo_bytes (heap w a) \<noteq> []"
  shows "\<exists>w1 w2. put E ck a pinned w = (Inr (), w1) \<and> get E ck (Some d) w1 = (Inr (Some d), w2) \<and>
    take (length (mo_bytes (heap w a))) (mo_bytes (heap w2 d)) = mo_bytes (heap w a) \<and>
    (\<forall>c. c \<noteq> d \<longrightarrow> heap w2 c = heap w c)"
proof -
  let ?b = "mo_bytes (heap w a)"
  have senv: "storage_env E view" using env by (simp add: healthy_env_def)
  from healthy_env.put_succeeds [OF env live plan policy meta_fits seg_fits]
  obtain w1 where w1: "put E ck a pinned w = (Inr (), w1)" "live (srv w1)" by blast
  have h1: "heap w1 = heap w" using storage_env.put_outcome [OF senv w1(1)] by blast
  note r = storage_env.put_refines(2,3) [OF senv w1(1) limits]
  with plan have cs: "stored_chunks E (view (srv w1)) ck = Some (put_chunks_of ?b p)" by auto
  have f: "plan_fits ?b p" by (rule plan_for_fits [OF limits plan])
  have cc: "concat (put_chunks_of ?b p) = ?b" by (rule concat_put_chunks [OF f])
  have "mo_tensor (heap w1 d) \<Longrightarrow> [] \<notin> set (put_chunks_of ?b p)"
    using put_chunks_nonempty [OF f] tensor h1 by simp
  with healthy_env.get_succeeds [OF env w1(2) cs, of d] cc r(2) room h1 obtain w2 where
    "get E ck (Some d) w1 = (Inr (Some d), w2)" "heap w2 = loaded d ?b (heap w)" by auto
  with w1(1) room show ?thesis by (intro exI [of _ w1] exI [of _ w2]) simp
qed

theorem put_get_roundtrip_witness:
  "\<exists>w1 w2. put sample_engine ''k'' 0 False sample_world = (Inr (), w1) \<and>
     get sample_engine ''k'' (Some 1) w1 = (Inr (Some 1), w2) \<and>
     take 10 (mo_bytes (heap w2 1)) = sample_bytes"
proof -
  obtain wp where wp: "write_policy sample_consts sample_cfg = Inr wp" using sample_policy by blast
  have "\<exists>w1 w2. put sample_engine ''k'' 0 False sample_world = (Inr (), w1) \<and>
     get sample_engine ''k'' (Some 1) w1 = (Inr (Some 1), w2) \<and>
     take (length (mo_bytes (heap sample_world 0))) (mo_bytes (heap w2 1)) = mo_bytes (heap sample_world 0) \<and>
     (\<forall>c. c \<noteq> 1 \<longrightarrow> heap w2 c = heap sample_world c)"
    by (rule put_get_roundtrip [OF sample_env, where p = sample_plan and wp = wp])
       (use wp sample_put_fits in \<open>auto simp: sample_plan_for sample_plan_def\<close>)
  then show ?thesis by auto
qed

text \<open>
  C2: \<open>put\<close> implements an update of an abstract map from keys to byte strings. After a put
  that returns, the content of every key with the same printed name is the payload, the
  content of every other key is what it was, and no memory object has changed; this holds for
  every client that keeps its contract, however calls before and after it fail.
\<close>

theorem put_refines_map:
  assumes "storage_env E view" and "0 < rl_target_segment_bytes (e_resolved E)"
    and "put E ck a pinned w = (Inr u, w')"
  shows "payload_of E (view (srv w')) =
      (\<lambda>ck'. if same_name E ck' ck then Some (mo_bytes (heap w a)) else payload_of E (view (srv w)) ck') \<and>
    heap w' = heap w"
  using storage_env.put_refines(1) [OF assms(1,3,2)] storage_env.put_outcome [OF assms(1,3)] by auto

theorem put_refines_map_witness:
  "\<exists>w'. put sample_engine ''k'' 0 False sample_world = (Inr (), w') \<and>
     payload_of sample_engine (sv_view (srv w')) ''k'' = Some sample_bytes \<and>
     payload_of sample_engine (sv_view (srv w')) ''other'' = None"
proof -
  obtain w' where w': "put sample_engine ''k'' 0 False sample_world = (Inr (), w')" using sample_put by blast
  from put_refines_map [OF sample_storage_env _ w']
  have "payload_of sample_engine (sv_view (srv w')) ck' =
      (if ck' = ''k'' then Some sample_bytes else payload_of sample_engine (sv_view empty_server) ck')" for ck'
    by (simp add: fun_eq_iff)
  with w' empty_payload show ?thesis by simp
qed

text \<open>
  C3: the meta record is the commit point. A put that raises changes no key with another
  name, and its own key either still has the meta record it had (so a chunk that was not
  committed does not become visible) or, when the answer to the last write was lost, holds the
  complete new payload.
\<close>

theorem put_failure_commit_point:
  assumes "storage_env E view" and "0 < rl_target_segment_bytes (e_resolved E)"
    and "put E ck a pinned w = (Inl e, w')"
  shows "(\<forall>ck'. \<not> same_name E ck' ck \<longrightarrow> payload_of E (view (srv w')) ck' = payload_of E (view (srv w)) ck') \<and>
    (view (srv w') (mk_of E ck) = view (srv w) (mk_of E ck) \<or>
     payload_of E (view (srv w')) ck = Some (mo_bytes (heap w a)))"
  using storage_env.put_failed [OF assms(1,3,2)] by blast

definition down_world :: "server world" where
  "down_world = sample_world\<lparr>srv := empty_server\<lparr>sv_up := False\<rparr>\<rparr>"

lemma down_put: "fst (put sample_engine ''k'' 0 False down_world) = Inl (Conn AerospikeConnectorError)"
proof -
  obtain wp where wp: "write_policy sample_consts sample_cfg = Inr wp" using sample_policy by blast
  have c: "e_client sample_engine = ref_client" by (simp add: sample_engine_def)
  have t: "snd (write_except ''put'' ax_timeout) = Conn AerospikeConnectorError" by code_simp
  show ?thesis
    using wp t
    by (simp add: put_def Let_def down_world_def sample_plan_for put_body_def put_io_def c sample_plan_def
        ref_client_def sv_batch_write_def case_prod_beta)
qed

theorem put_failure_commit_point_witness:
  "\<exists>e w'. put sample_engine ''k'' 0 False down_world = (Inl e, w') \<and>
     payload_of sample_engine (sv_view (srv w')) ''other'' = payload_of sample_engine (sv_view (srv down_world)) ''other''"
proof -
  obtain e w' where p: "put sample_engine ''k'' 0 False down_world = (Inl e, w')"
    using down_put by (metis prod.collapse)
  from put_failure_commit_point [OF sample_storage_env _ p] p show ?thesis by auto
qed

text \<open>
  C21: storing a chunk again is safe. If a key already holds a chunk in the layout that the
  planner chooses for it, then after another put of the same bytes the key still holds them,
  whether the put returns or fails half-way through its segments.
\<close>

theorem put_again_keeps:
  assumes "storage_env E view" and "put E ck a pinned w = (r, w')"
    and "plan_for (e_resolved E) (int (length (mo_bytes (heap w a)))) = Inr p"
    and "0 < rl_target_segment_bytes (e_resolved E)"
    and "stored_chunks E (view (srv w)) ck = Some (put_chunks_of (mo_bytes (heap w a)) p)"
    and "view (srv w) (mk_of E ck) = Some m" and "meta_nseg m = Some (nseg p)"
  shows "payload_of E (view (srv w')) ck = Some (mo_bytes (heap w a))"
  using storage_env.put_again [OF assms(1,2,3) plan_for_fits [OF assms(4,3)] assms(5,6,7)] .

text \<open>
  Only the connector's own exceptions leave \<open>put\<close>: every error of the client is translated,
  and planning and policy errors are connector errors already.
\<close>

theorem put_raises_connector_errors:
  assumes "storage_env E view" and "0 < rl_target_segment_bytes (e_resolved E)"
    and "put E ck a pinned w = (Inl e, w')"
  shows "\<exists>c. e = Conn c"
  using storage_env.put_errors [OF assms(1,3,2)] .

theorem put_raises_connector_errors_witness:
  "\<exists>e w' c. put sample_engine ''k'' 0 False down_world = (Inl e, w') \<and> e = Conn c"
proof -
  obtain e w' where p: "put sample_engine ''k'' 0 False down_world = (Inl e, w')"
    using down_put by (metis prod.collapse)
  from put_raises_connector_errors [OF sample_storage_env _ p] p show ?thesis by simp
qed

theorem put_again_keeps_witness:
  "\<exists>w1. put sample_engine ''k'' 0 False sample_world = (Inr (), w1) \<and>
     (let w2 = w1\<lparr>srv := (srv w1)\<lparr>sv_up := False\<rparr>\<rparr>; (r, w3) = put sample_engine ''k'' 0 False w2
      in payload_of sample_engine (sv_view (srv w3)) ''k'' = Some sample_bytes)"
proof -
  obtain w1 where p: "put sample_engine ''k'' 0 False sample_world = (Inr (), w1)" using sample_put by blast
  let ?w2 = "w1\<lparr>srv := (srv w1)\<lparr>sv_up := False\<rparr>\<rparr>"
  have v: "sv_view (srv ?w2) = sv_view (srv w1)" by (simp add: sv_view_def fun_eq_iff)
  have h: "heap ?w2 = sample_heap" using storage_env.put_outcome [OF sample_storage_env p] by simp
  obtain r w3 where p3: "put sample_engine ''k'' 0 False ?w2 = (r, w3)" by fastforce
  from storage_env.put_refines(2) [OF sample_storage_env p]
  have c: "stored_chunks sample_engine (sv_view (srv ?w2)) ''k'' = Some (put_chunks_of sample_bytes sample_plan)"
    using v by (auto simp: sample_plan_for)
  then obtain m n where m: "sv_view (srv ?w2) (mk_of sample_engine ''k'') = Some m" "meta_nseg m = Some n"
    by (auto simp: stored_chunks_def split: option.splits)
  from storage_env.put_outcome [OF sample_storage_env p] sample_plan_for
  have "put_stored sample_engine ''k'' sample_bytes sample_plan
      (put_bins sample_engine sample_plan (sample_heap 0) False 1700000000) (sv_view empty_server) (sv_view (srv w1))"
    by simp
  then have "n = nseg sample_plan"
    using m v by (auto simp: put_stored_def write_rec_def meta_nseg_def put_bins_def meta_bins_get split: if_splits)
  with put_again_keeps [OF sample_storage_env p3, of sample_plan m] h c m p3 p sample_plan_for show ?thesis by simp
qed

text \<open>
  C4: what \<open>get\<close> returns is what is stored. If \<open>get\<close> into a caller's buffer returns an object, it
  is that buffer, the key holds a committed payload, the buffer starts with exactly its bytes
  and keeps its other bytes, the stored checksum (if any, and if checking is on) is theirs, no
  other memory object has changed, and neither has the database.
\<close>

theorem get_returns_stored:
  assumes "storage_env E view" and "get E ck (Some a) w = (Inr (Some a'), w')"
  shows "\<exists>p. payload_of E (view (srv w)) ck = Some p \<and> crc_good E (view (srv w)) ck p \<and> a' = a \<and>
    length p \<le> length (mo_bytes (heap w a)) \<and>
    mo_bytes (heap w' a) = p @ drop (length p) (mo_bytes (heap w a)) \<and>
    (\<forall>c. c \<noteq> a \<longrightarrow> heap w' c = heap w c) \<and> view (srv w') = view (srv w)"
proof -
  from storage_env.get_hit [OF assms] obtain p where p: "payload_of E (view (srv w)) ck = Some p"
    "crc_good E (view (srv w)) ck p" "length p \<le> length (mo_bytes (heap w a))" "a' = a" "heap w' = loaded a p (heap w)"
    by (auto simp: get_target_def)
  moreover have "view (srv w') = view (srv w)"
    using storage_env.get_view_unchanged [OF assms(1), of ck "Some a" w] assms(2) by simp
  ultimately show ?thesis by (auto simp: loaded_def patch_def)
qed

theorem get_returns_stored_witness:
  "\<exists>w1 w2. get sample_engine ''k'' (Some 1) w1 = (Inr (Some 1), w2) \<and>
     payload_of sample_engine (sv_view (srv w1)) ''k'' = Some sample_bytes \<and>
     mo_bytes (heap w2 1) = sample_bytes @ [0, 0]"
proof -
  obtain w1 where w1: "put sample_engine ''k'' 0 False sample_world = (Inr (), w1)" "sv_up (srv w1)"
    using sample_put by blast
  note r = storage_env.put_refines [OF sample_storage_env w1(1)]
  have h: "heap w1 = sample_heap" using storage_env.put_outcome [OF sample_storage_env w1(1)] by simp
  have f: "plan_fits sample_bytes sample_plan" using plan_for_fits [of sample_limits sample_bytes] sample_plan_for by simp
  have "\<exists>w2. get sample_engine ''k'' (Some 1) w1 = (Inr (Some 1), w2) \<and>
      heap w2 = loaded 1 (concat (put_chunks_of sample_bytes sample_plan)) (heap w1) \<and> sv_up (srv w2)"
    by (rule healthy_env.get_succeeds [OF sample_env w1(2)])
       (use r(2,3) h f put_chunks_nonempty [OF f] in \<open>auto simp: sample_plan_for concat_put_chunks\<close>)
  then obtain w2 where w2: "get sample_engine ''k'' (Some 1) w1 = (Inr (Some 1), w2)" by blast
  from get_returns_stored [OF sample_storage_env w2] r(1) [of "''k''"]
  have "mo_bytes (heap w2 1) = sample_bytes @ drop 10 (replicate 12 0)" by (auto simp: h)
  with w2 r(1) [of "''k''"] show ?thesis by (intro exI [of _ w1] exI [of _ w2]) (simp add: numeral_eq_Suc)
qed

text \<open>
  C22: with checksums on, \<open>get\<close> never returns a chunk that differs from the written one in a
  single byte. If the key's meta record carries the checksum of a payload \<open>bs\<close> and the records
  now hold \<open>bs\<close> with one byte replaced by another, no \<open>get\<close> of the key returns an object.
\<close>

theorem get_detects_corruption:
  assumes "storage_env E view" and "cfg_enable_crc32 (e_cfg E)"
    and "view (srv w) (mk_of E ck) = Some m" and "m ''crc32'' = Some (BInt (crc32 bs))"
    and "payload_of E (view (srv w)) ck = Some (bs[i := b])" and "i < length bs" and "b \<noteq> bs ! i"
  shows "fst (get E ck pre w) \<noteq> Inr (Some a)"
proof
  assume "fst (get E ck pre w) = Inr (Some a)"
  then have "get E ck pre w = (Inr (Some a), snd (get E ck pre w))" by (metis prod.collapse)
  from storage_env.get_hit [OF assms(1) this] assms(5) have "crc_good E (view (srv w)) ck (bs[i := b])" by auto
  with assms(2-4) have "crc32 (bs[i := b]) = crc32 bs" by (simp add: crc_good_def)
  with crc32_single_byte [OF assms(6,7)] show False by simp
qed

definition corrupt_world :: "server world" where
  "corrupt_world = sample_world\<lparr>srv := empty_server\<lparr>sv_recs :=
     [((''ns'', ''s'', ''k|m''), ([(''state'', BStr ''ready''), (''nseg'', BInt 1), (''b'', BBytes [1, 9, 3]),
        (''crc32'', BInt (crc32 [1, 2, 3]))], 60))]\<rparr>\<rparr>"

theorem get_detects_corruption_witness:
  "fst (get sample_engine ''k'' (Some 1) corrupt_world) \<noteq> Inr (Some 1)"
proof -
  let ?m = "map_of [(''state'', BStr ''ready''), (''nseg'', BInt 1), (''b'', BBytes [1, 9, 3]),
        (''crc32'', BInt (crc32 [1, 2, 3]))]"
  have k: "mk_of sample_engine ''k'' = (''ns'', ''s'', ''k|m'')"
    by (simp add: mk_of_def meta_key_def sample_cfg_def)
  have v: "sv_view (srv corrupt_world) (mk_of sample_engine ''k'') = Some ?m"
    by (simp add: k corrupt_world_def sv_view_def)
  show ?thesis
    by (rule get_detects_corruption [OF sample_storage_env _ v, of "[1, 2, 3]" 1 9])
       (use v in \<open>simp_all add: payload_of_def stored_chunks_def meta_nseg_def chunks_from_def rec_payload_def\<close>)
qed



end
