(* ===== verification/Engine_Admin.thy ===== *)
theory Engine_Admin
  imports Engine_Props
begin

text \<open>
  The properties of removal, lookup and pinning.
\<close>

section \<open>remove\<close>

text \<open>
  C15: \<open>remove\<close> implements deletion from the abstract map. When it returns \<open>True\<close> the key has no
  meta record and no content any more, and every key with another name has the content it had;
  when it returns \<open>False\<close> the key had no meta record and nothing has changed.
\<close>

theorem remove_refines_map:
  assumes "storage_env E view" and "remove E key w = (Inr r, w')"
  shows "if r then view (srv w') (mk_of E key) = None \<and>
      payload_of E (view (srv w')) =
        (\<lambda>ck'. if same_name E ck' key then None else payload_of E (view (srv w)) ck')
    else view (srv w) (mk_of E key) = None \<and> view (srv w') = view (srv w)"
proof (cases r)
  case True
  with assms(2) have r: "remove E key w = (Inr True, w')" by simp
  note o = storage_env.remove_done_outcome [OF assms(1) r]
  have "payload_of E (view (srv w')) ck' = (if same_name E ck' key then None else payload_of E (view (srv w)) ck')" for ck'
  proof (cases "same_name E ck' key")
    case True
    with o(1) same_name_keys [of E ck' key] show ?thesis by (simp add: payload_of_def stored_chunks_def)
  next
    case False
    have "payload_of E (view (srv w')) ck' = payload_of E (view (srv w)) ck'"
      by (rule content_frame(2) [of E key]) (use o(2) False in auto)
    with False show ?thesis by simp
  qed
  with True o(1) show ?thesis by auto
next
  case False
  with assms(2) have r: "remove E key w = (Inr False, w')" by simp
  with False storage_env.remove_false_outcome [OF assms(1) r] show ?thesis by simp
qed

text \<open>A chunk of three bytes in two segments.\<close>

definition segment_world :: "server world" where
  "segment_world = sample_world\<lparr>srv := empty_server\<lparr>sv_recs :=
     [(mk_of sample_engine ''k'', ([(''state'', BStr ''ready''), (''nseg'', BInt 2)], 60)),
      (sk_of sample_engine ''k'' 0, ([(''b'', BBytes [1, 2])], 60)),
      (sk_of sample_engine ''k'' 1, ([(''b'', BBytes [3])], 60))]\<rparr>\<rparr>"

lemma segment_world_view:
  "sv_up (srv segment_world)"
  "sv_view (srv segment_world) (mk_of sample_engine ''k'') = Some [''state'' \<mapsto> BStr ''ready'', ''nseg'' \<mapsto> BInt 2]"
  "sv_view (srv segment_world) (sk_of sample_engine ''k'' 0) = Some [''b'' \<mapsto> BBytes [1, 2]]"
  "sv_view (srv segment_world) (sk_of sample_engine ''k'' 1) = Some [''b'' \<mapsto> BBytes [3]]"
  "k \<notin> {mk_of sample_engine ''k'', sk_of sample_engine ''k'' 0, sk_of sample_engine ''k'' 1} \<Longrightarrow>
   sv_view (srv segment_world) k = None"
  by (auto simp: segment_world_def sv_view_def sk_not_mk sk_eq_iff empty_server_def fun_eq_iff)

lemma segment_world_segments:
  "0 \<le> i \<Longrightarrow> sv_view (srv segment_world) (sk_of sample_engine ''k'' i) \<noteq> None \<Longrightarrow> i < 2"
  using segment_world_view(5) [of "sk_of sample_engine ''k'' i"] by (cases "i = 0 \<or> i = 1") (auto simp: sk_not_mk sk_eq_iff)

text \<open>
  C27: on a healthy server \<open>remove\<close> leaves nothing behind. If a key's meta record names all the
  segments the key has, then \<open>remove\<close> returns \<open>True\<close> and no record of the key, meta or segment,
  exists any more.
\<close>

theorem remove_leaves_nothing:
  assumes "healthy_env E view live fits" and "live (srv w)"
    and "view (srv w) (mk_of E key) = Some m" and "m ''nseg'' = Some (BInt n)"
    and "\<And>i. 0 \<le> i \<Longrightarrow> view (srv w) (sk_of E key i) \<noteq> None \<Longrightarrow> 1 < n \<and> i < n"
  shows "\<exists>w'. remove E key w = (Inr True, w') \<and> view (srv w') (mk_of E key) = None \<and>
    (\<forall>i \<ge> 0. view (srv w') (sk_of E key i) = None)"
  using healthy_env.remove_live [OF assms(1,2,3,4) _ assms(5)] by fastforce

theorem remove_leaves_nothing_witness:
  "\<exists>w'. remove sample_engine ''k'' segment_world = (Inr True, w') \<and>
     sv_view (srv w') (sk_of sample_engine ''k'' 0) = None \<and> sv_view (srv w') (sk_of sample_engine ''k'' 1) = None"
  using remove_leaves_nothing [OF sample_env segment_world_view(1,2), of 2] segment_world_segments by fastforce

theorem remove_refines_map_witness:
  "\<exists>w'. remove sample_engine ''k'' segment_world = (Inr True, w') \<and>
     payload_of sample_engine (sv_view (srv w')) ''k'' = None"
proof -
  have "\<exists>w'. remove sample_engine ''k'' segment_world = (Inr True, w') \<and>
      (\<forall>k \<in> owned sample_engine ''k''. sv_view (srv w') k = None)"
    by (rule healthy_env.remove_live [OF sample_env segment_world_view(1,2), of "BInt 2" 2])
       (use segment_world_segments in auto)
  then obtain w' where r: "remove sample_engine ''k'' segment_world = (Inr True, w')" by blast
  from remove_refines_map [OF sample_storage_env r] r show ?thesis by auto
qed

section \<open>Lookup\<close>

text \<open>
  C29: on a healthy server \<open>batched_contains\<close> returns the length of the longest prefix of the
  keys that all have a meta record, as LMCache's prefix matching needs it.
\<close>

theorem batched_contains_prefix:
  assumes "healthy_env E view live fits" and "live (srv w)"
  shows "fst (batched_contains E keys w) =
    Inr (int (length (takeWhile (\<lambda>ck. view (srv w) (mk_of E ck) \<noteq> None) keys)))"
  using healthy_env.contains_live [OF assms] .

theorem batched_contains_prefix_witness:
  "fst (batched_contains sample_engine [''k'', ''k'', ''x'', ''k''] segment_world) = Inr 2"
proof -
  have "mk_of sample_engine ''x'' \<notin> {mk_of sample_engine ''k'', sk_of sample_engine ''k'' 0, sk_of sample_engine ''k'' 1}"
    by (simp add: mk_not_sk) (simp add: mk_of_def meta_key_def)
  with batched_contains_prefix [OF sample_env segment_world_view(1), of "[''k'', ''k'', ''x'', ''k'']"]
    segment_world_view show ?thesis by simp
qed

text \<open>
  Whatever fails, \<open>batched_contains\<close> never promises too much: the count it returns is at
  most the number of keys, the first so many keys all have a meta record, and the database is
  unchanged. A client error gives the count 0.
\<close>

theorem batched_contains_sound:
  assumes "storage_env E view" and "batched_contains E keys w = (Inr c, w')"
  shows "0 \<le> c \<and> nat c \<le> length keys \<and> (\<forall>i < nat c. view (srv w) (mk_of E (keys ! i)) \<noteq> None) \<and>
    view (srv w') = view (srv w)"
  using storage_env.contains_sound [OF assms] by blast

theorem batched_contains_sound_witness:
  "\<exists>c w'. batched_contains sample_engine [''k''] down_world = (Inr c, w') \<and> nat c \<le> 1"
proof -
  have "fst (batched_contains sample_engine [''k''] down_world) = Inr 0"
    by (simp add: batched_contains_def sample_engine_def ref_client_def sv_batch_read_def down_world_def
        ax_timeout_def case_prod_beta)
  then obtain w' where r: "batched_contains sample_engine [''k''] down_world = (Inr 0, w')" by (metis prod.collapse)
  from batched_contains_sound [OF sample_storage_env r] r show ?thesis by auto
qed

text \<open>
  On a healthy server \<open>exists\<close> and \<open>batched_exists_mask\<close> agree: both tell, key by key, whether
  the meta record is there.
\<close>

theorem exists_mask_agree:
  assumes "healthy_env E view live fits" and "live (srv w)"
  shows "fst (batched_exists_mask E keys w) = Inr (map (\<lambda>ck. view (srv w) (mk_of E ck) \<noteq> None) keys) \<and>
    (\<forall>ck. fst (exists E ck w) = Inr (view (srv w) (mk_of E ck) \<noteq> None))"
  using healthy_env.mask_live [OF assms] healthy_env.exists_live [OF assms] by (metis fst_conv)

theorem exists_mask_agree_witness:
  "fst (batched_exists_mask sample_engine [''k'', ''x''] segment_world) = Inr [True, False] \<and>
   fst (exists sample_engine ''x'' segment_world) = Inr False"
proof -
  have "mk_of sample_engine ''x'' \<notin> {mk_of sample_engine ''k'', sk_of sample_engine ''k'' 0, sk_of sample_engine ''k'' 1}"
    by (simp add: mk_not_sk) (simp add: mk_of_def meta_key_def)
  with exists_mask_agree [OF sample_env segment_world_view(1), of "[''k'', ''x'']"] segment_world_view
  show ?thesis by simp
qed

section \<open>Pins\<close>

text \<open>
  Pinning and unpinning never touch content: after \<open>pin_keys\<close> of keys with different names,
  or \<open>unpin\<close>, every key holds what it held, whether or not the calls fail.
\<close>

theorem pins_keep_content:
  assumes "storage_env E view" and "distinct (map (e_to_string E) keys)"
  shows "payload_of E (view (srv (snd (pin_keys E keys w)))) = payload_of E (view (srv w)) \<and>
    payload_of E (view (srv (snd (unpin E ck w)))) = payload_of E (view (srv w))"
proof -
  have "pin_only (view (srv w)) (view (srv (snd (pin_keys E keys w))))"
    by (rule storage_env.pin_keys_outcome(1) [OF assms(1) prod.collapse [symmetric] assms(2)])
  moreover have "pin_only (view (srv w)) (view (srv (snd (unpin E ck w))))"
    by (rule storage_env.unpin_outcome(1) [OF assms(1) prod.collapse [symmetric]])
  ultimately show ?thesis by (auto simp: fun_eq_iff pin_only_content(2))
qed

theorem pins_keep_content_witness:
  "payload_of sample_engine (sv_view (srv (snd (pin_keys sample_engine [''k'', ''x''] segment_world)))) ''k'' = Some [1, 2, 3]"
proof -
  have n: "sks_of sample_engine ''k'' 2 = [sk_of sample_engine ''k'' 0, sk_of sample_engine ''k'' 1]"
    by (simp add: sks_of_eq py_range_def upt_rec)
  have "payload_of sample_engine (sv_view (srv segment_world)) ''k'' = Some [1, 2, 3]"
    by (simp add: payload_of_def stored_chunks_def segment_world_view meta_nseg_def chunks_from_def n rec_payload_def)
  with pins_keep_content [OF sample_storage_env, of "[''k'', ''x'']"] show ?thesis by (simp add: fun_eq_iff)
qed

text \<open>
  \<open>pin_keys\<close> does not check that a key exists. On a healthy server, pinning a key without a
  meta record creates one: afterwards \<open>exists\<close> says \<open>True\<close> although the key holds no chunk.
\<close>

theorem pin_absent_creates_ghost:
  assumes env: "healthy_env E view live fits" and live: "live (srv w)"
    and absent: "view (srv w) (mk_of E ck) = None"
    and policy: "write_policy (e_consts E) (e_cfg E) = Inr wp"
    and fits: "fits (srv w) None [(''pin'', BBool True)]"
  shows "\<exists>w'. pin_keys E [ck] w = (Inr (), w') \<and> fst (exists E ck w') = Inr True \<and>
    payload_of E (view (srv w')) ck = None"
proof -
  have cl: "healthy_client (e_client E) view live fits" and se: "storage_env E view"
    using env by (simp_all add: healthy_env_def)
  have ac: "aerospike_client (e_client E) view" using se by (simp add: storage_env_def)
  let ?ops = "[BWrite (mk_of E ck) [(''pin'', BBool True)] (e_pin_ttl E) wp]"
  have "list_all (op_fits (fits (srv w)) (view (srv w))) ?ops" using fits absent by simp
  with healthy_client.live_batch_write [OF cl live, of ?ops] obtain codes s where
    b: "cl_batch_write (e_client E) ?ops (srv w) = (Inr codes, s)" "live s" "codes ! 0 = 0" by auto
  have "view s (mk_of E ck) = op_effect (?ops ! 0) (view (srv w) (mk_of E ck))"
    using aerospike_client.batch_write_done [OF ac b(1), of 0] b(3) by simp
  then have v: "view s (mk_of E ck) = Some [''pin'' \<mapsto> BBool True]"
    using absent by (simp add: write_rec_def old_bins_def)
  have p: "pin_keys E [ck] w = (Inr (), w\<lparr>srv := s\<rparr>)"
    using b(1) policy by (simp add: pin_keys_def pin_keys_batch_def)
  moreover have "fst (exists E ck (w\<lparr>srv := s\<rparr>)) = Inr True"
    using healthy_env.exists_live [OF env, of "w\<lparr>srv := s\<rparr>" ck] b(2) v by auto
  moreover have "payload_of E (view s) ck = None"
    using v by (simp add: payload_of_def stored_chunks_def meta_nseg_def)
  ultimately show ?thesis by (intro exI [of _ "w\<lparr>srv := s\<rparr>"]) simp
qed

lemma empty_limit: "sv_limit empty_server = 1000"
  by (simp add: empty_server_def)

theorem pin_absent_creates_ghost_witness:
  "\<exists>w'. pin_keys sample_engine [''k''] sample_world = (Inr (), w') \<and> fst (exists sample_engine ''k'' w') = Inr True \<and>
     payload_of sample_engine (sv_view (srv w')) ''k'' = None"
proof -
  obtain wp where wp: "write_policy sample_consts sample_cfg = Inr wp" using sample_policy by blast
  show ?thesis
    by (rule pin_absent_creates_ghost [OF sample_env, where wp = wp])
       (use wp in \<open>auto simp: sv_fits_def rec_bytes_def empty_limit\<close>)
qed

end
