(* ===== verification/Engine_Batch.thy ===== *)
theory Engine_Batch
  imports Engine_Admin
begin

text \<open>
  The batched operations: \<open>batched_get_preallocated\<close> fills several buffers, \<open>batched_put\<close> stores
  several chunks. Both work through the items in chunks of 32 and report a flag per item. The
  lemmas follow the loops inside out; each says what a flag that has become \<open>True\<close> means and
  which buffers or keys are left alone.
\<close>

section \<open>Loading into buffers\<close>

text \<open>The buffer of an item starts with the committed payload of its key.\<close>

definition holds :: "('s, 'k) engine \<Rightarrow> dbview \<Rightarrow> 'k \<times> nat \<Rightarrow> heap \<Rightarrow> bool" where
  "holds E v item h \<longleftrightarrow>
     (\<exists>p. payload_of E v (fst item) = Some p \<and> crc_good E v (fst item) p \<and>
        length p \<le> length (mo_bytes (h (snd item))) \<and> take (length p) (mo_bytes (h (snd item))) = p)"

lemma holds_cong: "h (snd item) = h' (snd item) \<Longrightarrow> holds E v item h = holds E v item h'"
  by (simp add: holds_def)

lemma holds_loaded:
  assumes "payload_of E v ck = Some p" "crc_good E v ck p" "length p \<le> length (mo_bytes (h a))"
  shows "holds E v (ck, a) (loaded a p h)"
  using assms by (auto simp: holds_def loaded_def)

lemma read_segments_frame: "c \<noteq> a \<Longrightarrow> snd (read_segments X a recs off written h) c = h c"
  by (induction X a recs off written h rule: read_segments.induct)
     (auto simp: ref_count_down_def split: option.splits sum.splits)

lemma get_frame:
  assumes "c \<noteq> a"
  shows "heap (snd (get E ck (Some a) w)) c = heap w c"
proof -
  have p: "heap (snd (read_payload E ck b n a w')) c = heap w' c" for b n w'
    using assms read_segments_frame [OF assms]
    by (simp add: read_payload_def Let_def case_prod_beta split: option.splits sum.splits)
  have i: "heap (snd (get_into E ck b n a False w')) c = heap w' c" for b n w'
    using assms p [of b n w']
    by (auto simp: get_into_def Let_def case_prod_beta ref_count_down_def split: option.splits sum.splits)
  have t: "get_target E (Some a) b h = (Inr (Some a, False), h)" for b h by (simp add: get_target_def)
  show ?thesis
    using assms i
    by (auto simp: get_def get_body_def Let_def case_prod_beta t ref_count_down_def split: option.splits sum.splits)
qed

text \<open>What a batch read of meta records says about the entry of key \<open>ck\<close>.\<close>

definition meta_rec_ok :: "('s, 'k) engine \<Rightarrow> dbview \<Rightarrow> batch_rec \<Rightarrow> 'k \<Rightarrow> bool" where
  "meta_rec_ok E v rc ck \<longleftrightarrow>
     (fst rc = 0 \<longrightarrow> (\<exists>b m. snd rc = Some b \<and> v (mk_of E ck) = Some m \<and> map_of b = m |` set META_READ_BINS))"

text \<open>What a loop over items may do to flags and buffers. \<open>new\<close> lists the indices and items it
  is responsible for.\<close>

definition loads ::
  "('s, 'k) engine \<Rightarrow> dbview \<Rightarrow> (nat \<times> 'k \<times> nat) list \<Rightarrow> bool list \<times> heap \<Rightarrow> bool list \<times> heap \<Rightarrow> bool" where
  "loads E v new st st' \<longleftrightarrow>
     length (fst st') = length (fst st) \<and>
     (\<forall>i < length (fst st). fst st' ! i \<longrightarrow> fst st ! i \<or> (\<exists>it. (i, it) \<in> set new \<and> holds E v it (snd st'))) \<and>
     (\<forall>c. c \<notin> snd ` snd ` set new \<longrightarrow> snd st' c = snd st c)"

lemma loads_refl [simp]: "loads E v new st st"
  by (simp add: loads_def)

lemma loads_trans:
  assumes "loads E v new1 st st1" "loads E v new2 st1 st2"
    and "snd ` snd ` set new1 \<inter> snd ` snd ` set new2 = {}"
  shows "loads E v (new1 @ new2) st st2"
proof -
  have "holds E v it (snd st2)" if "(i, it) \<in> set new1" "holds E v it (snd st1)" for i it
  proof -
    have "snd it \<in> snd ` snd ` set new1" using that(1) by force
    with assms(3) have "snd it \<notin> snd ` snd ` set new2" by blast
    with assms(2) have "snd st2 (snd it) = snd st1 (snd it)" unfolding loads_def by blast
    with that(2) show ?thesis by (simp add: holds_def)
  qed
  note keep = this
  have "fst st ! i \<or> (\<exists>it. (i, it) \<in> set (new1 @ new2) \<and> holds E v it (snd st2))"
    if i: "i < length (fst st)" "fst st2 ! i" for i
  proof (cases "fst st1 ! i")
    case True
    with assms(1) i(1) have "fst st ! i \<or> (\<exists>it. (i, it) \<in> set new1 \<and> holds E v it (snd st1))"
      unfolding loads_def by blast
    with keep show ?thesis by auto
  next
    case False
    moreover have "i < length (fst st1)" using assms(1) i(1) by (simp add: loads_def)
    ultimately have "\<exists>it. (i, it) \<in> set new2 \<and> holds E v it (snd st2)"
      using assms(2) i(2) unfolding loads_def by blast
    then show ?thesis by auto
  qed
  moreover have "snd st2 c = snd st c" if "c \<notin> snd ` snd ` set (new1 @ new2)" for c
    using assms(1,2) that by (simp add: loads_def image_Un)
  ultimately show ?thesis using assms(1,2) by (simp add: loads_def)
qed

lemma loads_mono:
  assumes "loads E v new st st'" "set new \<subseteq> set new'"
  shows "loads E v new' st st'"
  using assms unfolding loads_def by (metis (no_types, lifting) image_mono in_mono)

lemma loads_set:
  assumes "\<And>c. c \<noteq> a \<Longrightarrow> h' c = h c" "ok \<Longrightarrow> holds E v (ck, a) h'"
  shows "loads E v [(i, ck, a)] (rs, h) (if ok then rs[i := True] else rs, h')"
  using assms by (auto simp: loads_def nth_list_update)

text \<open>The loop over meta records: flags set, and entries left for the segment loop.\<close>

definition metas_post ::
  "('s, 'k) engine \<Rightarrow> dbview \<Rightarrow> ('k \<times> nat) list \<Rightarrow> nat \<Rightarrow> bool list \<times> heap \<Rightarrow> bool list \<times> heap \<Rightarrow>
   exn + (nat \<times> 'k \<times> nat) list \<Rightarrow> bool" where
  "metas_post E v items i st st' r \<longleftrightarrow>
     (\<exists>new. loads E v new st st' \<and> set new \<subseteq> set (List.enumerate i items) \<and>
       (\<forall>ms. r = Inr ms \<longrightarrow> set ms \<subseteq> set (List.enumerate i items) \<and>
          snd ` snd ` set new \<inter> snd ` snd ` set ms = {} \<and> distinct (map (snd \<circ> snd) ms)))"

lemma enumerate_buffers:
  assumes "set ys \<subseteq> set (List.enumerate i items)"
  shows "snd ` snd ` set ys \<subseteq> snd ` set items"
proof -
  have "snd ` set ys \<subseteq> snd ` set (List.enumerate i items)" using assms by blast
  also have "\<dots> = set items" by (simp flip: set_map)
  finally show ?thesis by blast
qed

lemma metas_post_skip: "metas_post E v items (Suc i) st st' r \<Longrightarrow> metas_post E v (it # items) i st st' r"
  unfolding metas_post_def by (metis (no_types, lifting) enumerate_simps(2) order.trans set_subset_Cons)

lemma metas_post_multi:
  assumes "metas_post E v items (Suc i) st st' r" "a \<notin> snd ` set items"
  shows "metas_post E v ((ck, a) # items) i st st' (bindE r (\<lambda>ms. Inr ((i, ck, a) # ms)))"
proof -
  from assms(1) obtain new where n: "loads E v new st st'" "set new \<subseteq> set (List.enumerate (Suc i) items)"
    "\<forall>ms. r = Inr ms \<longrightarrow> set ms \<subseteq> set (List.enumerate (Suc i) items) \<and>
          snd ` snd ` set new \<inter> snd ` snd ` set ms = {} \<and> distinct (map (snd \<circ> snd) ms)"
    by (auto simp: metas_post_def)
  have a: "a \<notin> snd ` snd ` set ys" if "set ys \<subseteq> set (List.enumerate (Suc i) items)" for ys :: "(nat \<times> 'b \<times> nat) list"
    using enumerate_buffers [OF that] assms(2) by blast
  have "set ms \<subseteq> set (List.enumerate i ((ck, a) # items)) \<and> snd ` snd ` set new \<inter> snd ` snd ` set ms = {} \<and>
      distinct (map (snd \<circ> snd) ms)" if "bindE r (\<lambda>ms. Inr ((i, ck, a) # ms)) = Inr ms" for ms
  proof -
    from that obtain ms' where m: "r = Inr ms'" "ms = (i, ck, a) # ms'" by (auto simp: bindE_eq_Inr)
    with n(3) a [OF n(2)] a [of ms'] show ?thesis by (auto simp: image_comp)
  qed
  with n(1,2) show ?thesis unfolding metas_post_def by (intro exI [of _ new]) auto
qed

lemma metas_post_load:
  assumes "loads E v [(i, ck, a)] st st1" "metas_post E v items (Suc i) st1 st' r" "a \<notin> snd ` set items"
  shows "metas_post E v ((ck, a) # items) i st st' r"
proof -
  from assms(2) obtain new where n: "loads E v new st1 st'" "set new \<subseteq> set (List.enumerate (Suc i) items)"
    "\<forall>ms. r = Inr ms \<longrightarrow> set ms \<subseteq> set (List.enumerate (Suc i) items) \<and>
          snd ` snd ` set new \<inter> snd ` snd ` set ms = {} \<and> distinct (map (snd \<circ> snd) ms)"
    by (auto simp: metas_post_def)
  have a: "a \<notin> snd ` snd ` set ys" if "set ys \<subseteq> set (List.enumerate (Suc i) items)" for ys :: "(nat \<times> 'b \<times> nat) list"
    using enumerate_buffers [OF that] assms(3) by blast
  have "loads E v ([(i, ck, a)] @ new) st st'" using a [OF n(2)] by (intro loads_trans [OF assms(1) n(1)]) simp
  moreover have "\<forall>ms. r = Inr ms \<longrightarrow> set ms \<subseteq> set (List.enumerate i ((ck, a) # items)) \<and>
      snd ` snd ` set ([(i, ck, a)] @ new) \<inter> snd ` snd ` set ms = {} \<and> distinct (map (snd \<circ> snd) ms)"
    using n(3) a by auto
  ultimately show ?thesis
    unfolding metas_post_def using n(2) by (intro exI [of _ "[(i, ck, a)] @ new"]) auto
qed

context storage_env
begin

lemma load_single_outcome:
  assumes "load_single E b payload a h = (ok, h')" "dict_get b ''b'' = Some payload"
    and "v (mk_of E ck) = Some m" "map_of b = m |` set META_READ_BINS"
    and "dict_get b ''state'' = Some (BStr ''ready'')" "int_bin b ''nseg'' = Inr 1"
  shows "c \<noteq> a \<Longrightarrow> h' c = h c" and "ok \<Longrightarrow> holds E v (ck, a) h'"
proof -
  show "c \<noteq> a \<Longrightarrow> h' c = h c"
    using assms(1) by (auto simp: load_single_def split: sum.splits)
  assume ok
  with assms(1) obtain n mo where w: "write_payload_into (e_lm E) (h a) payload 0 = Inr (n, mo)"
    and c: "crc_matches E b (take n (mo_bytes mo))" and h': "h' = h(a := mo)"
    by (auto simp: load_single_def split: sum.splits)
  from write_payload_done [OF w] obtain bs where bs: "payload = BBytes bs" "n = length bs"
    "n \<le> length (mo_bytes (h a))" "mo = (h a)\<lparr>mo_bytes := patch 0 bs (mo_bytes (h a))\<rparr>" by auto
  have eq: "map_of b k = m k" if "k \<in> {''state'', ''nseg'', ''b'', ''crc32''}" for k
    using assms(4) that by (auto simp: META_READ_BINS_def)
  have "meta_nseg m = Some 1"
    using assms(5,6) eq [of "''state''"] eq [of "''nseg''"] by (auto simp: meta_nseg_def int_bin_def split: option.splits)
  then have "payload_of E v ck = Some bs"
    using assms(2,3) bs(1) eq [of "''b''"] by (simp add: payload_of_def stored_chunks_def chunks_from_def rec_payload_def)
  moreover have "crc_good E v ck bs"
    using c bs assms(3) eq [of "''crc32''"] by (simp add: crc_matches_def crc_good_def)
  moreover have "h' = loaded a bs h" using h' bs by (simp add: loaded_def)
  ultimately show "holds E v (ck, a) h'" using bs by (simp add: holds_loaded)
qed

lemma load_metas_outcome:
  assumes "load_metas E recs items i rs h = (r, rs', h')" "list_all2 (meta_rec_ok E v) recs (map fst items)"
    and "distinct (map snd items)"
  shows "metas_post E v items i (rs, h) (rs', h') r"
  using assms
proof (induction recs arbitrary: items i rs h r)
  case Nil
  then show ?case by (auto simp: metas_post_def intro!: exI [of _ "[]"])
next
  case (Cons rec recs)
  obtain code rc where rec: "rec = (code, rc)" by (cases rec)
  from Cons.prems(2) obtain ck a items' where it: "items = (ck, a) # items'"
    and mr: "meta_rec_ok E v rec ck" and rest: "list_all2 (meta_rec_ok E v) recs (map fst items')"
    by (cases items) auto
  from Cons.prems(3) it have d: "distinct (map snd items')" "a \<notin> snd ` set items'" by auto
  note IH = Cons.IH [OF _ rest d(1)]
  consider (skip) "load_metas E recs items' (Suc i) rs h = (r, rs', h')"
    | (err) e where "r = Inl e" "rs' = rs" "h' = h"
    | (multi) r0 where "load_metas E recs items' (Suc i) rs h = (r0, rs', h')" "r = bindE r0 (\<lambda>ms. Inr ((i, ck, a) # ms))"
    | (load) b payload ok h1 where "rc = Some b" "code = 0" "dict_get b ''state'' = Some (BStr ''ready'')"
        "int_bin b ''nseg'' = Inr 1" "dict_get b ''b'' = Some payload" "load_single E b payload a h = (ok, h1)"
        "load_metas E recs items' (Suc i) (if ok then rs[i := True] else rs) h1 = (r, rs', h')"
    using Cons.prems(1) unfolding rec it
    by (auto simp: AEROSPIKE_OK_def split: option.splits if_splits sum.splits prod.splits)
  then show ?case
  proof cases
    case skip
    from metas_post_skip [OF IH [OF skip]] show ?thesis by (simp add: it)
  next
    case err
    then show ?thesis by (auto simp: metas_post_def intro!: exI [of _ "[]"])
  next
    case multi
    from metas_post_multi [OF IH [OF multi(1)] d(2)] multi(2) show ?thesis by (simp add: it)
  next
    case load
    from mr load(1,2) rec obtain m where m: "v (mk_of E ck) = Some m" "map_of b = m |` set META_READ_BINS"
      by (auto simp: meta_rec_ok_def)
    note o = load_single_outcome [where v = v and ck = ck and m = m, OF load(6,5) m load(3,4)]
    have "loads E v [(i, ck, a)] (rs, h) (if ok then rs[i := True] else rs, h1)"
      by (rule loads_set) (use o in auto)
    from metas_post_load [OF this IH [OF load(7)] d(2)] show ?thesis by (simp add: it)
  qed
qed

lemma load_multi_outcome:
  assumes "load_multi E ms rs w = (r, rs', w')" "distinct (map (snd \<circ> snd) ms)"
  shows "loads E (view (srv w)) ms (rs, heap w) (rs', heap w') \<and> view (srv w') = view (srv w)"
  using assms
proof (induction ms arbitrary: rs w)
  case (Cons m ms)
  obtain i ck a where m: "m = (i, ck, a)" by (cases m)
  obtain q w1 where g: "get E ck (Some a) w = (q, w1)" by fastforce
  have v: "view (srv w1) = view (srv w)" using get_view_unchanged [of ck "Some a" w] g by simp
  have fr: "c \<noteq> a \<Longrightarrow> heap w1 c = heap w c" for c using get_frame [of c a E ck w] g by simp
  have hit: "holds E (view (srv w)) (ck, a) (heap w1)" if "q = Inr (Some a')" for a'
  proof -
    from get_hit [of ck "Some a" w a' w1] g that obtain p where "payload_of E (view (srv w)) ck = Some p"
      "crc_good E (view (srv w)) ck p" "length p \<le> length (mo_bytes (heap w a))" "heap w1 = loaded a p (heap w)"
      by (auto simp: get_target_def)
    then show ?thesis by (simp add: holds_loaded)
  qed
  show ?case
  proof (cases q)
    case (Inl e)
    with Cons.prems(1) m g have "rs' = rs" "w' = w1" by auto
    with fr v show ?thesis by (auto simp: loads_def m)
  next
    case (Inr res)
    let ?rs = "if res \<noteq> None then rs[i := True] else rs"
    from Cons.prems m g Inr have "load_multi E ms ?rs w1 = (r, rs', w')" "distinct (map (snd \<circ> snd) ms)" by (auto simp: comp_def)
    from Cons.IH [OF this] v have ih: "loads E (view (srv w)) ms (?rs, heap w1) (rs', heap w')" "view (srv w') = view (srv w)" by auto
    have one: "loads E (view (srv w)) [(i, ck, a)] (rs, heap w) (?rs, heap w1)"
      by (rule loads_set) (use fr hit Inr in auto)
    have "a \<notin> snd ` snd ` set ms" using Cons.prems(2) m by (simp add: image_comp)
    then have "loads E (view (srv w)) ([(i, ck, a)] @ ms) (rs, heap w) (rs', heap w')"
      by (intro loads_trans [OF one ih(1)]) simp
    with ih(2) m show ?thesis by simp
  qed
qed simp

lemma load_chunk_outcome:
  assumes "load_chunk E items rs off w = (r, rs', w')" "distinct (map snd items)"
  shows "loads E (view (srv w)) (List.enumerate off items) (rs, heap w) (rs', heap w') \<and> view (srv w') = view (srv w)"
proof -
  let ?ks = "map (\<lambda>(ck, _). mk_of E ck) items" and ?v = "view (srv w)"
  obtain q s where q: "cl_batch_read (e_client E) ?ks META_READ_BINS (srv w) = (q, s)" by fastforce
  have v: "view s = ?v" by (rule batch_read_view [OF q])
  show ?thesis
  proof (cases q)
    case (Inl e)
    with assms(1) q have "rs' = rs" "w' = w\<lparr>srv := s\<rparr>" by (auto simp: load_chunk_def)
    with v show ?thesis by simp
  next
    case (Inr recs)
    with q have q': "cl_batch_read (e_client E) ?ks META_READ_BINS (srv w) = (Inr recs, s)" by simp
    have "list_all2 (meta_rec_ok E ?v) recs (map fst items)"
      using batch_read_length [OF q'] batch_read_found [OF q']
      by (auto simp: list_all2_conv_all_nth meta_rec_ok_def case_prod_beta)
    moreover obtain r1 rs1 h1 where l: "load_metas E recs items off rs (heap w) = (r1, rs1, h1)" by (metis prod.exhaust)
    ultimately have "metas_post E ?v items off (rs, heap w) (rs1, h1) r1" using load_metas_outcome assms(2) by blast
    then obtain new where n: "loads E ?v new (rs, heap w) (rs1, h1)" "set new \<subseteq> set (List.enumerate off items)"
      "\<forall>ms. r1 = Inr ms \<longrightarrow> set ms \<subseteq> set (List.enumerate off items) \<and>
          snd ` snd ` set new \<inter> snd ` snd ` set ms = {} \<and> distinct (map (snd \<circ> snd) ms)"
      by (auto simp: metas_post_def)
    show ?thesis
    proof (cases r1)
      case (Inl e)
      with assms(1) q' l have "rs' = rs1" "w' = w\<lparr>srv := s, heap := h1\<rparr>" by (auto simp: load_chunk_def)
      with v loads_mono [OF n(1,2)] show ?thesis by simp
    next
      case (Inr ms)
      let ?w2 = "w\<lparr>srv := s, heap := h1\<rparr>"
      from assms(1) q' l Inr have "load_multi E ms rs1 ?w2 = (r, rs', w')" by (auto simp: load_chunk_def)
      from load_multi_outcome [OF this] n(3) Inr v
      have m: "loads E ?v ms (rs1, h1) (rs', heap w')" "view (srv w') = ?v" by auto
      from n(3) Inr have "snd ` snd ` set new \<inter> snd ` snd ` set ms = {}" "set (new @ ms) \<subseteq> set (List.enumerate off items)"
        using n(2) by auto
      with loads_mono [OF loads_trans [OF n(1) m(1)]] m(2) show ?thesis by blast
    qed
  qed
qed

lemma load_chunks_outcome:
  assumes "load_chunks E cs rs off w = (r, rs', w')" "distinct (map snd (concat cs))"
  shows "loads E (view (srv w)) (List.enumerate off (concat cs)) (rs, heap w) (rs', heap w') \<and> view (srv w') = view (srv w)"
  using assms
proof (induction cs arbitrary: rs off w)
  case (Cons c cs)
  obtain q rs1 w1 where l: "load_chunk E c rs off w = (q, rs1, w1)" by (metis prod.exhaust)
  from Cons.prems(2) have d: "distinct (map snd c)" "distinct (map snd (concat cs))"
    "snd ` set c \<inter> snd ` set (concat cs) = {}" by auto
  note o = load_chunk_outcome [OF l d(1)]
  have e: "List.enumerate off (concat (c # cs)) = List.enumerate off c @ List.enumerate (off + length c) (concat cs)"
    by (simp add: enumerate_append_eq)
  show ?case
  proof (cases q)
    case (Inl x)
    with Cons.prems(1) l have "rs' = rs1" "w' = w1" by auto
    with o show ?thesis unfolding e by (auto intro: loads_mono)
  next
    case (Inr u)
    with Cons.prems(1) l have "load_chunks E cs rs1 (off + length c) w1 = (r, rs', w')" by simp
    from Cons.IH [OF this d(2)] o
    have ih: "loads E (view (srv w)) (List.enumerate (off + length c) (concat cs)) (rs1, heap w1) (rs', heap w')"
      "view (srv w') = view (srv w)" by auto
    have "snd ` snd ` set (List.enumerate off c) \<inter> snd ` snd ` set (List.enumerate (off + length c) (concat cs)) = {}"
      using enumerate_buffers [OF order.refl, of off c] enumerate_buffers [OF order.refl, of "off + length c" "concat cs"] d(3)
      by blast
    with loads_trans [OF _ ih(1)] o ih(2) show ?thesis unfolding e by blast
  qed
qed simp

lemma batched_get_frame:
  assumes "batched_get_preallocated E items w = (r, w')" "distinct (map snd items)"
  shows "view (srv w') = view (srv w)" and "c \<notin> snd ` set items \<Longrightarrow> heap w' c = heap w c"
proof -
  let ?rs0 = "replicate (length items) False"
  obtain q rs1 w2 where l: "load_chunks E (chunked items) ?rs0 0 w = (q, rs1, w2)" by (metis prod.exhaust)
  have "items \<noteq> [] \<Longrightarrow> srv w' = srv w2 \<and> heap w' = heap w2"
    using assms(1) timed_simps(2,3) [of "''batched_get''" "batched_get_body E items" w] l
    by (auto simp: batched_get_preallocated_def batched_get_body_def split: sum.splits)
  moreover have "items = [] \<Longrightarrow> w' = w" using assms(1) by (simp add: batched_get_preallocated_def)
  moreover note load_chunks_outcome [OF l]
  moreover have "c \<notin> snd ` set items \<Longrightarrow> c \<notin> snd ` snd ` set (List.enumerate 0 items)"
    using enumerate_buffers [OF order.refl, of 0 items] by blast
  ultimately show "view (srv w') = view (srv w)" and "c \<notin> snd ` set items \<Longrightarrow> heap w' c = heap w c"
    using assms(2) by (cases "items = []"; simp add: concat_blocks_of loads_def)+
qed

lemma batched_get_outcome:
  assumes "batched_get_preallocated E items w = (Inr rs, w')" "distinct (map snd items)"
  shows "length rs = length items" and "i < length items \<Longrightarrow> rs ! i \<Longrightarrow> holds E (view (srv w)) (items ! i) (heap w')"
    and "c \<notin> snd ` set items \<Longrightarrow> heap w' c = heap w c" and "view (srv w') = view (srv w)"
proof -
  let ?rs0 = "replicate (length items) False"
  have "loads E (view (srv w)) (List.enumerate 0 items) (?rs0, heap w) (rs, heap w') \<and> view (srv w') = view (srv w)"
  proof (cases "items = []")
    case True
    with assms(1) show ?thesis by (simp add: batched_get_preallocated_def)
  next
    case False
    with assms(1) have "timed ''batched_get'' (batched_get_body E items) w = (Inr rs, w')"
      by (simp add: batched_get_preallocated_def)
    then obtain label w1 where b: "batched_get_body E items w = (label, Inr rs, w1)" "srv w' = srv w1" "heap w' = heap w1"
      by (rule timedE)
    obtain q rs1 w2 where l: "load_chunks E (chunked items) ?rs0 0 w = (q, rs1, w2)" by (metis prod.exhaust)
    with b(1) have "rs = rs1" "w1 = w2"
      by (auto simp: batched_get_body_def Let_def split: sum.splits if_splits)
    with load_chunks_outcome [OF l] assms(2) b show ?thesis by (simp add: concat_blocks_of)
  qed
  note l = this
  from l show "length rs = length items" "view (srv w') = view (srv w)" by (simp_all add: loads_def)
  show "heap w' c = heap w c" if "c \<notin> snd ` set items"
  proof -
    have "c \<notin> snd ` snd ` set (List.enumerate 0 items)"
      using that enumerate_buffers [OF order.refl, of 0 items] by blast
    with l show ?thesis by (simp add: loads_def)
  qed
  assume i: "i < length items" "rs ! i"
  with l obtain it where it: "(i, it) \<in> set (List.enumerate 0 items)" "holds E (view (srv w)) it (heap w')"
    unfolding loads_def by auto
  then have "it = items ! i" by (auto simp: in_set_enumerate_eq)
  with it(2) show "holds E (view (srv w)) (items ! i) (heap w')" by simp
qed

end

section \<open>Storing several chunks\<close>

text \<open>A key holds these bytes, with a checksum that fits them.\<close>

definition intact :: "('s, 'k) engine \<Rightarrow> dbview \<Rightarrow> 'k \<Rightarrow> bytes \<Rightarrow> bool" where
  "intact E v ck bs \<longleftrightarrow> payload_of E v ck = Some bs \<and> crc_good E v ck bs"

lemma intact_cong: "(\<And>k. k \<in> owned E ck \<Longrightarrow> v k = v' k) \<Longrightarrow> intact E v ck bs = intact E v' ck bs"
  by (simp add: intact_def payload_of_def content_cong [of E ck v v'])

text \<open>What a loop over items to store may do: only records of the items change, and an item
  whose flag is \<open>True\<close> is stored.\<close>

definition stores ::
  "('s, 'k) engine \<Rightarrow> heap \<Rightarrow> ('k \<times> nat) list \<Rightarrow> dbview \<Rightarrow> dbview \<Rightarrow> exn + bool list \<Rightarrow> bool" where
  "stores E h items v v' r \<longleftrightarrow>
     (\<forall>k. (\<forall>it \<in> set items. k \<notin> owned E (fst it)) \<longrightarrow> v' k = v k) \<and>
     (\<forall>bs. r = Inr bs \<longrightarrow> length bs = length items \<and>
        (\<forall>i < length items. bs ! i \<longrightarrow> intact E v' (fst (items ! i)) (mo_bytes (h (snd (items ! i))))))"

lemma stores_error: "stores E h items v v' r \<Longrightarrow> stores E h (items @ rest) v v' (Inl e)"
  by (simp add: stores_def)

lemma stores_Nil [simp]: "stores E h [] v v (Inr [])"
  by (simp add: stores_def)

lemma stores_append:
  assumes "stores E h xs v v1 (Inr bs)" "stores E h ys v1 v2 r"
    and "distinct (map (\<lambda>it. e_to_string E (fst it)) (xs @ ys))"
  shows "stores E h (xs @ ys) v v2 (bindE r (\<lambda>bs'. Inr (bs @ bs')))"
proof -
  have fr: "v2 k = v k" if "\<forall>it \<in> set (xs @ ys). k \<notin> owned E (fst it)" for k
    using assms(1,2) that by (simp add: stores_def)
  have keep: "intact E v2 (fst x) bs = intact E v1 (fst x) bs" if x: "x \<in> set xs" for x bs
  proof -
    have "v2 k = v1 k" if k: "k \<in> owned E (fst x)" for k
    proof -
      have "k \<notin> owned E (fst y)" if "y \<in> set ys" for y
      proof -
        have "\<not> same_name E (fst x) (fst y)" using assms(3) x that by auto
        from owned_disjoint [OF this] k show ?thesis by blast
      qed
      with assms(2) show ?thesis by (simp add: stores_def)
    qed
    then show ?thesis by (rule intact_cong)
  qed
  have "length bs'' = length (xs @ ys) \<and> (\<forall>i < length (xs @ ys). bs'' ! i \<longrightarrow>
      intact E v2 (fst ((xs @ ys) ! i)) (mo_bytes (h (snd ((xs @ ys) ! i)))))"
    if "bindE r (\<lambda>bs'. Inr (bs @ bs')) = Inr bs''" for bs''
  proof -
    from that obtain bs' where b: "r = Inr bs'" "bs'' = bs @ bs'" by (auto simp: bindE_eq_Inr)
    with assms(1,2) keep show ?thesis by (auto simp: stores_def nth_append)
  qed
  with fr show ?thesis by (simp add: stores_def)
qed

text \<open>Keys with other names keep their content.\<close>

lemma stores_other:
  assumes "stores E h items v v' r" "\<forall>it \<in> set items. \<not> same_name E ck (fst it)"
  shows "payload_of E v' ck = payload_of E v ck" and "intact E v' ck bs = intact E v ck bs"
proof -
  have o: "v' k = v k" if "k \<in> owned E ck" for k
  proof -
    have "\<forall>it \<in> set items. k \<notin> owned E (fst it)" using assms(2) that owned_disjoint [of E ck] by blast
    with assms(1) show ?thesis by (simp add: stores_def)
  qed
  then show "payload_of E v' ck = payload_of E v ck" by (simp add: payload_of_def content_cong(1) [of E ck v' v])
  show "intact E v' ck bs = intact E v ck bs" by (rule intact_cong [OF o])
qed

lemma plan_items_outcome:
  assumes "plan_items E pinned items w = (r, w1)"
  shows "heap w1 = heap w \<and> srv w1 = srv w \<and> (\<forall>plans. r = Inr plans \<longrightarrow>
    list_all2 (\<lambda>(ck, a) (ck', a', p, b). ck' = ck \<and> a' = a \<and>
        plan_for (e_resolved E) (int (length (mo_bytes (heap w a)))) = Inr p \<and>
        b = put_bins E p (heap w a) pinned (now w)) items plans)"
  using assms
proof (induction items arbitrary: w r w1)
  case (Cons it items)
  obtain ck a where it: "it = (ck, a)" by (cases it)
  show ?case
  proof (cases "plan_for (e_resolved E) (int (length (mo_bytes (heap w a))))")
    case (Inl e)
    with Cons.prems it show ?thesis by (auto simp: Let_def)
  next
    case (Inr p)
    let ?w1 = "w\<lparr>mets := observe_segments (nseg p) (int (length (mo_bytes (heap w a)))) (mets w)\<rparr>"
    obtain r' w2 where p: "plan_items E pinned items ?w1 = (r', w2)" by fastforce
    with Cons.prems it Inr have r: "w1 = w2"
      "r = bindE r' (\<lambda>ps. Inr ((ck, a, p, put_bins E p (heap w a) pinned (now w)) # ps))"
      by (auto simp: Let_def)
    from Cons.IH [OF p] r Inr it show ?thesis by (auto simp: bindE_eq_Inr)
  qed
qed auto

context storage_env
begin

lemma put_each_outcome:
  assumes "put_each E pinned items w = (r, w')" "distinct (map (\<lambda>it. e_to_string E (fst it)) items)"
    and "0 < rl_target_segment_bytes (e_resolved E)"
  shows "heap w' = heap w \<and> stores E (heap w) items (view (srv w)) (view (srv w')) r"
  using assms(1,2)
proof (induction items arbitrary: w r w')
  case (Cons it items)
  obtain ck a where it: "it = (ck, a)" by (cases it)
  obtain q w1 where q: "put E ck a pinned w = (q, w1)" by fastforce
  have o: "heap w1 = heap w" "\<forall>k. k \<notin> owned E ck \<longrightarrow> view (srv w1) k = view (srv w) k"
    using put_outcome [OF q] by auto
  have one: "stores E (heap w) [(ck, a)] (view (srv w)) (view (srv w1)) (Inr [\<not> isl q])"
    using o(2) put_refines(1,3) [OF _ assms(3), of ck a pinned w "()" w1] q by (cases q) (auto simp: stores_def intact_def)
  from Cons.prems(2) have d: "distinct (map (\<lambda>it. e_to_string E (fst it)) items)"
    "distinct (map (\<lambda>it. e_to_string E (fst it)) ([(ck, a)] @ items))" by (simp_all add: it)
  show ?case
  proof (cases "isl q \<and> \<not> put_failure_caught (projl q)")
    case True
    then obtain e where "q = Inl e" "\<not> put_failure_caught e" by (cases q) auto
    with Cons.prems(1) it q have "r = Inl e" "w' = w1" by auto
    with stores_error [OF one, of items e] o(1) it show ?thesis by simp
  next
    case False
    obtain r' w2 where p: "put_each E pinned items w1 = (r', w2)" by fastforce
    from False Cons.prems(1) it q p have r: "w' = w2" "r = bindE r' (\<lambda>bs. Inr ((\<not> isl q) # bs))"
      by (cases q; auto)+
    from Cons.IH [OF p d(1)] o(1) have ih: "heap w2 = heap w" "stores E (heap w) items (view (srv w1)) (view (srv w2)) r'" by auto
    from stores_append [OF one ih(2) d(2)] ih(1) r it show ?thesis by simp
  qed
qed auto

lemma batch_put_stores:
  assumes b: "cl_batch_write (e_client E)
      (map (\<lambda>(ck, _, _, mb). BWrite (mk_of E ck) mb ttl wp) plans) s = (q, s')"
    and pl: "list_all2 (\<lambda>(ck, a) (ck', a', p, b). ck' = ck \<and> a' = a \<and>
        plan_for (e_resolved E) (int (length (mo_bytes (h a)))) = Inr p \<and>
        b = put_bins E p (h a) pinned time) items plans"
    and single: "\<not> list_ex (\<lambda>(_, _, p, _). nseg p > 1) plans"
    and d: "distinct (map (\<lambda>it. e_to_string E (fst it)) items)" and t: "0 < rl_target_segment_bytes (e_resolved E)"
  shows "stores E h items (view s) (view s') (bindE q (\<lambda>codes. Inr (map (\<lambda>c. c = AEROSPIKE_OK) codes)))"
proof -
  let ?ops = "map (\<lambda>(ck, _, _, mb). BWrite (mk_of E ck) mb ttl wp) plans"
  have len: "length plans = length items" using list_all2_lengthD [OF pl] by simp
  have pi: "\<exists>p. plans ! i = (fst (items ! i), snd (items ! i), p, put_bins E p (h (snd (items ! i))) pinned time) \<and>
      plan_for (e_resolved E) (int (length (mo_bytes (h (snd (items ! i)))))) = Inr p" if "i < length items" for i
    using list_all2_nthD [OF pl that] by (auto split: prod.splits)
  have ok: "map op_key ?ops = map (mk_of E \<circ> fst) items"
    using pi len by (intro nth_equalityI) (auto, metis (no_types, lifting) case_prod_conv op_key.simps(1))
  have dk: "distinct (map op_key ?ops)"
    using distinct_mks [of E "map fst items"] d unfolding ok by (simp add: comp_def)
  have db: "list_all (\<lambda>x. distinct (map fst (op_bins x))) ?ops"
    unfolding list_all_length
  proof (intro allI impI)
    fix i assume "i < length ?ops"
    with pi [of i] len show "distinct (map fst (op_bins (?ops ! i)))"
      by (auto simp: put_bins_def distinct_meta_bins)
  qed
  have fr: "view s' k = view s k" if "\<forall>it \<in> set items. k \<notin> owned E (fst it)" for k
  proof (rule batch_write_frame [OF b])
    have "op_key ` set ?ops = (mk_of E \<circ> fst) ` set items"
      using arg_cong [OF ok, of set] by (simp only: set_map)
    with that show "k \<notin> op_key ` set ?ops" by auto
  qed
  have "length bs = length items \<and> (\<forall>i < length items. bs ! i \<longrightarrow>
      intact E (view s') (fst (items ! i)) (mo_bytes (h (snd (items ! i)))))"
    if "bindE q (\<lambda>codes. Inr (map (\<lambda>c. c = AEROSPIKE_OK) codes)) = Inr bs" for bs
  proof -
    from that obtain codes where c: "q = Inr codes" "bs = map (\<lambda>c. c = AEROSPIKE_OK) codes" by (auto simp: bindE_eq_Inr)
    from b c(1) have b': "cl_batch_write (e_client E) ?ops s = (Inr codes, s')" by simp
    have lc: "length codes = length items" using batch_write_length [OF b'] len by simp
    have "intact E (view s') (fst (items ! i)) (mo_bytes (h (snd (items ! i))))"
      if i: "i < length items" "bs ! i" for i
    proof -
      let ?ck = "fst (items ! i)" and ?mo = "h (snd (items ! i))"
      from pi [OF i(1)] obtain p where p: "plans ! i = (?ck, snd (items ! i), p, put_bins E p ?mo pinned time)"
        "plan_for (e_resolved E) (int (length (mo_bytes ?mo))) = Inr p" by blast
      have f: "plan_fits (mo_bytes ?mo) p" by (rule plan_for_fits [OF t p(2)])
      have "\<not> nseg p > 1" using single i(1) len p(1) by (auto simp: list_ex_length)
      with f have n: "nseg p = 1" by (auto simp: plan_fits_def covers_def)
      have "codes ! i = 0" using i lc c(2) by (simp add: AEROSPIKE_OK_def)
      from batch_write_done [OF b' dk db _ this] i(1) len p(1)
      have "view s' (mk_of E ?ck) = write_rec (put_bins E p ?mo pinned time) (view s (mk_of E ?ck))" by simp
      with n have "put_stored E ?ck (mo_bytes ?mo) p (put_bins E p ?mo pinned time) (view s) (view s')"
        by (simp add: put_stored_def)
      from put_stored_content(2,3) [OF this refl refl f] show ?thesis by (simp add: intact_def)
    qed
    with c(2) lc show ?thesis by simp
  qed
  with fr show ?thesis by (simp add: stores_def)
qed

lemma batched_put_chunk_outcome:
  assumes "batched_put_chunk E pinned items w = (r, w')" "distinct (map (\<lambda>it. e_to_string E (fst it)) items)"
    and t: "0 < rl_target_segment_bytes (e_resolved E)"
  shows "heap w' = heap w \<and> stores E (heap w) items (view (srv w)) (view (srv w')) r"
proof (cases "write_policy (e_consts E) (e_cfg E)")
  case (Inl e)
  with assms(1) show ?thesis by (auto simp: batched_put_chunk_def stores_def)
next
  case wp: (Inr wp)
  obtain q w1 where p: "plan_items E pinned items w = (q, w1)" by fastforce
  note po = plan_items_outcome [OF p]
  show ?thesis
  proof (cases q)
    case (Inl e)
    with assms(1) wp p po show ?thesis by (auto simp: batched_put_chunk_def stores_def)
  next
    case (Inr plans)
    with po have pl: "list_all2 (\<lambda>(ck, a) (ck', a', p, b). ck' = ck \<and> a' = a \<and>
        plan_for (e_resolved E) (int (length (mo_bytes (heap w a)))) = Inr p \<and>
        b = put_bins E p (heap w a) pinned (now w)) items plans" by blast
    have items: "map (\<lambda>(ck, a, _, _). (ck, a)) plans = items"
      using pl by (induction rule: list_all2_induct) auto
    show ?thesis
    proof (cases "list_ex (\<lambda>(_, _, p, _). nseg p > 1) plans")
      case True
      with assms(1) wp p Inr items have "put_each E pinned items w1 = (r, w')" by (simp add: batched_put_chunk_def)
      from put_each_outcome [OF this assms(2) t] po show ?thesis by simp
    next
      case False
      obtain q' s where b: "cl_batch_write (e_client E)
          (map (\<lambda>(ck, _, _, mb). BWrite (mk_of E ck) mb (ttl_value E pinned) wp) plans) (srv w1) = (q', s)" by fastforce
      with assms(1) wp p Inr False have "w' = w1\<lparr>srv := s\<rparr>"
        "r = bindE q' (\<lambda>codes. Inr (map (\<lambda>c. c = AEROSPIKE_OK) codes))" by (auto simp: batched_put_chunk_def)
      with batch_put_stores [OF b pl False assms(2) t] po show ?thesis by simp
    qed
  qed
qed

lemma put_chunks_outcome:
  assumes "put_chunks E pinned cs w = (r, w')" "distinct (map (\<lambda>it. e_to_string E (fst it)) (concat cs))"
    and t: "0 < rl_target_segment_bytes (e_resolved E)"
  shows "heap w' = heap w \<and> stores E (heap w) (concat cs) (view (srv w)) (view (srv w')) r"
  using assms(1,2)
proof (induction cs arbitrary: w r w')
  case (Cons c cs)
  obtain q w1 where b: "batched_put_chunk E pinned c w = (q, w1)" by fastforce
  from Cons.prems(2) have d: "distinct (map (\<lambda>it. e_to_string E (fst it)) c)" "distinct (map (\<lambda>it. e_to_string E (fst it)) (concat cs))"
    "distinct (map (\<lambda>it. e_to_string E (fst it)) (c @ concat cs))" by simp_all
  note o = batched_put_chunk_outcome [OF b d(1) t]
  show ?case
  proof (cases q)
    case (Inl e)
    with Cons.prems(1) b have "r = Inl e" "w' = w1" by auto
    with o stores_error [of E "heap w" c "view (srv w)" "view (srv w1)" q "concat cs" e] show ?thesis by simp
  next
    case (Inr bs)
    obtain r' w2 where p: "put_chunks E pinned cs w1 = (r', w2)" by fastforce
    with Cons.prems(1) b Inr have "w' = w2" "r = bindE r' (\<lambda>bs'. Inr (bs @ bs'))" by auto
    moreover from Cons.IH [OF p d(2)] o
    have "heap w2 = heap w" "stores E (heap w) (concat cs) (view (srv w1)) (view (srv w2)) r'" by auto
    ultimately show ?thesis
      using o Inr stores_append [OF _ _ d(3), of "heap w" "view (srv w)" "view (srv w1)" bs "view (srv w2)" r'] by simp
  qed
qed auto

lemma batched_put_outcome:
  assumes "batched_put E items pinned w = (r, w')" "distinct (map (\<lambda>it. e_to_string E (fst it)) items)"
    and t: "0 < rl_target_segment_bytes (e_resolved E)"
  shows "heap w' = heap w \<and> stores E (heap w) items (view (srv w)) (view (srv w')) r"
proof (cases "items = []")
  case True
  with assms(1) show ?thesis by (auto simp: batched_put_def)
next
  case False
  with assms(1) have "timed ''batched_put'' (batched_put_body E items pinned) w = (r, w')" by (simp add: batched_put_def)
  then obtain label w1 where b: "batched_put_body E items pinned w = (label, r, w1)" "srv w' = srv w1" "heap w' = heap w1"
    by (rule timedE)
  obtain q w2 where p: "put_chunks E pinned (chunked items) w = (q, w2)" by fastforce
  from put_chunks_outcome [OF p _ t] assms(2)
  have "heap w2 = heap w \<and> stores E (heap w) items (view (srv w)) (view (srv w2)) q" by (simp add: concat_blocks_of)
  moreover have "w1 = w2 \<and> (q = r \<or> isl r)"
    using b(1) p by (auto simp: batched_put_body_def Let_def case_prod_beta split: sum.splits)
  ultimately show ?thesis using b by (cases r) (auto simp: stores_def)
qed

end

section \<open>Properties\<close>

text \<open>
  C7: a \<open>True\<close> of \<open>batched_get_preallocated\<close> can be trusted. For buffers that are pairwise
  different, the result has one flag per item; wherever the flag is \<open>True\<close>, the key holds a
  committed payload, its checksum (if checked) is right, and the item's buffer starts with
  exactly these bytes in the end, after all later items have been loaded; no object other than
  the buffers has changed, and neither has the database. This covers the early return of
  partial results on a timeout.
\<close>

theorem batched_get_flags_sound:
  assumes "storage_env E view" and "batched_get_preallocated E items w = (Inr flags, w')"
    and "distinct (map snd items)"
  shows "length flags = length items \<and>
    (\<forall>i < length items. flags ! i \<longrightarrow>
       (\<exists>p. payload_of E (view (srv w)) (fst (items ! i)) = Some p \<and> crc_good E (view (srv w)) (fst (items ! i)) p \<and>
          take (length p) (mo_bytes (heap w' (snd (items ! i)))) = p)) \<and>
    (\<forall>c. c \<notin> snd ` set items \<longrightarrow> heap w' c = heap w c) \<and> view (srv w') = view (srv w)"
  using storage_env.batched_get_outcome [OF assms] unfolding holds_def by blast

lemma segment_world_load:
  "fst (batched_get_preallocated sample_engine [(''k'', 1), (''x'', 2)] segment_world) = Inr [True, False]"
  by code_simp

theorem batched_get_flags_sound_witness:
  "\<exists>w'. batched_get_preallocated sample_engine [(''k'', 1), (''x'', 2)] segment_world = (Inr [True, False], w') \<and>
     (\<exists>p. payload_of sample_engine (sv_view (srv segment_world)) ''k'' = Some p \<and>
        take (length p) (mo_bytes (heap w' 1)) = p)"
proof -
  obtain w' where r: "batched_get_preallocated sample_engine [(''k'', 1), (''x'', 2)] segment_world = (Inr [True, False], w')"
    using segment_world_load by (metis prod.collapse)
  from batched_get_flags_sound [OF sample_storage_env r] r show ?thesis by auto
qed

text \<open>
  C6: a \<open>True\<close> of \<open>batched_put\<close> can be trusted. For items with different printed names, if
  \<open>batched_put\<close> returns, it returns one flag per item, and every key whose flag is \<open>True\<close> holds
  its object's bytes afterwards; whether it returns or raises, no key that is not among the
  items has changed its content, and no memory object has changed.
\<close>

theorem batched_put_flags_sound:
  assumes "storage_env E view" and "0 < rl_target_segment_bytes (e_resolved E)"
    and "distinct (map (\<lambda>it. e_to_string E (fst it)) items)"
    and "batched_put E items pinned w = (r, w')"
  shows "heap w' = heap w \<and>
    (\<forall>flags. r = Inr flags \<longrightarrow> length flags = length items \<and>
       (\<forall>i < length items. flags ! i \<longrightarrow>
          payload_of E (view (srv w')) (fst (items ! i)) = Some (mo_bytes (heap w (snd (items ! i)))))) \<and>
    (\<forall>ck. (\<forall>it \<in> set items. \<not> same_name E ck (fst it)) \<longrightarrow>
       payload_of E (view (srv w')) ck = payload_of E (view (srv w)) ck)"
proof -
  note o = storage_env.batched_put_outcome [OF assms(1,4,3,2)]
  have "payload_of E (view (srv w')) ck = payload_of E (view (srv w)) ck"
    if "\<forall>it \<in> set items. \<not> same_name E ck (fst it)" for ck
    using stores_other(1) [OF conjunct2 [OF o] that] .
  with o show ?thesis by (simp add: stores_def intact_def)
qed

theorem batched_put_flags_sound_witness:
  "\<exists>r w'. batched_put sample_engine [(''k'', 0), (''x'', 1)] False sample_world = (r, w') \<and>
     payload_of sample_engine (sv_view (srv w')) ''y'' = None"
proof -
  obtain r w' where p: "batched_put sample_engine [(''k'', 0), (''x'', 1)] False sample_world = (r, w')" by fastforce
  from batched_put_flags_sound [OF sample_storage_env _ _ p] empty_payload p show ?thesis by auto
qed

end
