(* ===== verification/Put_Threads.thy ===== *)
theory Put_Threads
  imports Engine_Batch
begin

text \<open>
  The concurrency of \<open>AerospikeRemoteConnector.batched_put\<close>: \<open>asyncio.gather\<close> starts one \<open>put\<close> per
  item in the thread pool, so their calls of the (thread-safe) client interleave. A put makes
  at most two client calls that change the server, the batch write of the segments and the
  write of the meta record. \<open>put_step\<close> runs a put up to and including its next such call;
  \<open>gather_step\<close> lets any unfinished put make its next step.
\<close>

section \<open>Puts in steps\<close>

datatype 'k put_thread =
    PStart 'k nat
  | PMeta 'k nat bins policy
  | PDone 'k nat "exn + unit"

fun thread_key :: "'k put_thread \<Rightarrow> 'k" where
  "thread_key (PStart ck a) = ck"
| "thread_key (PMeta ck a b wp) = ck"
| "thread_key (PDone ck a r) = ck"

fun is_done :: "'k put_thread \<Rightarrow> bool" where
  "is_done (PDone _ _ _) = True"
| "is_done _ = False"

text \<open>The end of a put: exception translation and the timer.\<close>

definition put_end :: "'k \<Rightarrow> nat \<Rightarrow> exn + unit \<Rightarrow> 's world \<Rightarrow> 'k put_thread \<times> 's world" where
  "put_end ck a r w =
     (let (r', w') = timed ''put'' (\<lambda>w. case r of
            Inr _ \<Rightarrow> (''ok'', Inr (), w)
          | Inl exc \<Rightarrow> (let (label, exc') = write_except ''put'' exc in (label, Inl exc', w))) w
      in (PDone ck a r', w'))"

definition put_meta_call :: "('s, 'k) engine \<Rightarrow> 'k \<Rightarrow> nat \<Rightarrow> bins \<Rightarrow> policy \<Rightarrow> 's world \<Rightarrow> 'k put_thread \<times> 's world" where
  "put_meta_call E ck a mbins wp w =
     (let (r, s) = cl_put (e_client E) (mk_of E ck) mbins (ttl_value E False) wp (srv w)
      in put_end ck a r (w\<lparr>srv := s\<rparr>))"

fun put_step :: "('s, 'k) engine \<Rightarrow> 'k put_thread \<Rightarrow> 's world \<Rightarrow> 'k put_thread \<times> 's world" where
  "put_step E (PStart ck a) w =
     (let mo = heap w a; payload = mo_bytes mo; n = int (length payload) in
      case plan_for (e_resolved E) n of
        Inl e \<Rightarrow> (PDone ck a (Inl e), w)
      | Inr p \<Rightarrow>
          (let w1 = w\<lparr>mets := observe_segments (nseg p) n (mets w)\<rparr>; mbins = put_bins E p mo False (now w) in
           case write_policy (e_consts E) (e_cfg E) of
             Inl e \<Rightarrow> (PDone ck a (Inl e), w1)
           | Inr wp \<Rightarrow>
               if nseg p = 1 then put_meta_call E ck a mbins wp w1
               else
                 (let (r, s) = cl_batch_write (e_client E)
                        (segment_writes E ck payload p (ttl_value E False) wp) (srv w1);
                      w2 = w1\<lparr>srv := s\<rparr>
                  in case r of
                    Inl e \<Rightarrow> put_end ck a (Inl e) w2
                  | Inr codes \<Rightarrow>
                      (case first_error codes of
                         Some c \<Rightarrow> put_end ck a (Inl (Conn (map_aerospike_error ''put-segment'' (result_to_exc c)))) w2
                       | None \<Rightarrow> (PMeta ck a mbins wp, w2)))))"
| "put_step E (PMeta ck a mbins wp) w = put_meta_call E ck a mbins wp w"
| "put_step E (PDone ck a r) w = (PDone ck a r, w)"

text \<open>One put alone: at most two steps.\<close>

definition put_alone :: "('s, 'k) engine \<Rightarrow> 'k \<Rightarrow> nat \<Rightarrow> 's world \<Rightarrow> 'k put_thread \<times> 's world" where
  "put_alone E ck a w = (let (t, w1) = put_step E (PStart ck a) w in put_step E t w1)"

inductive gather_step ::
  "('s, 'k) engine \<Rightarrow> 'k put_thread list \<times> 's world \<Rightarrow> 'k put_thread list \<times> 's world \<Rightarrow> bool"
  for E where
  pick: "i < length ts \<Longrightarrow> \<not> is_done (ts ! i) \<Longrightarrow> put_step E (ts ! i) w = (t, w') \<Longrightarrow>
    gather_step E (ts, w) (ts[i := t], w')"

inductive_cases gather_stepE: "gather_step E (ts, w) c"

section \<open>Steps compose to the engine's put\<close>

lemma put_end_simps:
  "fst (put_end ck a r w) = PDone ck a (case r of Inr _ \<Rightarrow> Inr () | Inl e \<Rightarrow> Inl (snd (write_except ''put'' e)))"
  "srv (snd (put_end ck a r w)) = srv w" "heap (snd (put_end ck a r w)) = heap w" "now (snd (put_end ck a r w)) = now w"
  by (simp_all add: put_end_def case_prod_beta split: sum.splits)

lemma put_end_timed:
  assumes "put_end ck a r (w\<lparr>srv := s\<rparr>) = (t, w')" "put_io E ck payload p mbins ttl wp (srv w) = (r, s)"
  shows "t = PDone ck a (fst (timed ''put'' (put_body E ck payload p mbins ttl wp) w)) \<and>
    w' = snd (timed ''put'' (put_body E ck payload p mbins ttl wp) w)"
  using assms by (cases r) (auto simp: put_end_def timed_def put_body_def case_prod_beta Let_def)

lemma put_step_twice:
  "put_alone E ck a w = (PDone ck a (fst (put E ck a False w)), snd (put E ck a False w))"
proof (cases "plan_for (e_resolved E) (int (length (mo_bytes (heap w a))))")
  case (Inl e)
  then show ?thesis by (simp add: put_alone_def put_def Let_def)
next
  case plan: (Inr p)
  show ?thesis
  proof (cases "write_policy (e_consts E) (e_cfg E)")
    case (Inl e)
    with plan show ?thesis by (simp add: put_alone_def put_def Let_def)
  next
    case (Inr wp)
    let ?b = "mo_bytes (heap w a)" and ?ttl = "ttl_value E False"
    let ?w1 = "w\<lparr>mets := observe_segments (nseg p) (int (length ?b)) (mets w)\<rparr>"
    let ?mb = "put_bins E p (heap w a) False (now w)"
    have put: "put E ck a False w = timed ''put'' (put_body E ck ?b p ?mb ?ttl wp) ?w1"
      using plan Inr by (simp add: put_def Let_def)
    obtain r s where io: "put_io E ck ?b p ?mb ?ttl wp (srv ?w1) = (r, s)" by fastforce
    have "put_alone E ck a w = put_end ck a r (?w1\<lparr>srv := s\<rparr>)"
      using plan Inr io
      by (auto simp: put_alone_def put_io_def put_meta_call_def Let_def put_end_def case_prod_beta
          split: if_splits sum.splits option.splits prod.splits)
    with put_end_timed [OF _ io] put show ?thesis by (metis prod.collapse)
  qed
qed


section \<open>Termination\<close>

fun steps_left :: "'k put_thread \<Rightarrow> nat" where
  "steps_left (PStart _ _) = 2"
| "steps_left (PMeta _ _ _ _) = 1"
| "steps_left (PDone _ _ _) = 0"

lemma put_step_decreases: "\<not> is_done t \<Longrightarrow> steps_left (fst (put_step E t w)) < steps_left t"
  by (cases t)
     (auto simp: put_meta_call_def put_end_simps Let_def case_prod_beta split: sum.splits option.splits)

lemma gather_step_decreases:
  assumes "gather_step E c c'"
  shows "sum_list (map steps_left (fst c')) < sum_list (map steps_left (fst c))"
  using assms
proof cases
  case (pick i ts w t w')
  with put_step_decreases [of "ts ! i" E w] sum_weights_update [of i ts steps_left t] show ?thesis by simp
qed


section \<open>Interleaved puts store what they should\<close>

lemma commit_content:
  assumes "v' (mk_of E ck) = write_rec (put_bins E p mo pinned time) old" "plan_fits (mo_bytes mo) p"
    and "nseg p \<noteq> 1 \<Longrightarrow> (\<forall>i \<in> {0..<nseg p}. rec_payload (v' (sk_of E ck i)) = Some (segment_chunk (mo_bytes mo) p i))"
  shows "payload_of E v' ck = Some (mo_bytes mo)"
proof -
  obtain m where m: "v' (mk_of E ck) = Some m" "write_rec (put_bins E p mo pinned time) old = Some m"
    using assms(1) by (auto simp: write_rec_def)
  note g = write_rec_get [OF m(2)]
  have n: "meta_nseg m = Some (nseg p)" by (simp add: meta_nseg_def g put_bins_def meta_bins_get)
  have "chunks_from E v' ck m (nseg p) = Some (put_chunks_of (mo_bytes mo) p)"
  proof (cases "nseg p = 1")
    case True
    then show ?thesis by (simp add: chunks_from_def put_chunks_of_def rec_payload_def g put_bins_def meta_bins_get)
  next
    case False
    then have "list_all2 (\<lambda>k c. rec_payload (v' k) = Some c) (sks_of E ck (nseg p)) (put_chunks_of (mo_bytes mo) p)"
      using assms(3) by (auto simp: put_chunks_of_def sks_of_eq list_all2_conv_all_nth)
    with False show ?thesis by (simp add: chunks_from_def those_map_iff)
  qed
  with m(1) n assms(2) show ?thesis by (simp add: payload_of_def stored_chunks_def concat_put_chunks)
qed

text \<open>What the records of a thread's key say about it.\<close>

fun thread_inv :: "('s, 'k) engine \<Rightarrow> heap \<Rightarrow> dbview \<Rightarrow> 'k put_thread \<Rightarrow> bool" where
  "thread_inv E h v (PStart ck a) = True"
| "thread_inv E h v (PMeta ck a mbins wp) =
     (\<exists>p time. mbins = put_bins E p (h a) False time \<and> plan_fits (mo_bytes (h a)) p \<and>
        (\<forall>i \<in> {0..<nseg p}. rec_payload (v (sk_of E ck i)) = Some (segment_chunk (mo_bytes (h a)) p i)))"
| "thread_inv E h v (PDone ck a r) = (r = Inr () \<longrightarrow> payload_of E v ck = Some (mo_bytes (h a)))"

lemma thread_inv_cong:
  assumes "\<And>k. k \<in> owned E (thread_key t) \<Longrightarrow> v' k = v k" "thread_inv E h v t"
  shows "thread_inv E h v' t"
proof (cases t)
  case (PMeta ck a mbins wp)
  with assms show ?thesis by auto
next
  case (PDone ck a r)
  with assms content_cong(1) [of E ck v' v] show ?thesis by (auto simp: payload_of_def)
qed simp

lemma thread_key_step [simp]: "thread_key (fst (put_step E t w)) = thread_key t"
  by (cases t) (auto simp: put_meta_call_def put_end_simps Let_def case_prod_beta split: sum.splits option.splits)

lemma heap_step [simp]: "heap (snd (put_step E t w)) = heap w"
  by (cases t) (auto simp: put_meta_call_def put_end_simps Let_def case_prod_beta split: sum.splits option.splits)

context storage_env
begin

lemma put_meta_call_outcome:
  assumes "put_meta_call E ck a mbins wp w = (t, w')" "mbins = put_bins E p (heap w a) False time"
    "plan_fits (mo_bytes (heap w a)) p"
    "nseg p \<noteq> 1 \<Longrightarrow> (\<forall>i \<in> {0..<nseg p}. rec_payload (view (srv w) (sk_of E ck i)) = Some (segment_chunk (mo_bytes (heap w a)) p i))"
  shows "(\<forall>k. k \<notin> owned E ck \<longrightarrow> view (srv w') k = view (srv w) k) \<and> thread_inv E (heap w) (view (srv w')) t"
proof -
  let ?k = "mk_of E ck"
  obtain r s where c: "cl_put (e_client E) ?k mbins (ttl_value E False) wp (srv w) = (r, s)" by fastforce
  have d: "distinct (map fst mbins)" by (simp add: assms(2) put_bins_def distinct_meta_bins)
  have t: "t = PDone ck a (case r of Inr _ \<Rightarrow> Inr () | Inl e \<Rightarrow> Inl (snd (write_except ''put'' e)))" "srv w' = s"
    using assms(1) c put_end_simps(1,2) [of ck a r "w\<lparr>srv := s\<rparr>"] by (simp_all add: put_meta_call_def)
  have v: "view s = view (srv w) \<or> view s = (view (srv w))(?k := write_rec mbins (view (srv w) ?k))"
    using c put_done [OF _ d, of ?k] put_in_doubt [OF _ d, of ?k] by (cases r) auto
  then have fr: "\<forall>k. k \<notin> owned E ck \<longrightarrow> view s k = view (srv w) k" by auto
  have "payload_of E (view s) ck = Some (mo_bytes (heap w a))" if "r = Inr u" for u
  proof (rule commit_content)
    have vs: "view s = (view (srv w))(?k := write_rec mbins (view (srv w) ?k))" using c put_done [OF _ d] that by blast
    then show "view s ?k = write_rec (put_bins E p (heap w a) False time) (view (srv w) ?k)" by (simp add: assms(2))
    show "nseg p \<noteq> 1 \<Longrightarrow> \<forall>i \<in> {0..<nseg p}. rec_payload (view s (sk_of E ck i)) = Some (segment_chunk (mo_bytes (heap w a)) p i)"
      using assms(4) by (auto simp: vs sk_not_mk)
  qed (rule assms(3))
  with fr t show ?thesis by (auto split: sum.splits)
qed

lemma put_step_outcome:
  assumes "put_step E t w = (t', w')" "thread_inv E (heap w) (view (srv w)) t" "0 < rl_target_segment_bytes (e_resolved E)"
  shows "(\<forall>k. k \<notin> owned E (thread_key t) \<longrightarrow> view (srv w') k = view (srv w) k) \<and> thread_inv E (heap w) (view (srv w')) t'"
proof (cases t)
  case (PMeta ck a mbins wp)
  with assms(2) obtain p time where p: "mbins = put_bins E p (heap w a) False time" "plan_fits (mo_bytes (heap w a)) p"
    "\<forall>i \<in> {0..<nseg p}. rec_payload (view (srv w) (sk_of E ck i)) = Some (segment_chunk (mo_bytes (heap w a)) p i)" by auto
  from put_meta_call_outcome [OF _ p(1,2)] p(3) PMeta assms(1) show ?thesis by simp
next
  case (PDone ck a r)
  with assms show ?thesis by auto
next
  case (PStart ck a)
  let ?b = "mo_bytes (heap w a)"
  show ?thesis
  proof (cases "plan_for (e_resolved E) (int (length ?b))")
    case (Inl e)
    with PStart assms(1) show ?thesis by (auto simp: Let_def)
  next
    case plan: (Inr p)
    have f: "plan_fits ?b p" by (rule plan_for_fits [OF assms(3) plan])
    show ?thesis
    proof (cases "write_policy (e_consts E) (e_cfg E)")
      case (Inl e)
      with PStart assms(1) plan show ?thesis by (auto simp: Let_def)
    next
      case (Inr wp)
      let ?w1 = "w\<lparr>mets := observe_segments (nseg p) (int (length ?b)) (mets w)\<rparr>"
      let ?mb = "put_bins E p (heap w a) False (now w)"
      show ?thesis
      proof (cases "nseg p = 1")
        case True
        with PStart assms(1) plan Inr have "put_meta_call E ck a ?mb wp ?w1 = (t', w')" by (simp add: Let_def)
        from put_meta_call_outcome [OF this, of p "now w"] f True PStart show ?thesis by simp
      next
        case False
        obtain r s where b: "cl_batch_write (e_client E) (segment_writes E ck ?b p (ttl_value E False) wp) (srv w) = (r, s)"
          by fastforce
        have fr: "\<forall>k. k \<notin> owned E ck \<longrightarrow> view s k = view (srv w) k" using segment_phase_meta(2) [OF b] by blast
        show ?thesis
        proof (cases "\<exists>codes. r = Inr codes \<and> first_error codes = None")
          case True
          with PStart assms(1) plan Inr False b have t: "t' = PMeta ck a ?mb wp" "srv w' = s" by (auto simp: Let_def)
          have "\<forall>i \<in> {0..<nseg p}. rec_payload (view s (sk_of E ck i)) = Some (segment_chunk ?b p i)"
            using True segment_phase(3) [OF b] by (auto simp: rec_payload_segment)
          with t fr f PStart show ?thesis by auto
        next
          case False
          with PStart assms(1) plan Inr \<open>nseg p \<noteq> 1\<close> b
          obtain e where e: "put_end ck a (Inl e) (?w1\<lparr>srv := s\<rparr>) = (t', w')"
            by (auto simp: Let_def split: sum.splits option.splits)
          then have "t' = PDone ck a (Inl (snd (write_except ''put'' e)))" "srv w' = s"
            using put_end_simps(1,2) [of ck a "Inl e" "?w1\<lparr>srv := s\<rparr>"] by simp_all
          with fr PStart show ?thesis by simp
        qed
      qed
    qed
  qed
qed

text \<open>The invariant of the interleaving.\<close>

definition gather_inv :: "'k list \<Rightarrow> dbview \<Rightarrow> heap \<Rightarrow> 'k put_thread list \<times> 's world \<Rightarrow> bool" where
  "gather_inv cks v0 h c \<longleftrightarrow>
     map thread_key (fst c) = cks \<and> heap (snd c) = h \<and>
     list_all (thread_inv E h (view (srv (snd c)))) (fst c) \<and>
     (\<forall>k. (\<forall>ck \<in> set cks. k \<notin> owned E ck) \<longrightarrow> view (srv (snd c)) k = v0 k)"

lemma gather_inv_step:
  assumes "gather_step E c c'" "gather_inv cks v0 h c" "distinct (map (e_to_string E) cks)"
    "0 < rl_target_segment_bytes (e_resolved E)"
  shows "gather_inv cks v0 h c'"
  using assms(1)
proof cases
  case (pick i ts w t w')
  have inv: "map thread_key ts = cks" "heap w = h" "list_all (thread_inv E h (view (srv w))) ts"
    "\<forall>k. (\<forall>ck \<in> set cks. k \<notin> owned E ck) \<longrightarrow> view (srv w) k = v0 k"
    using assms(2) pick(1) by (auto simp: gather_inv_def)
  have ti: "thread_inv E (heap w) (view (srv w)) (ts ! i)" using inv pick(3) by (simp add: list_all_length)
  note o = put_step_outcome [OF pick(5) ti assms(4)]
  have tk: "thread_key t = thread_key (ts ! i)" "heap w' = heap w"
    using thread_key_step [of E "ts ! i" w] heap_step [of E "ts ! i" w] pick(5) by simp_all
  have key: "thread_key (ts ! i) \<in> set cks" using inv(1) pick(3) by auto
  have "thread_inv E h (view (srv w')) (ts ! j)" if j: "j < length ts" "j \<noteq> i" for j
  proof (rule thread_inv_cong)
    show "thread_inv E h (view (srv w)) (ts ! j)" using inv(3) j by (simp add: list_all_length)
    fix k assume k: "k \<in> owned E (thread_key (ts ! j))"
    have "\<not> same_name E (thread_key (ts ! j)) (thread_key (ts ! i))"
      using assms(3) inv(1) j pick(3) by (auto simp: distinct_conv_nth)
    from owned_disjoint [OF this] k o show "view (srv w') k = view (srv w) k" by blast
  qed
  with o inv(2) pick(3) have "list_all (thread_inv E h (view (srv w'))) (ts[i := t])"
    by (auto simp: list_all_length nth_list_update)
  moreover have "map thread_key (ts[i := t]) = cks"
    using inv(1) tk(1) pick(3) by (metis list_update_id map_update nth_map)
  moreover have "\<forall>k. (\<forall>ck \<in> set cks. k \<notin> owned E ck) \<longrightarrow> view (srv w') k = v0 k" using o inv(4) key by auto
  ultimately show ?thesis using pick(2) inv(2) tk(2) by (simp add: gather_inv_def)
qed

lemma gather_inv_run:
  assumes "(gather_step E)\<^sup>*\<^sup>* c c'" "gather_inv cks v0 h c" "distinct (map (e_to_string E) cks)"
    "0 < rl_target_segment_bytes (e_resolved E)"
  shows "gather_inv cks v0 h c'"
  using assms by (induction rule: rtranclp_induct) (auto intro: gather_inv_step)

end

lemma gather_outcome:
  assumes "storage_env E view" and "0 < rl_target_segment_bytes (e_resolved E)"
    and "distinct (map (\<lambda>it. e_to_string E (fst it)) items)"
    and "(gather_step E)\<^sup>*\<^sup>* (map (\<lambda>(ck, a). PStart ck a) items, w) (ts, w')"
  shows "PDone ck a (Inr ()) \<in> set ts \<Longrightarrow> payload_of E (view (srv w')) ck = Some (mo_bytes (heap w a))"
    and "(\<forall>it \<in> set items. \<not> same_name E ck (fst it)) \<Longrightarrow>
       payload_of E (view (srv w')) ck = payload_of E (view (srv w)) ck"
    and "heap w' = heap w"
proof -
  let ?cks = "map fst items"
  have k0: "map (thread_key \<circ> (\<lambda>(ck, a). PStart ck a)) items = ?cks" by auto
  have "storage_env.gather_inv E view ?cks (view (srv w)) (heap w) (map (\<lambda>(ck, a). PStart ck a) items, w)"
    using k0 by (auto simp: storage_env.gather_inv_def [OF assms(1)] list_all_iff)
  from storage_env.gather_inv_run [OF assms(1,4) this] assms(2,3)
  have inv: "storage_env.gather_inv E view ?cks (view (srv w)) (heap w) (ts, w')" by (simp add: comp_def)
  then show "heap w' = heap w" by (simp add: storage_env.gather_inv_def [OF assms(1)])
  show "payload_of E (view (srv w')) ck = Some (mo_bytes (heap w a))" if "PDone ck a (Inr ()) \<in> set ts"
    using inv that by (fastforce simp: storage_env.gather_inv_def [OF assms(1)] list_all_iff)
  assume n: "\<forall>it \<in> set items. \<not> same_name E ck (fst it)"
  have "view (srv w') k = view (srv w) k" if "k \<in> owned E ck" for k
  proof -
    have "\<forall>ck' \<in> set ?cks. k \<notin> owned E ck'" using n that owned_disjoint [of E ck] by fastforce
    with inv show ?thesis by (simp add: storage_env.gather_inv_def [OF assms(1)])
  qed
  then show "payload_of E (view (srv w')) ck = payload_of E (view (srv w)) ck"
    by (simp add: payload_of_def content_cong(1) [of E ck "view (srv w')" "view (srv w)"])
qed

text \<open>Each put keeps its key and its object.\<close>

fun thread_item :: "'k put_thread \<Rightarrow> 'k \<times> nat" where
  "thread_item (PStart ck a) = (ck, a)"
| "thread_item (PMeta ck a b wp) = (ck, a)"
| "thread_item (PDone ck a r) = (ck, a)"

lemma thread_item_step [simp]: "thread_item (fst (put_step E t w)) = thread_item t"
  by (cases t) (auto simp: put_meta_call_def put_end_simps Let_def case_prod_beta split: sum.splits option.splits)

lemma gather_items: "(gather_step E)\<^sup>*\<^sup>* (ts, w) (ts', w') \<Longrightarrow> map thread_item ts' = map thread_item ts"
proof (induction rule: rtranclp_induct2)
  case (step ts1 w1 ts2 w2)
  from step(2) obtain i t where i: "i < length ts1" "put_step E (ts1 ! i) w1 = (t, w2)" "ts2 = ts1[i := t]"
    by (auto elim: gather_stepE)
  have "thread_item t = thread_item (ts1 ! i)" using thread_item_step [of E "ts1 ! i" w1] i(2) by simp
  with i step(3) show ?case by (metis list_update_id map_update)
qed simp

text \<open>
  Concurrent puts do not disturb each other. Start one put per item, for items with
  different printed names, and let their client calls interleave in any way: in every state
  reached, each put that has returned has its complete payload stored, no matter how the
  others proceed or fail, no other key has changed, and no memory object has changed.
\<close>

theorem gather_puts_stored:
  assumes "storage_env E view" and "0 < rl_target_segment_bytes (e_resolved E)"
    and "distinct (map (\<lambda>it. e_to_string E (fst it)) items)"
    and "(gather_step E)\<^sup>*\<^sup>* (map (\<lambda>(ck, a). PStart ck a) items, w) (ts, w')"
  shows "(\<forall>ck a. PDone ck a (Inr ()) \<in> set ts \<longrightarrow> payload_of E (view (srv w')) ck = Some (mo_bytes (heap w a))) \<and>
    (\<forall>ck. (\<forall>it \<in> set items. \<not> same_name E ck (fst it)) \<longrightarrow>
       payload_of E (view (srv w')) ck = payload_of E (view (srv w)) ck) \<and> heap w' = heap w"
  using gather_outcome [OF assms] by blast

theorem gather_puts_stored_witness:
  "payload_of sample_engine (sv_view (srv (snd (put sample_engine ''k'' 0 False sample_world)))) ''k'' = Some sample_bytes"
proof -
  let ?ts = "map (\<lambda>(ck, a). PStart ck a) [(''k'', 0::nat)]" and ?r = "put sample_engine ''k'' 0 False sample_world"
  obtain t w1 where s1: "put_step sample_engine (PStart ''k'' 0) sample_world = (t, w1)" by fastforce
  obtain t' w2 where s2: "put_step sample_engine t w1 = (t', w2)" by fastforce
  have alone: "t' = PDone ''k'' 0 (fst ?r)" "w2 = snd ?r"
    using put_step_twice [of sample_engine "''k''" 0 sample_world] s1 s2 by (simp_all add: put_alone_def)
  have run: "(gather_step sample_engine)\<^sup>*\<^sup>* (?ts, sample_world) ([t'], w2)"
  proof -
    have "gather_step sample_engine (?ts, sample_world) ([t], w1)"
      using gather_step.pick [of 0 ?ts sample_engine sample_world t w1] s1 by simp
    moreover have "(gather_step sample_engine)\<^sup>*\<^sup>* ([t], w1) ([t'], w2)"
    proof (cases "is_done t")
      case True
      then obtain ck a r where "t = PDone ck a r" by (cases t) auto
      with s2 show ?thesis by simp
    next
      case False
      then show ?thesis using gather_step.pick [of 0 "[t]" sample_engine w1 t' w2] s2 by auto
    qed
    ultimately show ?thesis by (rule converse_rtranclp_into_rtranclp)
  qed
  obtain w3 where ok: "?r = (Inr (), w3)" using sample_put by blast
  have "heap sample_world 0 = sample_mo\<lparr>mo_bytes := sample_bytes\<rparr>" by (simp add: sample_world_def sample_heap_def)
  with gather_puts_stored [OF sample_storage_env _ _ run] alone ok show ?thesis by simp
qed

end
