(* ===== verification/Client_Holder.thy ===== *)
theory Client_Holder
  imports Policies
begin

text \<open>
  \<open>client.py\<close>: the registry of reference-counted client holders, one connected client per
  (hosts, namespace, TLS name). \<open>get_or_create\<close> and \<open>release\<close> run under one lock, so each is one
  atomic step. The client library's constructor, \<open>connect\<close> and \<open>close\<close> are the parameter \<open>cx\<close>;
  \<open>h_closed\<close> records that \<open>close\<close> has been called on a holder's client.
\<close>

section \<open>State\<close>

record client_config =
  cc_hosts :: "(string \<times> int) list"
  cc_read :: policy
  cc_write :: policy
  cc_batch :: policy
  cc_user :: "string option"
  cc_password :: "string option"
  cc_tls :: "string option"

record ('c, 'e) client_lib =
  cx_client :: "client_config \<Rightarrow> 'e \<Rightarrow> (exn + 'c) \<times> 'e"
  cx_connect :: "'c \<Rightarrow> 'e \<Rightarrow> (exn + unit) \<times> 'e"
  cx_close :: "'c \<Rightarrow> 'e \<Rightarrow> (exn + unit) \<times> 'e"

type_synonym holder_key = "(string \<times> int) list \<times> string \<times> string"

record 'c holder =
  h_cfg :: AerospikeConfig
  h_refcount :: int
  h_client :: 'c
  h_closed :: bool

record ('c, 'e) registry =
  rg_registry :: "(holder_key, nat) dict"
  rg_holders :: "'c holder list"
  rg_env :: 'e

definition holder_key :: "AerospikeConfig \<Rightarrow> holder_key" where
  "holder_key cfg = (cfg_hosts cfg, cfg_namespace cfg, cfg_tls_name cfg)"

section \<open>Operations\<close>

definition nonempty :: "string \<Rightarrow> string option" where
  "nonempty s = (if s = [] then None else Some s)"

definition holder_config :: "policy_consts \<Rightarrow> AerospikeConfig \<Rightarrow> exn + client_config" where
  "holder_config consts cfg =
     bindE (read_policy consts cfg) (\<lambda>r.
     bindE (write_policy consts cfg) (\<lambda>w.
     Inr \<lparr>cc_hosts = cfg_hosts cfg, cc_read = r, cc_write = w, cc_batch = batch_policy cfg,
          cc_user = nonempty (cfg_username cfg), cc_password = nonempty (cfg_password cfg),
          cc_tls = nonempty (cfg_tls_name cfg)\<rparr>))"

definition holder_init ::
  "policy_consts \<Rightarrow> ('c, 'e) client_lib \<Rightarrow> AerospikeConfig \<Rightarrow> 'e \<Rightarrow> (exn + 'c holder) \<times> 'e" where
  "holder_init consts cx cfg env =
     (case holder_config consts cfg of
        Inl e \<Rightarrow> (Inl e, env)
      | Inr config \<Rightarrow>
          (let (r, env1) = cx_client cx config env in
           case r of
             Inl e \<Rightarrow> (Inl e, env1)
           | Inr c \<Rightarrow>
               (let (r', env2) = cx_connect cx c env1 in
                case r' of
                  Inl e \<Rightarrow> (Inl e, env2)
                | Inr _ \<Rightarrow> (Inr \<lparr>h_cfg = cfg, h_refcount = 0, h_client = c, h_closed = False\<rparr>, env2))))"

definition add_ref :: "nat \<Rightarrow> ('c, 'e) registry \<Rightarrow> ('c, 'e) registry" where
  "add_ref i st =
     st\<lparr>rg_holders := (rg_holders st)[i := (rg_holders st ! i)\<lparr>h_refcount := h_refcount (rg_holders st ! i) + 1\<rparr>]\<rparr>"

definition get_or_create ::
  "policy_consts \<Rightarrow> ('c, 'e) client_lib \<Rightarrow> AerospikeConfig \<Rightarrow> ('c, 'e) registry \<Rightarrow>
   (exn + nat) \<times> ('c, 'e) registry" where
  "get_or_create consts cx cfg st =
     (let key = holder_key cfg in
      case dict_get (rg_registry st) key of
        Some i \<Rightarrow> (Inr i, add_ref i st)
      | None \<Rightarrow>
          (let (r, env) = holder_init consts cx cfg (rg_env st); st1 = st\<lparr>rg_env := env\<rparr> in
           case r of
             Inl e \<Rightarrow> (Inl e, st1)
           | Inr h \<Rightarrow>
               (let i = length (rg_holders st);
                    st2 = st1\<lparr>rg_holders := rg_holders st @ [h], rg_registry := dict_set key i (rg_registry st)\<rparr>
                in (Inr i, add_ref i st2))))"

definition release :: "('c, 'e) client_lib \<Rightarrow> nat \<Rightarrow> ('c, 'e) registry \<Rightarrow> ('c, 'e) registry" where
  "release cx i st =
     (let h = rg_holders st ! i in
      if h_refcount h \<le> 0 then st
      else
        (let h1 = h\<lparr>h_refcount := h_refcount h - 1\<rparr> in
         if h_refcount h1 > 0 then st\<lparr>rg_holders := (rg_holders st)[i := h1]\<rparr>
         else
           (let (_, env) = cx_close cx (h_client h1) (rg_env st)
            in st\<lparr>rg_holders := (rg_holders st)[i := h1\<lparr>h_closed := True\<rparr>],
                  rg_registry := dict_pop (holder_key (h_cfg h1)) (rg_registry st), rg_env := env\<rparr>)))"

section \<open>The life cycle\<close>

text \<open>\<open>runs pc cx st refs\<close>: the registry state \<open>st\<close> is reached from the empty registry by
  calls of the two operations, in any order, from any thread; \<open>refs\<close> counts for each holder
  the references handed out and not yet given back. Callers give back what they got;
  a release beyond that is the last rule, for holders that have no reference left.\<close>

inductive runs ::
  "policy_consts \<Rightarrow> ('c, 'e) client_lib \<Rightarrow> ('c, 'e) registry \<Rightarrow> (nat \<Rightarrow> nat) \<Rightarrow> bool"
  for pc cx where
  init: "runs pc cx \<lparr>rg_registry = [], rg_holders = [], rg_env = env\<rparr> (\<lambda>_. 0)"
| got: "runs pc cx st refs \<Longrightarrow> get_or_create pc cx cfg st = (Inr i, st') \<Longrightarrow>
    runs pc cx st' (refs(i := Suc (refs i)))"
| failed: "runs pc cx st refs \<Longrightarrow> get_or_create pc cx cfg st = (Inl e, st') \<Longrightarrow> runs pc cx st' refs"
| released: "runs pc cx st refs \<Longrightarrow> 0 < refs i \<Longrightarrow> runs pc cx (release cx i st) (refs(i := refs i - 1))"
| extra_release: "runs pc cx st refs \<Longrightarrow> refs i = 0 \<Longrightarrow> i < length (rg_holders st) \<Longrightarrow>
    runs pc cx (release cx i st) refs"

definition registry_inv :: "('c, 'e) registry \<Rightarrow> (nat \<Rightarrow> nat) \<Rightarrow> bool" where
  "registry_inv st refs \<longleftrightarrow>
     (\<forall>key i. dict_get (rg_registry st) key = Some i \<longrightarrow>
        i < length (rg_holders st) \<and> holder_key (h_cfg (rg_holders st ! i)) = key \<and> 0 < refs i) \<and>
     (\<forall>i < length (rg_holders st).
        h_refcount (rg_holders st ! i) = int (refs i) \<and> (h_closed (rg_holders st ! i) \<longleftrightarrow> refs i = 0) \<and>
        (0 < refs i \<longrightarrow> dict_get (rg_registry st) (holder_key (h_cfg (rg_holders st ! i))) = Some i)) \<and>
     (\<forall>i \<ge> length (rg_holders st). refs i = 0)"

lemma add_ref_inv:
  assumes "registry_inv st refs" "0 < refs i"
  shows "registry_inv (add_ref i st) (refs(i := Suc (refs i)))"
proof -
  have "i < length (rg_holders st)" using assms by (metis not_le not_less0 registry_inv_def)
  with assms show ?thesis by (auto simp: registry_inv_def add_ref_def nth_list_update simp del: split_paired_All)
qed

lemma holder_init_Inr:
  "holder_init pc cx cfg env = (Inr h, env') \<Longrightarrow> h_cfg h = cfg \<and> h_refcount h = 0 \<and> \<not> h_closed h"
  by (auto simp: holder_init_def split: sum.splits prod.splits)

lemma new_holder_inv:
  assumes inv: "registry_inv st refs" and new: "dict_get (rg_registry st) (holder_key cfg) = None"
    and h: "h_cfg h = cfg" "h_refcount h = 0" "\<not> h_closed h"
  shows "registry_inv (add_ref (length (rg_holders st))
      (st\<lparr>rg_env := env, rg_holders := rg_holders st @ [h],
          rg_registry := dict_set (holder_key cfg) (length (rg_holders st)) (rg_registry st)\<rparr>))
    (refs(length (rg_holders st) := Suc (refs (length (rg_holders st)))))"
proof -
  let ?n = "length (rg_holders st)"
  have n0: "refs ?n = 0" using inv by (simp add: registry_inv_def)
  have reg: "i < ?n \<and> holder_key (h_cfg (rg_holders st ! i)) = key \<and> 0 < refs i"
    if "dict_get (rg_registry st) key = Some i" for key i
    using inv that unfolding registry_inv_def by blast
  have old: "holder_key (h_cfg (rg_holders st ! i)) \<noteq> holder_key cfg" if "i < ?n" "0 < refs i" for i
    using inv that new unfolding registry_inv_def by (metis option.distinct(1))
  show ?thesis
    using inv h n0 reg old
    by (auto simp: registry_inv_def add_ref_def nth_append nth_list_update less_Suc_eq dest: reg)
qed

lemma release_inv:
  assumes inv: "registry_inv st refs" and i: "0 < refs i"
  shows "registry_inv (release cx i st) (refs(i := refs i - 1))"
proof -
  have len: "i < length (rg_holders st)" using inv i by (metis not_le not_less0 registry_inv_def)
  have rc: "h_refcount (rg_holders st ! i) = int (refs i)"
    "dict_get (rg_registry st) (holder_key (h_cfg (rg_holders st ! i))) = Some i" "\<not> h_closed (rg_holders st ! i)"
    using inv len i by (auto simp: registry_inv_def)
  show ?thesis
  proof (cases "refs i = 1")
    case False
    with inv i len rc show ?thesis
      by (auto simp: release_def registry_inv_def nth_list_update Let_def)
  next
    case True
    have other: "holder_key (h_cfg (rg_holders st ! j)) \<noteq> holder_key (h_cfg (rg_holders st ! i))"
      if "j < length (rg_holders st)" "0 < refs j" "j \<noteq> i" for j
      using inv that rc(2) by (auto simp: registry_inv_def)
    from inv True len rc other show ?thesis
      by (auto simp: release_def registry_inv_def nth_list_update Let_def split: prod.splits)
  qed
qed

lemma runs_inv: "runs pc cx st refs \<Longrightarrow> registry_inv st refs"
proof (induction rule: runs.induct)
  case (init env)
  then show ?case by (simp add: registry_inv_def)
next
  case (got st refs cfg i st')
  show ?case
  proof (cases "dict_get (rg_registry st) (holder_key cfg)")
    case (Some j)
    with got have ij: "i = j" "st' = add_ref j st" by (auto simp: get_or_create_def)
    have "0 < refs j" using got.IH Some unfolding registry_inv_def by blast
    from add_ref_inv [OF got.IH this] show ?thesis by (simp only: ij)
  next
    case None
    with got.hyps(2) obtain h env where "holder_init pc cx cfg (rg_env st) = (Inr h, env)"
      "i = length (rg_holders st)" "st' = add_ref i (st\<lparr>rg_env := env, rg_holders := rg_holders st @ [h],
          rg_registry := dict_set (holder_key cfg) i (rg_registry st)\<rparr>)"
      by (auto simp: get_or_create_def Let_def split: prod.splits sum.splits)
    with new_holder_inv [OF got.IH None] holder_init_Inr show ?thesis by metis
  qed
next
  case (failed st refs cfg e st')
  then have "\<exists>env. st' = st\<lparr>rg_env := env\<rparr>"
    by (auto simp: get_or_create_def Let_def split: option.splits prod.splits sum.splits)
  with failed.IH show ?case by (auto simp: registry_inv_def)
next
  case (released st refs i)
  then show ?case by (intro release_inv)
next
  case (extra_release st refs i)
  then have "h_refcount (rg_holders st ! i) = 0" by (simp add: registry_inv_def)
  with extra_release.IH show ?case by (simp add: release_def)
qed

section \<open>Properties\<close>

text \<open>
  C16: the life cycle of the shared client. In every state that calls of \<open>get_or_create\<close> and
  \<open>release\<close> can reach, in any interleaving, a holder's reference count is the number of
  references handed out and not given back; its client has been closed exactly when none is
  left, so no user ever has a closed client; and two live holders never share hosts, namespace
  and TLS name.
\<close>

theorem holder_lifecycle:
  assumes "runs pc cx st refs" and "i < length (rg_holders st)" and "j < length (rg_holders st)"
  shows "h_refcount (rg_holders st ! i) = int (refs i) \<and> (h_closed (rg_holders st ! i) \<longleftrightarrow> refs i = 0) \<and>
    (0 < refs i \<and> 0 < refs j \<and> holder_key (h_cfg (rg_holders st ! i)) = holder_key (h_cfg (rg_holders st ! j)) \<longrightarrow> i = j)"
  using runs_inv [OF assms(1)] assms(2,3) unfolding registry_inv_def by (metis option.inject)

definition sample_lib :: "(unit, nat) client_lib" where
  "sample_lib = \<lparr>cx_client = \<lambda>_ n. (Inr (), n), cx_connect = \<lambda>_ n. (Inr (), Suc n),
     cx_close = \<lambda>_ n. (Inl (Builtin RuntimeError), n)\<rparr>"

lemma sample_holder_config: "\<exists>cc. holder_config sample_consts sample_cfg = Inr cc"
proof -
  have "config_ok sample_cfg" by (simp add: sample_cfg_def config_ok_def COMMIT_LEVELS_def REPLICAS_def)
  from read_policy_ok [OF sample_consts_ok this] write_policy_ok [OF sample_consts_ok this]
  show ?thesis by (auto simp: holder_config_def)
qed

theorem holder_lifecycle_witness:
  "\<exists>st refs. runs sample_consts sample_lib st refs \<and> length (rg_holders st) = 1 \<and>
     h_refcount (rg_holders st ! 0) = 0 \<and> h_closed (rg_holders st ! 0)"
proof -
  let ?st0 = "\<lparr>rg_registry = [], rg_holders = [], rg_env = 0\<rparr> :: (unit, nat) registry"
  obtain cc where "holder_config sample_consts sample_cfg = Inr cc" using sample_holder_config by blast
  then obtain st1 where g: "get_or_create sample_consts sample_lib sample_cfg ?st0 = (Inr 0, st1)"
    and l: "length (rg_holders st1) = 1"
    by (simp add: get_or_create_def holder_init_def sample_lib_def add_ref_def)
  have r1: "runs sample_consts sample_lib st1 ((\<lambda>_. 0)(0 := Suc 0))" by (rule runs.got [OF runs.init g])
  then have r2: "runs sample_consts sample_lib (release sample_lib 0 st1) (((\<lambda>_. 0)(0 := Suc 0))(0 := Suc 0 - 1))"
    using runs.released [OF r1, of 0] by simp
  have "length (rg_holders (release sample_lib 0 st1)) = 1"
    using l by (simp add: release_def Let_def split: prod.splits)
  with r2 holder_lifecycle [OF r2, of 0 0] show ?thesis by fastforce
qed

end
