(* ===== verification/Plugin_Support.thy ===== *)
theory Plugin_Support
  imports Put_Threads Client_Holder
begin

text \<open>
  \<open>plugin_support.py\<close>, with the small helpers that the connector, the storage plugin and the
  L2 plugin share: how each of them builds its engine over a connected client, the thread pool
  that runs blocking calls, and lookup with pins. A client object offers the calls of
  \<open>aclient\<close> and the administrative calls below. The base class \<open>RemoteConnector\<close> of LMCache
  is the parameter \<open>mk_base\<close>: what its constructor computes from configuration and metadata.
\<close>

section \<open>Objects the plugins are built from\<close>

text \<open>The user key of a scanned record: a string, bytes, or another value with its \<open>str\<close>.\<close>

datatype ukey = UStr string | UBytes bytes | UOther string

record 's remote_client =
  rc_ops :: "'s aclient"
  rc_info :: "string \<Rightarrow> exn + string option"
  rc_scan :: "string \<Rightarrow> string \<Rightarrow> 's \<Rightarrow> (exn + ukey list) \<times> 's"
  rc_is_connected :: "'s \<Rightarrow> (exn + bool) \<times> 's"
  rc_node_names :: "'s \<Rightarrow> (exn + string list) \<times> 's"

record remote_base =
  rb_save_chunk_meta :: bool
  rb_meta_shapes :: "int list list"
  rb_meta_dtypes :: "string list"
  rb_meta_fmt :: string
  rb_reshape :: "nat \<Rightarrow> nat \<Rightarrow> heap \<Rightarrow> (exn + nat) \<times> heap"

definition from_remote_connector :: "remote_base \<Rightarrow> EngineMetadata" where
  "from_remote_connector base =
     \<lparr>save_chunk_meta = rb_save_chunk_meta base, meta_shapes = rb_meta_shapes base,
      meta_dtypes = rb_meta_dtypes base, meta_fmt = rb_meta_fmt base\<rparr>"

text \<open>\<open>ThreadPoolExecutor\<close>: refuses a non-positive size; after \<open>shutdown\<close> it takes no work.\<close>

record executor =
  ex_workers :: int
  ex_shutdown :: bool

definition thread_pool :: "int \<Rightarrow> exn + executor" where
  "thread_pool n = (if n \<le> 0 then Inl (Builtin ValueError) else Inr \<lparr>ex_workers = n, ex_shutdown = False\<rparr>)"

definition run_in :: "executor \<Rightarrow> ('w \<Rightarrow> (exn + 'a) \<times> 'w) \<Rightarrow> 'w \<Rightarrow> (exn + 'a) \<times> 'w" where
  "run_in ex f w = (if ex_shutdown ex then (Inl (Builtin RuntimeError), w) else f w)"

section \<open>The metadata bridge\<close>

text \<open>\<open>_MetadataBridge\<close> exists for the layout that its base class computes (\<open>remote_base\<close>); as a
  connector it stores and finds nothing.\<close>

definition bridge_exists :: "remote_base \<Rightarrow> 'k \<Rightarrow> bool" where
  "bridge_exists b key = False"

definition bridge_exists_sync :: "remote_base \<Rightarrow> 'k \<Rightarrow> bool" where
  "bridge_exists_sync b key = False"

definition bridge_get :: "remote_base \<Rightarrow> 'k \<Rightarrow> nat option" where
  "bridge_get b key = None"

definition bridge_put :: "remote_base \<Rightarrow> 'k \<Rightarrow> nat \<Rightarrow> 's world \<Rightarrow> 's world" where
  "bridge_put b key memory_obj w = w"

definition bridge_list :: "remote_base \<Rightarrow> string list" where
  "bridge_list b = []"

definition bridge_close :: "remote_base \<Rightarrow> 's world \<Rightarrow> 's world" where
  "bridge_close b w = w"

section \<open>Building engines\<close>

definition build_engine ::
  "(('cfg \<Rightarrow> 'md \<Rightarrow> exn + remote_base) \<times> lmcache_ext \<times> policy_consts \<times> ('k \<Rightarrow> string)) \<Rightarrow>
   'cfg \<Rightarrow> 'md \<Rightarrow> AerospikeConfig \<Rightarrow> 's remote_client \<Rightarrow> allocator \<Rightarrow>
   exn + (('s, 'k) engine \<times> executor \<times> remote_base)" where
  "build_engine P config metadata as_cfg client alloc =
     (let (mk_base, X, consts, to_str) = P in
      bindE (mk_base config metadata) (\<lambda>bridge.
      bindE (discover_and_resolve (rc_info client) as_cfg) (\<lambda>resolved.
      let md = from_remote_connector bridge;
          E = engine_init as_cfg (rc_ops client) md resolved (rb_reshape bridge)
                (allocate_for_read X alloc md) None to_str X consts in
      bindE (thread_pool (cfg_executor_threads as_cfg)) (\<lambda>ex. Inr (E, ex, bridge)))))"

definition l2_metadata :: "string \<Rightarrow> EngineMetadata" where
  "l2_metadata dt =
     \<lparr>save_chunk_meta = False, meta_shapes = [[2, 1, 8, 128]], meta_dtypes = [dt], meta_fmt = ''KV_2LTD''\<rparr>"

definition l2_reshape :: "nat \<Rightarrow> nat \<Rightarrow> heap \<Rightarrow> (exn + nat) \<times> heap" where
  "l2_reshape a bytes_read h = (Inr a, h)"

definition l2_allocate :: "bins \<Rightarrow> heap \<Rightarrow> (exn + nat option \<times> bool) \<times> heap" where
  "l2_allocate b h = (Inr (None, False), h)"

definition build_engine_l2 ::
  "(lmcache_ext \<times> policy_consts \<times> ('k \<Rightarrow> string)) \<Rightarrow> AerospikeConfig \<Rightarrow> 's remote_client \<Rightarrow> string \<Rightarrow>
   exn + (('s, 'k) engine \<times> executor)" where
  "build_engine_l2 P as_cfg client dt =
     (let (X, consts, to_str) = P in
      bindE (discover_and_resolve (rc_info client) as_cfg) (\<lambda>resolved.
      let E = engine_init as_cfg (rc_ops client) (l2_metadata dt) resolved l2_reshape l2_allocate None to_str X consts in
      bindE (thread_pool (cfg_executor_threads as_cfg)) (\<lambda>ex. Inr (E, ex))))"

section \<open>Lookup with pins\<close>

definition contains_and_pin :: "('s, 'k) engine \<Rightarrow> 'k list \<Rightarrow> bool \<Rightarrow> 's world \<Rightarrow> (exn + int) \<times> 's world" where
  "contains_and_pin E keys do_pin w =
     (let (r, w1) = batched_contains E keys w in
      case r of
        Inl e \<Rightarrow> (Inl e, w1)
      | Inr count \<Rightarrow>
          if do_pin \<and> count > 0 then
            (let (r', w2) = pin_keys E (take (nat count) keys) w1 in (bindE r' (\<lambda>_. Inr count), w2))
          else (Inr count, w1))"

section \<open>Lemmas\<close>

lemma thread_pool_Inr: "thread_pool n = Inr ex \<longleftrightarrow> 0 < n \<and> ex = \<lparr>ex_workers = n, ex_shutdown = False\<rparr>"
  by (auto simp: thread_pool_def)

lemma build_engine_Inr:
  assumes "build_engine (mk_base, X, consts, to_str) config metadata as_cfg client alloc = Inr (E, ex, bridge)"
  shows "\<exists>rl. discover_and_resolve (rc_info client) as_cfg = Inr rl \<and> e_resolved E = rl \<and>
    e_cfg E = as_cfg \<and> e_client E = rc_ops client \<and> e_lm E = X \<and> e_consts E = consts \<and>
    e_to_string E = to_str \<and> \<not> ex_shutdown ex \<and> 0 < ex_workers ex"
  using assms by (auto simp: build_engine_def Let_def bindE_eq_Inr thread_pool_Inr)

lemma build_engine_l2_Inr:
  assumes "build_engine_l2 (X, consts, to_str) as_cfg client dt = Inr (E, ex)"
  shows "\<exists>rl. discover_and_resolve (rc_info client) as_cfg = Inr rl \<and> e_resolved E = rl \<and>
    e_cfg E = as_cfg \<and> e_client E = rc_ops client \<and> e_lm E = X \<and> e_consts E = consts \<and>
    e_to_string E = to_str \<and> e_allocate_for_read E = l2_allocate \<and> \<not> ex_shutdown ex \<and> 0 < ex_workers ex"
  using assms by (auto simp: build_engine_l2_def Let_def bindE_eq_Inr thread_pool_Inr)

text \<open>An L2 engine reads only into buffers that the caller provides.\<close>

lemma l2_get_needs_buffer:
  assumes "e_allocate_for_read E = l2_allocate" "get E ck None w = (r, w')"
  shows "r \<noteq> Inr (Some a) \<and> heap w' = heap w"
  using assms(2)
  by (auto simp: get_def timed_def get_body_def get_target_def assms(1) l2_allocate_def get_meta_error_def
      Let_def split: prod.splits sum.splits if_splits)

context storage_env
begin

lemma pin_keys_returns:
  assumes "write_policy (e_consts E) (e_cfg E) = Inr wp"
  shows "fst (pin_keys E cks w) = Inr ()"
proof (cases "cl_batch_write (e_client E) (map (\<lambda>ck. BWrite (mk_of E ck) [(''pin'', BBool True)] (e_pin_ttl E) wp) cks) (srv w)")
  case (Pair r s)
  with assms batch_write_error show ?thesis
    by (cases r) (auto simp: pin_keys_def pin_keys_batch_def)
qed

lemma mask_length:
  assumes "batched_exists_mask E keys w = (r, w')"
  shows "\<exists>hits. r = Inr hits \<and> length hits = length keys"
proof (cases "keys = []")
  case True
  with assms show ?thesis by (auto simp: batched_exists_mask_def timed_def case_prod_beta)
next
  case False
  obtain q s where q: "cl_batch_read (e_client E) (map (mk_of E) keys) [] (srv w) = (q, s)" by fastforce
  with assms False batch_read_length [of "map (mk_of E) keys" "[]" "srv w" _ s] batch_read_error [of "map (mk_of E) keys" "[]" "srv w" _ s]
  show ?thesis by (cases q) (auto simp: batched_exists_mask_def timed_def case_prod_beta)
qed

lemma contains_view: "batched_contains E keys w = (r, w') \<Longrightarrow> view (srv w') = view (srv w)"
  using timed_simps(2) [of "''batched_contains''" _ w]
  by (auto simp: batched_contains_def timed_def Let_def case_prod_beta split: if_splits sum.splits)

end

text \<open>Whatever fails, counted keys are present, and pins change no content.\<close>

lemma contains_and_pin_outcome:
  assumes "storage_env E view" "distinct (map (e_to_string E) keys)" "contains_and_pin E keys p w = (r, w')"
  shows "payload_of E (view (srv w')) = payload_of E (view (srv w))"
    and "r = Inr c \<Longrightarrow> 0 \<le> c \<and> nat c \<le> length keys \<and> (\<forall>i < nat c. view (srv w) (mk_of E (keys ! i)) \<noteq> None)"
proof -
  obtain q w1 where q: "batched_contains E keys w = (q, w1)" by fastforce
  have v: "view (srv w1) = view (srv w)" by (rule storage_env.contains_view [OF assms(1) q])
  have "payload_of E (view (srv w')) = payload_of E (view (srv w)) \<and>
    (\<forall>c. r = Inr c \<longrightarrow> 0 \<le> c \<and> nat c \<le> length keys \<and> (\<forall>i < nat c. view (srv w) (mk_of E (keys ! i)) \<noteq> None))"
  proof (cases q)
    case (Inl e)
    with assms(3) q v show ?thesis by (auto simp: contains_and_pin_def)
  next
    case (Inr n)
    with q have q': "batched_contains E keys w = (Inr n, w1)" by simp
    note s = storage_env.contains_sound [OF assms(1) q']
    obtain q2 w2 where p: "pin_keys E (take (nat n) keys) w1 = (q2, w2)" by fastforce
    have "distinct (map (e_to_string E) (take (nat n) keys))" using assms(2) by (metis distinct_take take_map)
    then have "pin_only (view (srv w1)) (view (srv w2))" by (rule storage_env.pin_keys_outcome(1) [OF assms(1) p])
    then have "payload_of E (view (srv w2)) = payload_of E (view (srv w))"
      using v by (auto simp: fun_eq_iff pin_only_content(2))
    with assms(3) q' p s v show ?thesis
      by (auto simp: contains_and_pin_def bindE_eq_Inr split: if_splits)
  qed
  then show "payload_of E (view (srv w')) = payload_of E (view (srv w))"
    and "r = Inr c \<Longrightarrow> 0 \<le> c \<and> nat c \<le> length keys \<and> (\<forall>i < nat c. view (srv w) (mk_of E (keys ! i)) \<noteq> None)" by auto
qed

end
