(* ===== verification/Connector.thy ===== *)
theory Connector
  imports Plugin_Support
begin

text \<open>
  \<open>connector.py\<close> and \<open>adapter.py\<close>: the remote connector, which runs the engine's operations in a
  thread pool on behalf of LMCache's event loop, and the adapter that creates connectors.
  Where \<open>asyncio.gather\<close> runs calls concurrently, the order of their steps is an argument, the
  schedule, and the properties hold for every schedule: a put moves by the client calls of
  \<open>put_step\<close>; a get of \<open>batched_get_non_blocking\<close> moves as a whole, since gets do not write to
  the database and each fills only the object it has allocated.
\<close>

section \<open>The connector\<close>

record ('s, 'k) connector =
  cn_engine :: "('s, 'k) engine"
  cn_client :: "'s remote_client"
  cn_holder :: nat
  cn_executor :: executor
  cn_batch_sem :: int
  cn_closed :: bool
  cn_list_disabled_logged :: bool

text \<open>\<open>asyncio.Semaphore\<close> refuses a negative value.\<close>

definition semaphore :: "int \<Rightarrow> exn + int" where
  "semaphore n = (if n < 0 then Inl (Builtin ValueError) else Inr n)"

definition connector_init ::
  "(('cfg \<Rightarrow> 'md \<Rightarrow> exn + remote_base) \<times> lmcache_ext \<times> policy_consts \<times> ('k \<Rightarrow> string)) \<Rightarrow>
   'cfg \<Rightarrow> 'md \<Rightarrow> allocator \<Rightarrow> AerospikeConfig \<Rightarrow> nat \<Rightarrow> 's remote_client \<Rightarrow> exn + ('s, 'k) connector" where
  "connector_init P config metadata lcb as_cfg client_holder client =
     (let (mk_base, X, consts, to_str) = P in
      bindE (mk_base config metadata) (\<lambda>base.
      bindE (thread_pool (cfg_executor_threads as_cfg)) (\<lambda>ex.
      bindE (semaphore (cfg_batch_max_in_flight as_cfg)) (\<lambda>sem.
      bindE (discover_and_resolve (rc_info client) as_cfg) (\<lambda>resolved.
      let md = from_remote_connector base in
      Inr \<lparr>cn_engine = engine_init as_cfg (rc_ops client) md resolved (rb_reshape base)
             (allocate_for_read X lcb md) None to_str X consts,
           cn_client = client, cn_holder = client_holder, cn_executor = ex, cn_batch_sem = sem,
           cn_closed = False, cn_list_disabled_logged = False\<rparr>)))))"

definition conn_close ::
  "('c, 'e) client_lib \<Rightarrow> ('s, 'k) connector \<times> ('c, 'e) registry \<Rightarrow> ('s, 'k) connector \<times> ('c, 'e) registry" where
  "conn_close cx st =
     (let (c, reg) = st in
      if cn_closed c then (c, reg)
      else (c\<lparr>cn_closed := True, cn_executor := (cn_executor c)\<lparr>ex_shutdown := True\<rparr>\<rparr>, release cx (cn_holder c) reg))"

text \<open>Views of the engine, and the capabilities that LMCache asks for.\<close>

definition conn_resolved :: "('s, 'k) connector \<Rightarrow> ResolvedLimits" where
  "conn_resolved c = resolved (cn_engine c)"

definition conn_ttl_value :: "('s, 'k) connector \<Rightarrow> bool \<Rightarrow> int" where
  "conn_ttl_value c pinned = ttl_value (cn_engine c) pinned"

definition conn_put_meta :: "('s, 'k) connector \<Rightarrow> int \<Rightarrow> (string, int) dict" where
  "conn_put_meta c ttl = put_meta ttl"

definition support_batched_get :: "('s, 'k) connector \<Rightarrow> bool" where
  "support_batched_get c = True"

definition support_batched_contains :: "('s, 'k) connector \<Rightarrow> bool" where
  "support_batched_contains c = True"

definition support_ping :: "('s, 'k) connector \<Rightarrow> bool" where
  "support_ping c = True"

definition exists_sync :: "('s, 'k) connector \<Rightarrow> 'k \<Rightarrow> 's world \<Rightarrow> (exn + bool) \<times> 's world" where
  "exists_sync c key = Engine.exists (cn_engine c) key"

definition conn_exists :: "('s, 'k) connector \<Rightarrow> 'k \<Rightarrow> 's world \<Rightarrow> (exn + bool) \<times> 's world" where
  "conn_exists c key = run_in (cn_executor c) (Engine.exists (cn_engine c) key)"

definition conn_get :: "('s, 'k) connector \<Rightarrow> 'k \<Rightarrow> 's world \<Rightarrow> (exn + nat option) \<times> 's world" where
  "conn_get c key = run_in (cn_executor c) (get (cn_engine c) key None)"

definition conn_put :: "('s, 'k) connector \<Rightarrow> 'k \<Rightarrow> nat \<Rightarrow> 's world \<Rightarrow> (exn + unit) \<times> 's world" where
  "conn_put c key a = run_in (cn_executor c) (put (cn_engine c) key a False)"

definition conn_batched_contains :: "('s, 'k) connector \<Rightarrow> 'k list \<Rightarrow> 's world \<Rightarrow> (exn + int) \<times> 's world" where
  "conn_batched_contains c keys = batched_contains (cn_engine c) keys"

definition batched_async_contains ::
  "('s, 'k) connector \<Rightarrow> 'k list \<Rightarrow> bool \<Rightarrow> 's world \<Rightarrow> (exn + int) \<times> 's world" where
  "batched_async_contains c keys do_pin = run_in (cn_executor c) (contains_and_pin (cn_engine c) keys do_pin)"

definition remove_sync :: "('s, 'k) connector \<Rightarrow> 'k \<Rightarrow> 's world \<Rightarrow> (exn + bool) \<times> 's world" where
  "remove_sync c key = remove (cn_engine c) key"

section \<open>Batches\<close>

text \<open>\<open>with metrics.track_in_flight(): ...\<close> around a computation on the world.\<close>

definition tracked :: "('s world \<Rightarrow> 'r \<times> 's world) \<Rightarrow> 's world \<Rightarrow> 'r \<times> 's world" where
  "tracked body w =
     (let ((r, w'), m) = track_in_flight (\<lambda>m. let (r, w') = body (w\<lparr>mets := m\<rparr>) in ((r, w'), mets w')) (mets w)
      in (r, w'\<lparr>mets := m\<rparr>))"

fun fetch_all ::
  "('s, 'k) connector \<Rightarrow> 'k list \<Rightarrow> 's world \<Rightarrow> (exn + ('k, nat option) dict) \<times> 's world" where
  "fetch_all c [] w = (Inr [], w)"
| "fetch_all c (k # ks) w =
     (let (r, w1) = conn_get c k w in
      case r of
        Inl e \<Rightarrow> (Inl e, w1)
      | Inr v \<Rightarrow> (let (r', w2) = fetch_all c ks w1 in (bindE r' (\<lambda>d. Inr ((k, v) # d)), w2)))"

fun index_all :: "('k, 'v) dict \<Rightarrow> 'k list \<Rightarrow> exn + 'v list" where
  "index_all d [] = Inr []"
| "index_all d (k # ks) =
     (case dict_get d k of None \<Rightarrow> Inl (Builtin KeyError) | Some v \<Rightarrow> bindE (index_all d ks) (\<lambda>vs. Inr (v # vs)))"

definition conn_batched_get ::
  "('s, 'k) connector \<Rightarrow> 'k list \<Rightarrow> 's world \<Rightarrow> (exn + nat option list) \<times> 's world" where
  "conn_batched_get c keys =
     tracked (\<lambda>w. let (r, w1) = fetch_all c (dict_fromkeys keys) w in (bindE r (\<lambda>d. index_all d keys), w1))"

text \<open>The puts of \<open>batched_put\<close> under a schedule: each entry names the put that makes the next
  step; the exceptions come in the order in which puts end. \<open>gather\<close> raises the first one and
  lets the other puts run on; the world is the one at the end of the schedule.\<close>

fun gather_run ::
  "('s, 'k) engine \<Rightarrow> nat list \<Rightarrow> 'k put_thread list \<times> 's world \<Rightarrow> exn list \<times> 'k put_thread list \<times> 's world" where
  "gather_run E [] (ts, w) = ([], ts, w)"
| "gather_run E (i # sched) (ts, w) =
     (if i < length ts \<and> \<not> is_done (ts ! i) then
        (let (t, w1) = put_step E (ts ! i) w;
             (excs, st) = gather_run E sched (ts[i := t], w1)
         in (case t of PDone _ _ (Inl e) \<Rightarrow> e # excs | _ \<Rightarrow> excs, st))
      else gather_run E sched (ts, w))"

definition conn_batched_put ::
  "('s, 'k) connector \<Rightarrow> 'k list \<Rightarrow> nat list \<Rightarrow> nat list \<Rightarrow> 's world \<Rightarrow> (exn + unit) \<times> 's world" where
  "conn_batched_put c keys objs sched =
     tracked (\<lambda>w.
       if keys = [] \<or> objs = [] then (Inr (), w)
       else run_in (cn_executor c) (\<lambda>w.
         let (excs, ts, w1) = gather_run (cn_engine c) sched (map (\<lambda>(k, a). PStart k a) (zip keys objs), w)
         in (case excs of [] \<Rightarrow> Inr () | e # _ \<Rightarrow> Inl e, w1)) w)"

text \<open>The gets of \<open>batched_get_non_blocking\<close>, in the order of the schedule; results by index.\<close>

fun gets_in ::
  "('s, 'k) connector \<Rightarrow> 'k list \<Rightarrow> nat list \<Rightarrow> (exn + nat option) list \<Rightarrow> 's world \<Rightarrow> (exn + nat option) list \<times> 's world" where
  "gets_in c keys [] rs w = (rs, w)"
| "gets_in c keys (i # sched) rs w =
     (let (r, w1) = conn_get c (keys ! i) w in gets_in c keys sched (rs[i := r]) w1)"

text \<open>The loop over the results.\<close>

fun collect ::
  "(exn + nat option) list \<Rightarrow> bool \<Rightarrow> nat list \<Rightarrow> heap \<Rightarrow> nat list \<times> heap" where
  "collect [] found_failure objs h = (objs, h)"
| "collect (r # rs) found_failure objs h =
     (if found_failure then
        (case r of Inr (Some a) \<Rightarrow> collect rs True objs (ref_count_down a h) | _ \<Rightarrow> collect rs True objs h)
      else
        (case r of Inr (Some a) \<Rightarrow> collect rs False (objs @ [a]) h | _ \<Rightarrow> collect rs True objs h))"

definition batched_get_non_blocking ::
  "('s, 'k) connector \<Rightarrow> 'k list \<Rightarrow> nat list \<Rightarrow> 's world \<Rightarrow> nat list \<times> 's world" where
  "batched_get_non_blocking c keys sched w =
     (let (rs, w1) = gets_in c keys sched (replicate (length keys) (Inr None)) w;
          (objs, h) = collect rs False [] (heap w1)
      in (objs, w1\<lparr>heap := h\<rparr>))"

section \<open>Listing and ping\<close>

text \<open>\<open>decode\<close> is \<open>bytes.decode("utf-8", errors="replace")\<close>.\<close>

fun ukey_str :: "(bytes \<Rightarrow> string) \<Rightarrow> ukey \<Rightarrow> string" where
  "ukey_str decode (UStr s) = s"
| "ukey_str decode (UBytes b) = decode b"
| "ukey_str decode (UOther s) = s"

definition scan_names :: "(bytes \<Rightarrow> string) \<Rightarrow> ukey list \<Rightarrow> string list" where
  "scan_names decode keys =
     concat (map (\<lambda>k. let s = ukey_str decode k in if ends_with ''|m'' s then [take (length s - 2) s] else []) keys)"

definition conn_list ::
  "(bytes \<Rightarrow> string) \<Rightarrow> ('s, 'k) connector \<Rightarrow> 's world \<Rightarrow> (exn + string list) \<times> ('s, 'k) connector \<times> 's world" where
  "conn_list decode c w =
     (let cfg = e_cfg (cn_engine c) in
      if \<not> cfg_enable_list cfg then (Inr [], c\<lparr>cn_list_disabled_logged := True\<rparr>, w)
      else
        (let (r, w1) = run_in (cn_executor c) (\<lambda>w.
               let (r, s) = rc_scan (cn_client c) (cfg_namespace cfg) (cfg_set_name cfg) (srv w)
               in (bindE r (\<lambda>ks. Inr (scan_names decode ks)), w\<lparr>srv := s\<rparr>)) w
         in (r, c, w1)))"

definition ping :: "('s, 'k) connector \<Rightarrow> 's world \<Rightarrow> (exn + int) \<times> 's world" where
  "ping c = run_in (cn_executor c) (\<lambda>w.
     let (r, s) = rc_is_connected (cn_client c) (srv w) in
     case r of
       Inr True \<Rightarrow>
         (let (r', s') = rc_node_names (cn_client c) s in
          case r' of Inr (n # ns) \<Rightarrow> (Inr 0, w\<lparr>srv := s'\<rparr>) | _ \<Rightarrow> (Inr 1, w\<lparr>srv := s'\<rparr>))
     | _ \<Rightarrow> (Inr 1, w\<lparr>srv := s\<rparr>))"

section \<open>The adapter\<close>

text \<open>\<open>extract_plugin_type\<close> belongs to LMCache.\<close>

text \<open>The URL prefix that the adapter registers.\<close>

definition ADAPTER_SCHEMA :: string where
  "ADAPTER_SCHEMA = ''aerospike://''"

definition can_parse :: "(string \<Rightarrow> string) \<Rightarrow> string \<Rightarrow> bool" where
  "can_parse extract_plugin_type url =
     (if starts_with ''aerospike://'' url then True
      else if starts_with ''plugin://'' url then
        extract_plugin_type (drop (length ''plugin://'') url) = ''aerospike''
      else False)"

record lm_config =
  extra_config :: "(string, pyval) dict option"

record 'md cpu_backend =
  bk_config :: "lm_config option"
  bk_metadata :: "'md option"
  bk_allocate :: allocator

record 'md connector_context =
  ctx_backend :: "'md cpu_backend option"
  ctx_config :: "lm_config option"
  ctx_metadata :: "'md option"
  ctx_plugin_name :: "string option"

text \<open>\<open>getattr(lcb, name, None) or default\<close>, and \<open>lcb.allocate\<close> of a missing backend.\<close>

definition or_else :: "'a option \<Rightarrow> 'a option \<Rightarrow> 'a option" where
  "or_else x y = (case x of None \<Rightarrow> y | Some v \<Rightarrow> Some v)"

definition backend_allocate :: "'md cpu_backend option \<Rightarrow> allocator" where
  "backend_allocate lcb sh dt f h =
     (case lcb of None \<Rightarrow> (Inl (Builtin AttributeError), h) | Some b \<Rightarrow> bk_allocate b sh dt f h)"

definition create_connector ::
  "((lm_config option \<Rightarrow> 'md option \<Rightarrow> exn + remote_base) \<times> lmcache_ext \<times> policy_consts \<times> ('k \<Rightarrow> string)) \<Rightarrow>
   ('s remote_client, 'e) client_lib \<Rightarrow> 'md connector_context \<Rightarrow> ('s remote_client, 'e) registry \<Rightarrow>
   (exn + ('s, 'k) connector) \<times> ('s remote_client, 'e) registry" where
  "create_connector P cx ctx reg =
     (let lcb = ctx_backend ctx;
          config = or_else (Option.bind lcb bk_config) (ctx_config ctx);
          metadata = or_else (Option.bind lcb bk_metadata) (ctx_metadata ctx);
          plugin_name = (case ctx_plugin_name ctx of Some (c # cs) \<Rightarrow> c # cs | _ \<Rightarrow> ''aerospike'');
          consts = fst (snd (snd P))
      in case from_extra_config (Option.bind config extra_config) plugin_name None of
        Inl e \<Rightarrow> (Inl e, reg)
      | Inr as_cfg \<Rightarrow>
          (let (r, reg1) = get_or_create consts cx as_cfg reg in
           case r of
             Inl e \<Rightarrow> (Inl e, reg1)
           | Inr i \<Rightarrow>
               (connector_init P config metadata (backend_allocate lcb) as_cfg i (h_client (rg_holders reg1 ! i)), reg1)))"

end
