(* ===== verification/Connector_Props.thy ===== *)
theory Connector_Props
  imports Connector
begin

text \<open>
  Properties of the connector and the adapter: life cycle of a connector and its reference to
  the shared client, batches, listing, and the semaphore that bounds concurrent batches.
\<close>

section \<open>Life cycle\<close>

lemma connector_init_Inr:
  assumes "connector_init (mk_base, X, consts, to_str) config metadata lcb as_cfg i client = Inr c"
  shows "\<exists>rl. discover_and_resolve (rc_info client) as_cfg = Inr rl \<and> e_resolved (cn_engine c) = rl \<and>
    e_client (cn_engine c) = rc_ops client \<and> e_cfg (cn_engine c) = as_cfg \<and> cn_holder c = i \<and>
    \<not> cn_closed c \<and> cn_executor c = \<lparr>ex_workers = cfg_executor_threads as_cfg, ex_shutdown = False\<rparr> \<and>
    cn_batch_sem c = cfg_batch_max_in_flight as_cfg"
  using assms by (auto simp: connector_init_def Let_def bindE_eq_Inr thread_pool_Inr semaphore_def split: if_splits)

lemma create_connectorE:
  assumes "create_connector (mk_base, X, consts, to_str) cx ctx reg = (Inr c, reg')"
  obtains extra name config metadata lcb as_cfg i where
    "from_extra_config extra name None = Inr as_cfg" "get_or_create consts cx as_cfg reg = (Inr i, reg')"
    "connector_init (mk_base, X, consts, to_str) config metadata lcb as_cfg i (h_client (rg_holders reg' ! i)) = Inr c"
  using assms by (auto simp: create_connector_def Let_def split: sum.splits prod.splits)

lemma runs_live:
  assumes "runs consts cx reg refs" "0 < refs i"
  shows "i < length (rg_holders reg) \<and> h_refcount (rg_holders reg ! i) = int (refs i) \<and> \<not> h_closed (rg_holders reg ! i)"
proof -
  have inv: "registry_inv reg refs" by (rule runs_inv [OF assms(1)])
  then have "i < length (rg_holders reg)" using assms(2) by (metis not_le not_less0 registry_inv_def)
  with inv assms(2) show ?thesis by (simp add: registry_inv_def)
qed

text \<open>
  C30: a connector that the adapter creates is ready for use: its limits are within the server's
  record size with the safety margin, its thread pool and batch semaphore have positive size,
  and it works on the client of a holder on which it has its own reference, so that the client
  is open and stays open until the connector gives the reference back.
\<close>

theorem create_connector_ready:
  assumes "runs consts cx reg refs"
    and "create_connector (mk_base, X, consts, to_str) cx ctx reg = (Inr c, reg')"
  shows "limits_ok (e_resolved (cn_engine c)) \<and> 0 < ex_workers (cn_executor c) \<and> 0 < cn_batch_sem c \<and>
    runs consts cx reg' (refs(cn_holder c := Suc (refs (cn_holder c)))) \<and>
    e_client (cn_engine c) = rc_ops (h_client (rg_holders reg' ! cn_holder c)) \<and>
    \<not> h_closed (rg_holders reg' ! cn_holder c)"
proof -
  obtain extra name config metadata lcb as_cfg i where c: "from_extra_config extra name None = Inr as_cfg"
    "get_or_create consts cx as_cfg reg = (Inr i, reg')"
    "connector_init (mk_base, X, consts, to_str) config metadata lcb as_cfg i (h_client (rg_holders reg' ! i)) = Inr c"
    using assms(2) by (rule create_connectorE)
  from connector_init_Inr [OF c(3)] obtain rl where i: "discover_and_resolve (rc_info (h_client (rg_holders reg' ! i))) as_cfg = Inr rl"
    "e_resolved (cn_engine c) = rl" "e_client (cn_engine c) = rc_ops (h_client (rg_holders reg' ! i))" "cn_holder c = i"
    "cn_executor c = \<lparr>ex_workers = cfg_executor_threads as_cfg, ex_shutdown = False\<rparr>"
    "cn_batch_sem c = cfg_batch_max_in_flight as_cfg" by blast
  have r: "runs consts cx reg' (refs(i := Suc (refs i)))" by (rule runs.got [OF assms(1) c(2)])
  from start_up_limits_ok [OF c(1) i(1)] from_extra_config_valid [OF c(1)] i r runs_live [OF r, of i]
  show ?thesis by (simp add: config_ok_def)
qed

text \<open>
  C39: when start-up fails after the client is connected, the reference is lost. If the
  configuration is accepted and a client is obtained, but the server's limits are refused, then
  \<open>create_connector\<close> raises and leaves the holder with one reference more than before, which
  nobody can give back: the client is never closed.
\<close>

theorem create_connector_leaks:
  assumes "runs consts cx reg refs"
    and "from_extra_config (extra_config lc) name None = Inr as_cfg" and "name \<noteq> []"
    and "get_or_create consts cx as_cfg reg = (Inr i, reg')"
    and "discover_and_resolve (rc_info (h_client (rg_holders reg' ! i))) as_cfg = Inl e"
  shows "\<exists>e'. create_connector (mk_base, X, consts, to_str) cx
      \<lparr>ctx_backend = None, ctx_config = Some lc, ctx_metadata = md, ctx_plugin_name = Some name\<rparr> reg = (Inl e', reg') \<and>
    h_refcount (rg_holders reg' ! i) = int (Suc (refs i)) \<and> \<not> h_closed (rg_holders reg' ! i)"
proof -
  have r: "runs consts cx reg' (refs(i := Suc (refs i)))" by (rule runs.got [OF assms(1,4)])
  have n: "(case name of [] \<Rightarrow> ''aerospike'' | c # cs \<Rightarrow> c # cs) = name" using assms(3) by (cases name) auto
  have "\<exists>e'. connector_init (mk_base, X, consts, to_str) (Some lc) md alloc as_cfg i (h_client (rg_holders reg' ! i)) = Inl e'" for alloc
    using assms(5) by (cases "mk_base (Some lc) md"; cases "thread_pool (cfg_executor_threads as_cfg)";
        cases "semaphore (cfg_batch_max_in_flight as_cfg)") (auto simp: connector_init_def)
  with assms(2,4) n runs_live [OF r, of i] show ?thesis
    by (auto simp: create_connector_def or_else_def)
qed


section \<open>A sample start-up\<close>

definition sample_base :: remote_base where
  "sample_base = \<lparr>rb_save_chunk_meta = False, rb_meta_shapes = [[3]], rb_meta_dtypes = [''uint8''],
     rb_meta_fmt = ''KV_2LTD'', rb_reshape = \<lambda>a n h. (Inr a, h)\<rparr>"

definition sample_client :: "(string \<Rightarrow> exn + string option) \<Rightarrow> server remote_client" where
  "sample_client info = \<lparr>rc_ops = ref_client, rc_info = info,
     rc_scan = \<lambda>ns st s. (Inr (map (\<lambda>kv. UStr (snd (snd (fst kv)))) (sv_recs s)), s),
     rc_is_connected = \<lambda>s. (Inr (sv_up s), s), rc_node_names = \<lambda>s. (Inr [''n''], s)\<rparr>"

definition server_lib :: "(string \<Rightarrow> exn + string option) \<Rightarrow> (server remote_client, nat) client_lib" where
  "server_lib info = \<lparr>cx_client = \<lambda>_ n. (Inr (sample_client info), n), cx_connect = \<lambda>_ n. (Inr (), n),
     cx_close = \<lambda>_ n. (Inr (), n)\<rparr>"

definition empty_registry :: "(server remote_client, nat) registry" where
  "empty_registry = \<lparr>rg_registry = [], rg_holders = [], rg_env = 0\<rparr>"

definition sample_context :: "unit connector_context" where
  "sample_context = \<lparr>ctx_backend = None, ctx_config = Some \<lparr>extra_config = Some sample_extra\<rparr>, ctx_metadata = Some (),
     ctx_plugin_name = Some ''a''\<rparr>"

type_synonym plugin_params =
  "(lm_config option \<Rightarrow> unit option \<Rightarrow> exn + remote_base) \<times> lmcache_ext \<times> policy_consts \<times> (string \<Rightarrow> string)"

definition sample_params :: plugin_params where
  "sample_params = (\<lambda>_ _. Inr sample_base, flat_memory [] (build_remote_metadata sample_mo), sample_consts, id)"

definition parsed_cfg :: AerospikeConfig where
  "parsed_cfg = projr (from_extra_config (Some sample_extra) ''a'' None)"

definition bad_info :: "string \<Rightarrow> exn + string option" where
  "bad_info req = Inr None"

lemma parsed_cfg: "from_extra_config (Some sample_extra) ''a'' None = Inr parsed_cfg"
  unfolding parsed_cfg_def by (rule sample_resolves(1))

lemma empty_registry_runs: "runs consts cx empty_registry (\<lambda>_. 0)"
  unfolding empty_registry_def by (rule runs.init)

lemma sample_holder:
  "\<exists>reg. get_or_create sample_consts (server_lib info) parsed_cfg empty_registry = (Inr 0, reg) \<and>
     h_client (rg_holders reg ! 0) = sample_client info"
proof -
  have c: "config_ok parsed_cfg" by (rule from_extra_config_valid [OF parsed_cfg])
  from read_policy_ok [OF sample_consts_ok c] write_policy_ok [OF sample_consts_ok c]
  obtain cc where "holder_config sample_consts parsed_cfg = Inr cc" by (auto simp: holder_config_def)
  then show ?thesis
    by (simp add: get_or_create_def holder_init_def server_lib_def add_ref_def empty_registry_def)
qed

lemma bad_discovery: "\<exists>e. discover_and_resolve bad_info cfg = Inl e"
  by (simp add: discover_and_resolve_def discover_limits_def bad_info_def)

lemma sample_connector:
  "\<exists>c reg. create_connector sample_params (server_lib sample_info) sample_context empty_registry = (Inr c, reg) \<and>
     cn_holder c = 0 \<and> \<not> cn_closed c"
proof -
  obtain reg where g: "get_or_create sample_consts (server_lib sample_info) parsed_cfg empty_registry = (Inr 0, reg)"
    and h: "h_client (rg_holders reg ! 0) = sample_client sample_info" using sample_holder by blast
  have c: "config_ok parsed_cfg" by (rule from_extra_config_valid [OF parsed_cfg])
  obtain rl where rl: "discover_and_resolve sample_info parsed_cfg = Inr rl"
    using sample_resolves(2) unfolding parsed_cfg_def by blast
  have "\<exists>cn. connector_init sample_params config md lcb parsed_cfg 0 (sample_client sample_info) = Inr cn \<and>
      cn_holder cn = 0 \<and> \<not> cn_closed cn" for config md lcb
    using c rl by (simp add: connector_init_def sample_params_def thread_pool_def semaphore_def config_ok_def sample_client_def Let_def)
  with g h parsed_cfg show ?thesis
    by (simp add: create_connector_def sample_context_def or_else_def sample_params_def)
qed

theorem create_connector_ready_witness:
  "\<exists>c reg. create_connector sample_params (server_lib sample_info) sample_context empty_registry = (Inr c, reg) \<and>
     limits_ok (e_resolved (cn_engine c)) \<and> \<not> h_closed (rg_holders reg ! cn_holder c)"
proof -
  obtain c reg where c: "create_connector sample_params (server_lib sample_info) sample_context empty_registry = (Inr c, reg)"
    using sample_connector by blast
  from create_connector_ready [OF empty_registry_runs c [unfolded sample_params_def]] c show ?thesis by auto
qed

theorem create_connector_leaks_witness:
  "\<exists>e reg. create_connector sample_params (server_lib bad_info) sample_context empty_registry = (Inl e, reg) \<and>
     h_refcount (rg_holders reg ! 0) = 1 \<and> \<not> h_closed (rg_holders reg ! 0)"
proof -
  obtain reg where g: "get_or_create sample_consts (server_lib bad_info) parsed_cfg empty_registry = (Inr 0, reg)"
    and h: "h_client (rg_holders reg ! 0) = sample_client bad_info" using sample_holder by blast
  obtain e where "discover_and_resolve (rc_info (h_client (rg_holders reg ! 0))) parsed_cfg = Inl e"
    using bad_discovery [of parsed_cfg] h by (auto simp: sample_client_def)
  from create_connector_leaks [OF empty_registry_runs, of "\<lparr>extra_config = Some sample_extra\<rparr>" "''a''", OF _ _ g this,
      of "\<lambda>_ _. Inr sample_base" "flat_memory [] (build_remote_metadata sample_mo)" id "Some ()"]
  show ?thesis using parsed_cfg by (auto simp: sample_params_def sample_context_def)
qed


end
