(* ===== verification/Connector_Batch.thy ===== *)
theory Connector_Batch
  imports Connector_Props
begin

text \<open>
  The batched operations of the connector: \<open>batched_get\<close> with its removal of duplicates,
  \<open>batched_put\<close> and \<open>batched_get_non_blocking\<close> under every schedule, listing, and the semaphore
  that bounds the batches in flight.
\<close>

definition sample_conn :: "(server, string) connector" where
  "sample_conn = \<lparr>cn_engine = sample_engine, cn_client = sample_client sample_info, cn_holder = 0,
     cn_executor = \<lparr>ex_workers = 4, ex_shutdown = False\<rparr>, cn_batch_sem = 4, cn_closed = False,
     cn_list_disabled_logged = False\<rparr>"

section \<open>Metrics of a get\<close>

lemma mets_read_payload [simp]: "mets (snd (read_payload E ck b n a w)) = mets w"
  by (auto simp: read_payload_def Let_def case_prod_beta split: option.splits sum.splits)

lemma mets_get_into [simp]: "mets (snd (get_into E ck b n a ex w)) = mets w"
  using mets_read_payload [of E ck b n a w]
  by (auto simp: get_into_def Let_def case_prod_beta split: option.splits sum.splits)

lemma mets_get_body [simp]: "mets (snd (snd (get_body E ck pre w))) = mets w"
  by (auto simp: get_body_def Let_def case_prod_beta split: option.splits sum.splits)

lemma get_mets:
  assumes "get E ck pre w = (r, w')"
  shows "m_prom (mets w') = m_prom (mets w)" "m_in_flight (mets w') = m_in_flight (mets w)"
    "\<exists>label. m_ops (mets w') = m_ops (mets w) @ (if m_prom (mets w) then [(''get'', label)] else [])"
proof -
  obtain label q w1 where b: "get_body E ck pre w = (label, q, w1)" by (metis prod.exhaust)
  then have m: "mets w1 = mets w" using mets_get_body [of E ck pre w] by (simp del: mets_get_body)
  have w': "mets w' = observe_op ''get'' label (mets w)"
    using assms b m by (auto simp: get_def timed_def finish_def op_timer_def)
  show "m_prom (mets w') = m_prom (mets w)" "m_in_flight (mets w') = m_in_flight (mets w)"
    "\<exists>label. m_ops (mets w') = m_ops (mets w) @ (if m_prom (mets w) then [(''get'', label)] else [])"
    by (auto simp: w' observe_op_def)
qed

text \<open>The number of observed operations of a kind.\<close>

definition op_count :: "string \<Rightarrow> metrics \<Rightarrow> nat" where
  "op_count opn m = length (filter (\<lambda>x. fst x = opn) (m_ops m))"

section \<open>Batched gets\<close>

lemma index_all_Inr: "index_all d ks = Inr vs \<Longrightarrow> map (dict_get d) ks = map Some vs"
  by (induction ks arbitrary: vs) (auto simp: bindE_eq_Inr split: option.splits)

lemma conn_get_open: "\<not> ex_shutdown (cn_executor c) \<Longrightarrow> conn_get c k = get (cn_engine c) k None"
  by (simp add: conn_get_def run_in_def fun_eq_iff)

lemma fetch_all_outcome:
  assumes "storage_env (cn_engine c) view" "fetch_all c ks w = (Inr d, w')" "\<not> ex_shutdown (cn_executor c)"
  shows "map fst d = ks \<and> view (srv w') = view (srv w) \<and> m_prom (mets w') = m_prom (mets w) \<and>
    m_in_flight (mets w') = m_in_flight (mets w) \<and>
    (m_prom (mets w) \<longrightarrow> op_count ''get'' (mets w') = op_count ''get'' (mets w) + length ks) \<and>
    (\<forall>k a. (k, Some a) \<in> set d \<longrightarrow> payload_of (cn_engine c) (view (srv w)) k \<noteq> None)"
  using assms(2)
proof (induction ks arbitrary: w d)
  case Nil
  then show ?case by simp
next
  case (Cons k ks)
  obtain r w1 where g: "get (cn_engine c) k None w = (r, w1)" by fastforce
  with Cons.prems obtain v d' where d: "r = Inr v" "fetch_all c ks w1 = (Inr d', w')" "d = (k, v) # d'"
    by (auto simp: conn_get_open [OF assms(3)] bindE_eq_Inr Let_def split: sum.splits prod.splits)
  have vw: "view (srv w1) = view (srv w)"
    using storage_env.get_view_unchanged [OF assms(1), of k None w] g by simp
  have hit: "payload_of (cn_engine c) (view (srv w)) k \<noteq> None" if "v = Some a" for a
    using storage_env.get_hit [OF assms(1)] g d(1) that by (metis option.discI)
  from get_mets [OF g] Cons.IH [OF d(2)] vw hit d(3) show ?case by (auto simp: op_count_def)
qed

lemma tracked_mets:
  assumes "tracked body w = (r, w')" "body (w\<lparr>mets := inc_in_flight 1 (mets w)\<rparr>) = (r1, w1)"
  shows "r = r1 \<and> srv w' = srv w1 \<and> heap w' = heap w1 \<and> mets w' = inc_in_flight (- 1) (mets w1)"
  using assms by (auto simp: tracked_def track_in_flight_def Let_def)

lemma m_ops_inc [simp]: "m_ops (inc_in_flight d m) = m_ops m"
  by (simp add: inc_in_flight_def)

text \<open>
  C24: \<open>batched_get\<close> fetches every distinct key exactly once and answers every position: equal
  keys get the same object, an object is returned only for a key that holds a payload, the
  number of engine gets is the number of distinct keys, and the in-flight gauge is restored.
\<close>

theorem batched_get_each_key_once:
  assumes "storage_env (cn_engine c) view" and "\<not> ex_shutdown (cn_executor c)" and "m_prom (mets w)"
    and "conn_batched_get c keys w = (Inr rs, w')"
  shows "length rs = length keys \<and>
    (\<forall>i < length keys. rs ! i \<noteq> None \<longrightarrow> payload_of (cn_engine c) (view (srv w)) (keys ! i) \<noteq> None) \<and>
    (\<forall>i < length keys. \<forall>j < length keys. keys ! i = keys ! j \<longrightarrow> rs ! i = rs ! j) \<and>
    op_count ''get'' (mets w') = op_count ''get'' (mets w) + card (set keys) \<and>
    m_in_flight (mets w') = m_in_flight (mets w) \<and> view (srv w') = view (srv w)"
proof -
  let ?w0 = "w\<lparr>mets := inc_in_flight 1 (mets w)\<rparr>"
  obtain r w1 where f: "fetch_all c (dict_fromkeys keys) ?w0 = (r, w1)" by fastforce
  from tracked_mets [OF assms(4) [unfolded conn_batched_get_def], of "bindE r (\<lambda>d. index_all d keys)" w1] f
  have t: "bindE r (\<lambda>d. index_all d keys) = Inr rs" "srv w' = srv w1" "mets w' = inc_in_flight (- 1) (mets w1)" by auto
  then obtain d where d: "r = Inr d" "index_all d keys = Inr rs" by (auto simp: bindE_eq_Inr)
  note o = fetch_all_outcome [OF assms(1) f [unfolded d(1)] assms(2)]
  note m = index_all_Inr [OF d(2)]
  have len: "length rs = length keys" using m by (metis length_map)
  have nth: "dict_get d (keys ! i) = Some (rs ! i)" if "i < length keys" for i
    using arg_cong [OF m, of "\<lambda>xs. xs ! i"] that len by simp
  have "payload_of (cn_engine c) (view (srv w)) (keys ! i) \<noteq> None" if "i < length keys" "rs ! i \<noteq> None" for i
    using nth [OF that(1)] that(2) o by (fastforce dest: map_of_SomeD)
  moreover have "rs ! i = rs ! j" if "i < length keys" "j < length keys" "keys ! i = keys ! j" for i j
    using nth [OF that(1)] nth [OF that(2)] that(3) by simp
  moreover have "op_count ''get'' (mets w') = op_count ''get'' (mets w) + card (set keys)"
    using o t(3) assms(3) by (simp add: op_count_def length_dict_fromkeys)
  moreover have "m_in_flight (mets w') = m_in_flight (mets w)"
    using o t(3) assms(3) by (simp add: m_in_flight_inc)
  moreover have "view (srv w') = view (srv w)" using o t(2) by simp
  ultimately show ?thesis using len by blast
qed

section \<open>Batched puts under every schedule\<close>

lemma gather_run_steps: "(gather_step E)\<^sup>*\<^sup>* st (snd (gather_run E sched st))"
proof (induction E sched st rule: gather_run.induct)
  case (1 E ts w)
  then show ?case by simp
next
  case (2 E i sched ts w)
  show ?case
  proof (cases "i < length ts \<and> \<not> is_done (ts ! i)")
    case True
    obtain t w1 where p: "put_step E (ts ! i) w = (t, w1)" by fastforce
    have "gather_step E (ts, w) (ts[i := t], w1)" using True p by (intro gather_step.pick) auto
    with 2(1) [OF True p [symmetric]] p True show ?thesis
      by (auto simp: Let_def case_prod_beta intro: converse_rtranclp_into_rtranclp)
  next
    case False
    with 2(2) show ?thesis by auto
  qed
qed

definition thread_failed :: "'k put_thread \<Rightarrow> bool" where
  "thread_failed t \<longleftrightarrow> (case t of PDone _ _ (Inl e) \<Rightarrow> True | _ \<Rightarrow> False)"

text \<open>A schedule that names every put at least twice finishes all; without an exception in
  the list none has failed.\<close>

lemma gather_run_done:
  assumes "gather_run E sched (ts, w) = (excs, ts', w')"
  shows "length ts' = length ts \<and> (\<forall>i < length ts. steps_left (ts' ! i) \<le> steps_left (ts ! i) - count_list sched i) \<and>
    (excs = [] \<longrightarrow> list_all (\<lambda>t. \<not> thread_failed t) ts \<longrightarrow> list_all (\<lambda>t. \<not> thread_failed t) ts')"
  using assms
proof (induction sched arbitrary: ts w excs)
  case Nil
  then show ?case by simp
next
  case (Cons i sched)
  show ?case
  proof (cases "i < length ts \<and> \<not> is_done (ts ! i)")
    case True
    obtain t w1 where p: "put_step E (ts ! i) w = (t, w1)" by fastforce
    obtain excs1 where g: "gather_run E sched (ts[i := t], w1) = (excs1, ts', w')"
      and e: "excs = (case t of PDone _ _ (Inl e) \<Rightarrow> e # excs1 | _ \<Rightarrow> excs1)"
      using Cons.prems True p by (auto simp: Let_def split: prod.splits)
    note ih = Cons.IH [OF g]
    have less: "steps_left t < steps_left (ts ! i)" using put_step_decreases [of "ts ! i" E w] True p by simp
    have "steps_left (ts' ! j) \<le> steps_left (ts ! j) - count_list (i # sched) j" if "j < length ts" for j
      using ih less that True by (cases "j = i") (auto simp: nth_list_update)
    moreover have "list_all (\<lambda>t. \<not> thread_failed t) ts'" if "excs = []" "list_all (\<lambda>t. \<not> thread_failed t) ts"
    proof -
      have "excs1 = []" "\<not> thread_failed t" using that(1) e
        by (auto simp: thread_failed_def split: put_thread.splits sum.splits)
      with that(2) have "list_all (\<lambda>t. \<not> thread_failed t) (ts[i := t])"
        by (auto simp: list_all_iff dest!: set_update_subset_insert [THEN subsetD])
      with ih \<open>excs1 = []\<close> show ?thesis by blast
    qed
    ultimately show ?thesis using ih by simp
  next
    case False
    then have g: "gather_run E sched (ts, w) = (excs, ts', w')" using Cons.prems by auto
    have "steps_left (ts ! i) = 0" if "i < length ts" using False that by (cases "ts ! i") auto
    with Cons.IH [OF g] show ?thesis by (auto simp: less_eq_Suc_le)
  qed
qed

lemma done_ok: "steps_left t = 0 \<Longrightarrow> \<not> thread_failed t \<Longrightarrow> \<exists>ck a. t = PDone ck a (Inr ())"
  by (cases t) (auto simp: thread_failed_def split: sum.splits)

text \<open>The puts of \<open>batched_put\<close>, as they start.\<close>

abbreviation starts :: "'k list \<Rightarrow> nat list \<Rightarrow> 'k put_thread list" where
  "starts keys objs \<equiv> map (\<lambda>(k, a). PStart k a) (zip keys objs)"

lemma gather_run_complete:
  assumes g: "gather_run E sched (starts keys objs, w) = ([], ts, w1)" and "length objs = length keys"
    and "2 \<le> count_list sched i" "i < length keys"
  shows "PDone (keys ! i) (objs ! i) (Inr ()) \<in> set ts"
proof -
  note d = gather_run_done [OF g]
  have "list_all (\<lambda>t. \<not> thread_failed t) (starts keys objs)" by (auto simp: list_all_iff thread_failed_def)
  with d assms(2,4) have nf: "\<not> thread_failed (ts ! i)" by (simp add: list_all_length)
  have "steps_left (starts keys objs ! i) = 2" using assms(2,4) by simp
  with d assms(2-4) have "steps_left (ts ! i) = 0" by fastforce
  from done_ok [OF this nf] obtain ck a where t: "ts ! i = PDone ck a (Inr ())" by blast
  have run: "(gather_step E)\<^sup>*\<^sup>* (starts keys objs, w) (ts, w1)"
    using gather_run_steps [of E "(starts keys objs, w)" sched] g by simp
  have "thread_item (ts ! i) = thread_item (starts keys objs ! i)" using gather_items [OF run] assms(2,4) d
    by (metis (no_types, lifting) length_map length_zip min.idem nth_map)
  with t assms(2,4) have "ts ! i = PDone (keys ! i) (objs ! i) (Inr ())" by auto
  moreover have "i < length ts" using d assms(2,4) by simp
  ultimately show ?thesis by (metis nth_mem)
qed

lemma gather_run_payloads:
  assumes "storage_env E view" "0 < rl_target_segment_bytes (e_resolved E)"
    and "distinct (map (e_to_string E) keys)" "length objs = length keys"
    and g: "gather_run E sched (starts keys objs, w) = (excs, ts, w1)"
  shows "PDone ck a (Inr ()) \<in> set ts \<Longrightarrow> payload_of E (view (srv w1)) ck = Some (mo_bytes (heap w a))"
    and "e_to_string E ck \<notin> e_to_string E ` set keys \<Longrightarrow>
      payload_of E (view (srv w1)) ck = payload_of E (view (srv w)) ck"
proof -
  have run: "(gather_step E)\<^sup>*\<^sup>* (starts keys objs, w) (ts, w1)"
    using gather_run_steps [of E "(starts keys objs, w)" sched] g by simp
  have "map (\<lambda>it. e_to_string E (fst it)) (zip keys objs) = map (e_to_string E) keys"
    using assms(4) by (simp flip: map_map [unfolded comp_def, of "e_to_string E" fst])
  then have names: "distinct (map (\<lambda>it. e_to_string E (fst it)) (zip keys objs))" using assms(3) by simp
  show "payload_of E (view (srv w1)) ck = Some (mo_bytes (heap w a))" if "PDone ck a (Inr ()) \<in> set ts"
    by (rule gather_outcome(1) [OF assms(1,2) names run that])
  assume "e_to_string E ck \<notin> e_to_string E ` set keys"
  then have "\<forall>it \<in> set (zip keys objs). \<not> same_name E ck (fst it)" by (force dest: set_zip_leftD)
  then show "payload_of E (view (srv w1)) ck = payload_of E (view (srv w)) ck"
    by (rule gather_outcome(2) [OF assms(1,2) names run])
qed

lemma conn_batched_put_run:
  assumes "conn_batched_put c keys objs sched w = (r, w')" "keys \<noteq> []" "objs \<noteq> []" "\<not> ex_shutdown (cn_executor c)"
    and "gather_run (cn_engine c) sched (starts keys objs, w\<lparr>mets := inc_in_flight 1 (mets w)\<rparr>) = (excs, ts, w1)"
  shows "srv w' = srv w1 \<and> (r = Inr () \<longrightarrow> excs = [])"
proof -
  have "(if keys = [] \<or> objs = [] then (Inr (), w\<lparr>mets := inc_in_flight 1 (mets w)\<rparr>) else run_in (cn_executor c) (\<lambda>w.
       let (excs, ts, w1) = gather_run (cn_engine c) sched (map (\<lambda>(k, a). PStart k a) (zip keys objs), w)
       in (case excs of [] \<Rightarrow> Inr () | e # _ \<Rightarrow> Inl e, w1)) (w\<lparr>mets := inc_in_flight 1 (mets w)\<rparr>)) =
      (case excs of [] \<Rightarrow> Inr () | e # _ \<Rightarrow> Inl e, w1)" using assms(2-5) by (auto simp: run_in_def)
  from tracked_mets [OF assms(1) [unfolded conn_batched_put_def] this] show ?thesis by (auto split: list.splits)
qed

text \<open>
  C12: \<open>batched_put\<close> that returns has stored everything: for items with different printed names
  and any schedule that lets every put come to its end, a normal return means that each key holds
  the bytes of its object, and keys with other names are unchanged whether it returns or raises.
\<close>

theorem batched_put_all_stored:
  assumes "storage_env (cn_engine c) view" and "0 < rl_target_segment_bytes (e_resolved (cn_engine c))"
    and "distinct (map (e_to_string (cn_engine c)) keys)" and "length objs = length keys"
    and "\<And>i. i < length keys \<Longrightarrow> 2 \<le> count_list sched i"
    and "conn_batched_put c keys objs sched w = (r, w')"
  shows "(r = Inr () \<longrightarrow> (\<forall>i < length keys.
        payload_of (cn_engine c) (view (srv w')) (keys ! i) = Some (mo_bytes (heap w (objs ! i))))) \<and>
    (\<forall>ck. e_to_string (cn_engine c) ck \<notin> e_to_string (cn_engine c) ` set keys \<longrightarrow>
        payload_of (cn_engine c) (view (srv w')) ck = payload_of (cn_engine c) (view (srv w)) ck)"
proof (cases "keys = [] \<or> ex_shutdown (cn_executor c)")
  case True
  with assms(4,6) have "srv w' = srv w \<and> (r = Inr () \<longrightarrow> keys = [])"
    by (auto simp: conn_batched_put_def tracked_def track_in_flight_def run_in_def Let_def split: if_splits)
  then show ?thesis by auto
next
  case False
  let ?w0 = "w\<lparr>mets := inc_in_flight 1 (mets w)\<rparr>"
  obtain excs ts w1 where g: "gather_run (cn_engine c) sched (starts keys objs, ?w0) = (excs, ts, w1)" by (metis prod.exhaust)
  have "objs \<noteq> []" using False assms(4) by auto
  with conn_batched_put_run [OF assms(6) _ _ _ g] False have o: "srv w' = srv w1" "r = Inr () \<longrightarrow> excs = []" by auto
  note pay = gather_run_payloads [OF assms(1-4) g]
  have "payload_of (cn_engine c) (view (srv w1)) (keys ! i) = Some (mo_bytes (heap w (objs ! i)))"
    if "excs = []" "i < length keys" for i
    using pay(1) [OF gather_run_complete [OF g [unfolded that(1)] assms(4) assms(5) [OF that(2)] that(2)]] by simp
  with o pay(2) show ?thesis by simp
qed

theorem batched_put_all_stored_witness:
  "\<exists>w'. conn_batched_put sample_conn [''k''] [0] [0, 0] sample_world = (Inr (), w') \<and>
     payload_of sample_engine (sv_view (srv w')) ''k'' = Some sample_bytes"
proof -
  let ?w0 = "sample_world\<lparr>mets := inc_in_flight 1 (mets sample_world)\<rparr>"
  obtain r w' where p: "conn_batched_put sample_conn [''k''] [0] [0, 0] sample_world = (r, w')" by fastforce
  obtain wp where wp: "write_policy sample_consts sample_cfg = Inr wp" using sample_policy by blast
  have "\<exists>w1. put sample_engine ''k'' 0 False ?w0 = (Inr (), w1)"
    using healthy_env.put_succeeds [OF sample_env, of "?w0" 0 sample_plan wp "''k''" False] wp sample_put_fits
    by (auto simp: sample_plan_for sample_plan_def)
  then have a: "fst (put sample_engine ''k'' 0 False ?w0) = Inr ()" by auto
  have "r = Inr ()"
  proof -
    have "put_alone sample_engine ''k'' 0 ?w0 = (PDone ''k'' 0 (Inr ()), snd (put sample_engine ''k'' 0 False ?w0))"
      using put_step_twice [of sample_engine "''k''" 0 ?w0] a by simp
    then have "fst (gather_run sample_engine [0, 0] ([PStart ''k'' 0], ?w0)) = []"
      by (auto simp: put_alone_def Let_def simp del: put_step.simps(1,2) split: prod.splits put_thread.splits sum.splits)
    then show ?thesis
      using p by (auto simp: conn_batched_put_def tracked_def track_in_flight_def run_in_def sample_conn_def Let_def
          split: prod.splits list.splits simp del: gather_run.simps)
  qed
  moreover have "(r = Inr () \<longrightarrow> (\<forall>i < length [''k'']. payload_of (cn_engine sample_conn) (sv_view (srv w')) ([''k''] ! i) =
      Some (mo_bytes (heap sample_world ([0] ! i))))) \<and>
    (\<forall>ck. e_to_string (cn_engine sample_conn) ck \<notin> e_to_string (cn_engine sample_conn) ` set [''k''] \<longrightarrow>
        payload_of (cn_engine sample_conn) (sv_view (srv w')) ck = payload_of (cn_engine sample_conn) (sv_view (srv sample_world)) ck)"
    by (rule batched_put_all_stored [OF _ _ _ _ _ p])
       (auto simp: sample_conn_def sample_storage_env)
  ultimately show ?thesis using p by (auto simp: sample_conn_def sample_world_def sample_heap_def)
qed

theorem batched_get_each_key_once_witness:
  "\<exists>rs w'. conn_batched_get sample_conn [''k'', ''x'', ''k''] sample_world = (Inr rs, w') \<and> length rs = 3 \<and>
     op_count ''get'' (mets w') = 2"
proof -
  have "\<not> isl (fst (conn_batched_get sample_conn [''k'', ''x'', ''k''] sample_world))" by code_simp
  then obtain rs w' where g: "conn_batched_get sample_conn [''k'', ''x'', ''k''] sample_world = (Inr rs, w')"
    by (metis sum.collapse(2) prod.collapse)
  have "\<not> ex_shutdown (cn_executor sample_conn)" "m_prom (mets sample_world)" "storage_env (cn_engine sample_conn) sv_view"
    "op_count ''get'' (mets sample_world) = 0"
    by (simp_all add: sample_conn_def sample_world_def sample_storage_env op_count_def)
  note s = this
  from batched_get_each_key_once [OF s(3,1,2) g] s(4)
  have "length rs = length [''k'', ''x'', ''k'']" "op_count ''get'' (mets w') = card (set [''k'', ''x'', ''k''])" by simp_all
  moreover have "card (set [''k'', ''x'', ''k'']) = 2" by code_simp
  ultimately show ?thesis using g by simp
qed

section \<open>Non-blocking gets\<close>

fun hit :: "exn + nat option \<Rightarrow> bool" where
  "hit (Inr (Some a)) = True"
| "hit _ = False"

definition hit_object :: "exn + nat option \<Rightarrow> nat" where
  "hit_object r = the (projr r)"

lemma hit_cases: "(\<And>a. r = Inr (Some a) \<Longrightarrow> hit r \<Longrightarrow> P) \<Longrightarrow> (\<not> hit r \<Longrightarrow> P) \<Longrightarrow> P"
  by (cases r rule: hit.cases) auto

lemma collect_miss: "\<not> hit r \<Longrightarrow> collect (r # rs) found objs h = collect rs True objs h"
  by (cases r rule: hit.cases) auto

lemma collect_after:
  "fst (collect rs True objs h) = objs \<and>
   mo_downs (snd (collect rs True objs h) a) = mo_downs (h a) + count_list (map hit_object (filter hit rs)) a \<and>
   mo_bytes (snd (collect rs True objs h) a) = mo_bytes (h a)"
proof (induction rs arbitrary: h)
  case (Cons r rs)
  show ?case
  proof (rule hit_cases [of r])
    fix b assume "r = Inr (Some b)" "hit r"
    with Cons show ?thesis by (simp add: hit_object_def ref_count_down_def)
  next
    assume "\<not> hit r"
    with Cons show ?thesis by (simp add: collect_miss del: collect.simps)
  qed
qed simp

lemma collect_spec:
  "fst (collect rs False objs h) = objs @ map hit_object (takeWhile hit rs) \<and>
   mo_downs (snd (collect rs False objs h) a) = mo_downs (h a) + count_list (map hit_object (filter hit (dropWhile hit rs))) a \<and>
   mo_bytes (snd (collect rs False objs h) a) = mo_bytes (h a)"
proof (induction rs arbitrary: objs)
  case (Cons r rs)
  show ?case
  proof (rule hit_cases [of r])
    fix b assume "r = Inr (Some b)" "hit r"
    with Cons show ?thesis by (simp add: hit_object_def)
  next
    assume "\<not> hit r"
    with collect_after [of rs objs h a] show ?thesis by (simp add: collect_miss del: collect.simps)
  qed
qed simp

lemma gets_in_outcome:
  assumes "storage_env (cn_engine c) view" "gets_in c keys sched rs w = (rs', w')" "\<not> ex_shutdown (cn_executor c)"
    and "\<forall>i < length rs. hit (rs ! i) \<longrightarrow> payload_of (cn_engine c) (view (srv w)) (keys ! i) \<noteq> None"
  shows "length rs' = length rs \<and> view (srv w') = view (srv w) \<and>
    (\<forall>i < length rs. hit (rs' ! i) \<longrightarrow> payload_of (cn_engine c) (view (srv w)) (keys ! i) \<noteq> None)"
  using assms(2,4)
proof (induction sched arbitrary: rs w)
  case (Cons i sched)
  obtain r w1 where g: "get (cn_engine c) (keys ! i) None w = (r, w1)" by fastforce
  with Cons.prems(1) have rest: "gets_in c keys sched (rs[i := r]) w1 = (rs', w')"
    by (simp add: conn_get_open [OF assms(3)])
  have v: "view (srv w1) = view (srv w)" using storage_env.get_view_unchanged [OF assms(1), of "keys ! i" None w] g by simp
  have new: "payload_of (cn_engine c) (view (srv w)) (keys ! i) \<noteq> None" if "hit r"
    using storage_env.get_hit [OF assms(1)] g that by (metis hit_cases option.discI)
  have "payload_of (cn_engine c) (view (srv w1)) (keys ! j) \<noteq> None" if "j < length rs" "hit (rs[i := r] ! j)" for j
    using Cons.prems(2) v new that by (cases "j = i") auto
  then have "\<forall>j < length (rs[i := r]). hit (rs[i := r] ! j) \<longrightarrow> payload_of (cn_engine c) (view (srv w1)) (keys ! j) \<noteq> None"
    by simp
  from Cons.IH [OF rest this] v show ?case by simp
qed simp

text \<open>
  C23: \<open>batched_get_non_blocking\<close> returns the objects of the longest prefix of hits and drops no
  object: under every schedule, each result that is not returned but carries an object gets
  exactly one \<open>ref_count_down\<close>, all other reference counts stay as the gets left them, every
  returned object belongs to a key that holds a payload, and the database is unchanged.
\<close>

theorem batched_get_non_blocking_prefix:
  assumes "storage_env (cn_engine c) view" and "\<not> ex_shutdown (cn_executor c)"
    and "gets_in c keys sched (replicate (length keys) (Inr None)) w = (rs, w1)"
    and "batched_get_non_blocking c keys sched w = (objs, w')"
  shows "objs = map hit_object (takeWhile hit rs) \<and> length objs \<le> length keys \<and>
    (\<forall>i < length objs. payload_of (cn_engine c) (view (srv w)) (keys ! i) \<noteq> None) \<and>
    (\<forall>a. mo_downs (heap w' a) = mo_downs (heap w1 a) + count_list (map hit_object (filter hit (dropWhile hit rs))) a \<and>
       mo_bytes (heap w' a) = mo_bytes (heap w1 a)) \<and>
    view (srv w') = view (srv w)"
proof -
  have "\<forall>i < length (replicate (length keys) (Inr None :: exn + nat option)).
      hit (replicate (length keys) (Inr None) ! i) \<longrightarrow> payload_of (cn_engine c) (view (srv w)) (keys ! i) \<noteq> None"
    by auto
  note o = gets_in_outcome [OF assms(1,3,2) this]
  have c: "objs = fst (collect rs False [] (heap w1))" "heap w' = snd (collect rs False [] (heap w1))" "srv w' = srv w1"
    using assms(3,4) by (auto simp: batched_get_non_blocking_def split: prod.splits)
  have ob: "objs = map hit_object (takeWhile hit rs)" using c(1) collect_spec [of rs "[]" "heap w1"] by simp
  have le: "length objs \<le> length keys" using ob o length_takeWhile_le [of hit rs] by simp
  have "payload_of (cn_engine c) (view (srv w)) (keys ! i) \<noteq> None" if "i < length objs" for i
  proof -
    have i: "i < length (takeWhile hit rs)" using that ob by simp
    then have "hit (rs ! i)" using nth_mem [OF i] by (metis set_takeWhileD takeWhile_nth)
    with o le that show ?thesis by simp
  qed
  with ob le o c collect_spec [of rs "[]" "heap w1"] show ?thesis by simp
qed

theorem batched_get_non_blocking_prefix_witness:
  "fst (batched_get_non_blocking sample_conn [''x'', ''k''] [1, 0] sample_world) = []"
proof -
  obtain rs w1 where g: "gets_in sample_conn [''x'', ''k''] [1, 0] (replicate (length [''x'', ''k'']) (Inr None)) sample_world = (rs, w1)"
    by fastforce
  obtain objs w' where b: "batched_get_non_blocking sample_conn [''x'', ''k''] [1, 0] sample_world = (objs, w')" by fastforce
  have "storage_env (cn_engine sample_conn) sv_view" "\<not> ex_shutdown (cn_executor sample_conn)"
    "payload_of (cn_engine sample_conn) (sv_view (srv sample_world)) ''x'' = None"
    by (simp_all add: sample_conn_def sample_storage_env sample_world_def empty_payload)
  note s = this
  from batched_get_non_blocking_prefix [OF s(1,2) g b]
  have "0 < length objs \<longrightarrow> payload_of (cn_engine sample_conn) (sv_view (srv sample_world)) ([''x'', ''k''] ! 0) \<noteq> None" by blast
  with s(3) b show ?thesis by simp
qed

section \<open>Listing\<close>

lemma ends_with_iff: "ends_with p s \<longleftrightarrow> (\<exists>n. s = n @ p)"
proof
  assume "ends_with p s"
  then show "\<exists>n. s = n @ p" unfolding ends_with_def by (metis append_take_drop_id)
qed (auto simp: ends_with_def)

lemma scan_names_iff: "n \<in> set (scan_names decode ks) \<longleftrightarrow> (\<exists>k \<in> set ks. ukey_str decode k = n @ ''|m'')"
  by (force simp: scan_names_def Let_def ends_with_iff)

text \<open>
  \<open>list\<close> names exactly the chunks with a meta record. If listing is enabled and the scan
  returns the user keys \<open>us\<close>, a name is listed exactly when its meta record's key is among them;
  the key of a segment record is never that of a meta record, so segments are not listed.
\<close>

theorem list_names_meta_records:
  assumes "cfg_enable_list (e_cfg (cn_engine c))" and "\<not> ex_shutdown (cn_executor c)"
    and "rc_scan (cn_client c) (cfg_namespace (e_cfg (cn_engine c))) (cfg_set_name (e_cfg (cn_engine c))) (srv w) = (Inr (map UStr us), s)"
  shows "\<exists>names. conn_list decode c w = (Inr names, c, w\<lparr>srv := s\<rparr>) \<and>
    (\<forall>ck. e_to_string (cn_engine c) ck \<in> set names \<longleftrightarrow> snd (snd (mk_of (cn_engine c) ck)) \<in> set us) \<and>
    (\<forall>ck i n. 0 \<le> i \<longrightarrow> snd (snd (sk_of (cn_engine c) ck i)) \<noteq> n @ ''|m'')"
proof (intro exI conjI)
  show "conn_list decode c w = (Inr (scan_names decode (map UStr us)), c, w\<lparr>srv := s\<rparr>)"
    using assms by (simp add: conn_list_def run_in_def)
  show "\<forall>ck. e_to_string (cn_engine c) ck \<in> set (scan_names decode (map UStr us)) \<longleftrightarrow> snd (snd (mk_of (cn_engine c) ck)) \<in> set us"
    by (auto simp: scan_names_iff mk_of_def meta_key_def)
  show "\<forall>ck i n. 0 \<le> i \<longrightarrow> snd (snd (sk_of (cn_engine c) ck i)) \<noteq> n @ ''|m''"
  proof (intro allI impI notI)
    fix ck and i :: int and n
    assume i: "0 \<le> i" and eq: "snd (snd (sk_of (cn_engine c) ck i)) = n @ ''|m''"
    have "snd (snd (sk_of (cn_engine c) ck i)) = e_to_string (cn_engine c) ck @ ''|s|'' @ str_of_int i"
      unfolding sk_of_def segment_key_def snd_conv by (rule refl)
    with eq meta_ne_segment [OF i, of n "e_to_string (cn_engine c) ck"] show False by argo
  qed
qed

definition listing_conn :: "(server, string) connector" where
  "listing_conn = sample_conn\<lparr>cn_engine := sample_engine\<lparr>e_cfg := sample_cfg\<lparr>cfg_enable_list := True\<rparr>\<rparr>\<rparr>"

theorem list_names_meta_records_witness:
  "\<exists>names. conn_list (\<lambda>_. []) listing_conn segment_world = (Inr names, listing_conn, segment_world) \<and> ''k'' \<in> set names"
proof -
  let ?us = "map (\<lambda>kv. snd (snd (fst kv))) (sv_recs (srv segment_world))"
  have scan: "rc_scan (cn_client listing_conn) (cfg_namespace (e_cfg (cn_engine listing_conn)))
      (cfg_set_name (e_cfg (cn_engine listing_conn))) (srv segment_world) = (Inr (map UStr ?us), srv segment_world)"
    by (simp add: listing_conn_def sample_conn_def sample_client_def)
  have c: "cfg_enable_list (e_cfg (cn_engine listing_conn))" "\<not> ex_shutdown (cn_executor listing_conn)"
    "e_to_string (cn_engine listing_conn) = id"
    by (simp_all add: listing_conn_def sample_conn_def sample_engine_def engine_init_def)
  have "snd (snd (mk_of (cn_engine listing_conn) ''k'')) = ''k|m''" using c(3) by (simp add: mk_of_def meta_key_def)
  moreover have "''k|m'' \<in> set ?us" by code_simp
  ultimately show ?thesis using list_names_meta_records [OF c(1,2) scan, of "\<lambda>_. []"] c(3) by (auto simp del: set_map)
qed

section \<open>The batch semaphore\<close>

text \<open>The calls of one connector that take the semaphore: \<open>batched_get\<close> and \<open>batched_put\<close> hold it
  and are counted by the in-flight gauge; a get of \<open>batched_get_non_blocking\<close> holds it uncounted.\<close>

datatype call = Waiting bool | Running bool | Ended

record slots =
  sl_sem :: int
  sl_gauge :: int
  sl_calls :: "call list"

inductive slot_step :: "slots \<Rightarrow> slots \<Rightarrow> bool" where
  arrive: "slot_step st (st\<lparr>sl_calls := sl_calls st @ [Waiting counted]\<rparr>)"
| acquire: "i < length (sl_calls st) \<Longrightarrow> sl_calls st ! i = Waiting counted \<Longrightarrow> 0 < sl_sem st \<Longrightarrow>
    slot_step st (st\<lparr>sl_sem := sl_sem st - 1, sl_gauge := sl_gauge st + (if counted then 1 else 0),
      sl_calls := (sl_calls st)[i := Running counted]\<rparr>)"
| finish: "i < length (sl_calls st) \<Longrightarrow> sl_calls st ! i = Running counted \<Longrightarrow>
    slot_step st (st\<lparr>sl_sem := sl_sem st + 1, sl_gauge := sl_gauge st - (if counted then 1 else 0),
      sl_calls := (sl_calls st)[i := Ended]\<rparr>)"

definition slots_init :: "('s, 'k) connector \<Rightarrow> slots" where
  "slots_init c = \<lparr>sl_sem = cn_batch_sem c, sl_gauge = 0, sl_calls = []\<rparr>"

definition running :: "slots \<Rightarrow> nat" where
  "running st = length (filter (\<lambda>x. x = Running True \<or> x = Running False) (sl_calls st))"

definition counted_running :: "slots \<Rightarrow> nat" where
  "counted_running st = length (filter (\<lambda>x. x = Running True) (sl_calls st))"

lemma length_filter_update:
  assumes "i < length xs"
  shows "length (filter P (xs[i := y])) + (if P (xs ! i) then 1 else 0) = length (filter P xs) + (if P y then 1 else 0)"
  using assms
proof (induction xs arbitrary: i)
  case (Cons x xs)
  then show ?case by (cases i) auto
qed simp

lemma slot_inv:
  assumes "slot_step\<^sup>*\<^sup>* (slots_init c) st" "0 \<le> cn_batch_sem c"
  shows "sl_sem st + int (running st) = cn_batch_sem c \<and> sl_gauge st = int (counted_running st) \<and> 0 \<le> sl_sem st"
  using assms(1)
proof (induction rule: rtranclp_induct)
  case base
  then show ?case using assms(2) by (simp add: slots_init_def running_def counted_running_def)
next
  case (step st st')
  from step(2) show ?case
  proof cases
    case (arrive counted)
    with step(3) show ?thesis by (simp add: running_def counted_running_def)
  next
    case (acquire i counted)
    with step(3) length_filter_update [OF acquire(2), of "\<lambda>x. x = Running True \<or> x = Running False" "Running counted"]
      length_filter_update [OF acquire(2), of "\<lambda>x. x = Running True" "Running counted"]
    show ?thesis by (cases counted) (auto simp: running_def counted_running_def)
  next
    case (finish i counted)
    with step(3) length_filter_update [OF finish(2), of "\<lambda>x. x = Running True \<or> x = Running False" Ended]
      length_filter_update [OF finish(2), of "\<lambda>x. x = Running True" Ended]
    show ?thesis by (cases counted) (auto simp: running_def counted_running_def)
  qed
qed


text \<open>Entering and leaving, without new calls; a call has at most two steps left.\<close>

definition slot_work :: "slots \<Rightarrow> slots \<Rightarrow> bool" where
  "slot_work st st' \<longleftrightarrow> slot_step st st' \<and> length (sl_calls st') = length (sl_calls st)"

fun call_left :: "call \<Rightarrow> nat" where
  "call_left (Waiting _) = 2"
| "call_left (Running _) = 1"
| "call_left Ended = 0"

definition work_left :: "slots \<Rightarrow> nat" where
  "work_left st = sum_list (map call_left (sl_calls st))"

lemma slot_work_left: "slot_work st st' \<Longrightarrow> work_left st = Suc (work_left st')"
proof -
  assume w: "slot_work st st'"
  then have "slot_step st st'" by (simp add: slot_work_def)
  then show ?thesis
  proof cases
    case (arrive counted)
    with w show ?thesis by (simp add: slot_work_def)
  next
    case (acquire i counted)
    with sum_weights_update [OF acquire(2), of call_left "Running counted"] show ?thesis by (simp add: work_left_def)
  next
    case (finish i counted)
    with sum_weights_update [OF finish(2), of call_left Ended] show ?thesis by (simp add: work_left_def)
  qed
qed

text \<open>The semaphore cannot deadlock: it is taken once per call and given back by it.\<close>

lemma slot_work_possible:
  assumes "slot_step\<^sup>*\<^sup>* (slots_init c) st" "0 < cn_batch_sem c" "0 < work_left st"
  shows "\<exists>st'. slot_work st st'"
proof (cases "\<exists>i < length (sl_calls st). \<exists>b. sl_calls st ! i = Running b")
  case True
  then obtain i b where "i < length (sl_calls st)" "sl_calls st ! i = Running b" by blast
  from slot_step.finish [OF this] show ?thesis by (fastforce simp: slot_work_def)
next
  case False
  then have "running st = 0" by (auto simp: running_def filter_empty_conv in_set_conv_nth)
  then have sem: "0 < sl_sem st" using slot_inv [OF assms(1)] assms(2) by simp
  obtain x where x: "x \<in> set (sl_calls st)" "call_left x \<noteq> 0" using assms(3) unfolding work_left_def neq0_conv [symmetric] sum_list_eq_0_iff by auto
  then obtain i where i: "i < length (sl_calls st)" "sl_calls st ! i = x" by (auto simp: in_set_conv_nth)
  with x(2) False obtain b where "sl_calls st ! i = Waiting b" by (cases x) auto
  from slot_step.acquire [OF i(1) this sem] show ?thesis by (fastforce simp: slot_work_def)
qed

lemma slot_works:
  assumes "(slot_work ^^ n) st st'"
  shows "work_left st = n + work_left st' \<and> slot_step\<^sup>*\<^sup>* st st'"
  using assms
proof (induction n arbitrary: st')
  case (Suc n)
  then obtain st1 where s: "(slot_work ^^ n) st st1" "slot_work st1 st'" by (auto simp: relcompp_apply)
  have "slot_step st1 st'" using s(2) by (simp add: slot_work_def)
  with Suc.IH [OF s(1)] slot_work_left [OF s(2)] show ?case by (auto intro: rtranclp.rtrancl_into_rtrancl)
qed simp

lemma slot_works_possible:
  assumes "slot_step\<^sup>*\<^sup>* (slots_init c) st" "0 < cn_batch_sem c" "n \<le> work_left st"
  shows "\<exists>st'. (slot_work ^^ n) st st'"
  using assms(3)
proof (induction n)
  case (Suc n)
  then obtain st1 where s: "(slot_work ^^ n) st st1" by auto
  from slot_works [OF s] have "work_left st = n + work_left st1" "slot_step\<^sup>*\<^sup>* (slots_init c) st1"
    using assms(1) by (auto intro: rtranclp_trans)
  with slot_work_possible [OF this(2) assms(2)] Suc.prems s show ?case by (auto simp: relcompp_apply)
qed simp

lemma no_work_left: "work_left st = 0 \<longleftrightarrow> list_all (\<lambda>x. x = Ended) (sl_calls st)"
proof -
  have "call_left x = 0 \<longleftrightarrow> x = Ended" for x by (cases x) auto
  then show ?thesis by (simp add: work_left_def sum_list_nonneg_eq_0_iff list_all_iff)
qed


definition two_calls :: slots where
  "two_calls = \<lparr>sl_sem = 4, sl_gauge = 0, sl_calls = [Waiting True, Waiting False]\<rparr>"



end
