(* ===== verification/Get_Threads.thy ===== *)
theory Get_Threads
  imports Put_Threads
begin

text \<open>
  \<open>AerospikeStorageEngine.get\<close> in steps, one client call per step: it reads the meta record and
  then, for a chunk in segments, the segment records. Between the two calls other clients of the
  database go on. Run alone, the steps are the engine's \<open>get\<close>.
\<close>

section \<open>Gets in steps\<close>

text \<open>\<open>GRead\<close> is a get that has read the meta bins, found the number of segments and a target, and
  is about to read the segments; the flag says whether the target is reshaped.\<close>

datatype 'k get_thread =
    GStart 'k "nat option"
  | GRead 'k bins int nat bool
  | GDone 'k "exn + nat option"

text \<open>The end of a get: the timer observes the label.\<close>

definition get_end :: "'k \<Rightarrow> string \<Rightarrow> exn + nat option \<Rightarrow> 's world \<Rightarrow> 'k get_thread \<times> 's world" where
  "get_end ck label r w = (let (r', w') = timed ''get'' (\<lambda>w. (label, r, w)) w in (GDone ck r', w'))"

text \<open>The inner \<open>try\<close>, with its \<open>except\<close> clause.\<close>

definition get_read :: "('s, 'k) engine \<Rightarrow> 'k \<Rightarrow> bins \<Rightarrow> int \<Rightarrow> nat \<Rightarrow> bool \<Rightarrow> 's world \<Rightarrow> 'k get_thread \<times> 's world" where
  "get_read E ck b n a expect_reshape w =
     (let (r, w1) = get_into E ck b n a expect_reshape w in
      case r of
        Inl e \<Rightarrow> get_end ck ''error'' (Inl e) (w1\<lparr>heap := ref_count_down a (heap w1)\<rparr>)
      | Inr (label, res) \<Rightarrow> get_end ck label (Inr res) w1)"

fun get_step :: "('s, 'k) engine \<Rightarrow> 'k get_thread \<Rightarrow> 's world \<Rightarrow> 'k get_thread \<times> 's world" where
  "get_step E (GStart ck pre) w =
     (let (r, s) = cl_get (e_client E) (mk_of E ck) (srv w); w1 = w\<lparr>srv := s\<rparr> in
      case r of
        Inl exc \<Rightarrow> (let (label, res) = get_meta_error exc in get_end ck label res w1)
      | Inr b \<Rightarrow>
          if dict_get b ''state'' \<noteq> Some (BStr ''ready'') then get_end ck ''miss'' (Inr None) w1
          else
            (case int_bin b ''nseg'' of
               Inl e \<Rightarrow> get_end ck ''ok'' (Inl e) w1
             | Inr n \<Rightarrow>
                 (let (t, h) = get_target E pre b (heap w1); w2 = w1\<lparr>heap := h\<rparr> in
                  case t of
                    Inl e \<Rightarrow> get_end ck ''ok'' (Inl e) w2
                  | Inr (None, _) \<Rightarrow> get_end ck ''miss'' (Inr None) w2
                  | Inr (Some a, expect_reshape) \<Rightarrow>
                      if n = 1 then get_read E ck b n a expect_reshape w2
                      else (GRead ck b n a expect_reshape, w2))))"
| "get_step E (GRead ck b n a expect_reshape) w = get_read E ck b n a expect_reshape w"
| "get_step E (GDone ck r) w = (GDone ck r, w)"

definition get_alone :: "('s, 'k) engine \<Rightarrow> 'k \<Rightarrow> nat option \<Rightarrow> 's world \<Rightarrow> 'k get_thread \<times> 's world" where
  "get_alone E ck pre w = (let (t, w1) = get_step E (GStart ck pre) w in get_step E t w1)"

section \<open>Steps compose to the engine's get\<close>

lemma get_end_timed: "body w0 = (label, r, w) \<Longrightarrow> get_end ck label r w = (GDone ck (fst (timed ''get'' body w0)), snd (timed ''get'' body w0))"
  by (simp add: get_end_def timed_def case_prod_beta Let_def)

lemma get_end_done: "get_step E (fst (get_end ck label r w)) w' = (fst (get_end ck label r w), w')"
  by (simp add: get_end_def case_prod_beta)

lemma get_read_done: "get_step E (fst (get_read E ck b n a ex w)) w' = (fst (get_read E ck b n a ex w), w')"
  by (auto simp: get_read_def get_end_def case_prod_beta Let_def split: sum.splits)

lemmas get_done = get_end_done get_read_done

lemma get_end_simps [simp]:
  "fst (get_end ck label r w) = GDone ck r" "srv (snd (get_end ck label r w)) = srv w" "heap (snd (get_end ck label r w)) = heap w"
  by (simp_all add: get_end_def case_prod_beta)

lemma get_steps_twice:
  "get_alone E ck pre w = (GDone ck (fst (get E ck pre w)), snd (get E ck pre w))"
proof -
  obtain r s where c: "cl_get (e_client E) (mk_of E ck) (srv w) = (r, s)" by fastforce
  have alone: "get_alone E ck pre w = get_end ck (fst (get_body E ck pre w)) (fst (snd (get_body E ck pre w))) (snd (snd (get_body E ck pre w)))"
  proof (cases r)
    case (Inl e)
    with c show ?thesis by (simp add: get_alone_def get_body_def case_prod_beta Let_def prod_eq_iff)
  next
    case (Inr b)
    obtain t h where t: "get_target E pre b (heap w) = (t, h)" by fastforce
    let ?w2 = "w\<lparr>srv := s, heap := h\<rparr>"
    show ?thesis
    proof (cases "\<exists>n a ex. dict_get b ''state'' = Some (BStr ''ready'') \<and> int_bin b ''nseg'' = Inr n \<and> t = Inr (Some a, ex)")
      case True
      then obtain n a ex where n: "dict_get b ''state'' = Some (BStr ''ready'')" "int_bin b ''nseg'' = Inr n" "t = Inr (Some a, ex)" by blast
      with c Inr t have "get_alone E ck pre w = get_read E ck b n a ex ?w2"
        by (simp add: get_alone_def get_read_done case_prod_beta Let_def prod_eq_iff)
      with c Inr t n show ?thesis by (auto simp: get_read_def get_body_def split: prod.splits sum.splits)
    next
      case False
      with c Inr t show ?thesis
        by (cases t) (auto simp: get_alone_def get_body_def Let_def case_prod_beta prod_eq_iff split: sum.splits option.splits)
    qed
  qed
  obtain label q w1 where b: "get_body E ck pre w = (label, q, w1)" by (metis prod.exhaust)
  then have "get_end ck label q w1 = (GDone ck (fst (get E ck pre w)), snd (get E ck pre w))"
    unfolding get_def by (rule get_end_timed)
  with alone b show ?thesis by simp
qed


end
