(* ===== verification/Shared_Cluster.thy ===== *)
theory Shared_Cluster
  imports Get_Threads
begin

text \<open>
  Many clients on one database. LMCache names a chunk by a hash of what it holds, so whoever
  stores under a name stores the same bytes (\<open>DESIGN.md\<close>, 4.3.5). Under this condition the clients need no
  coordination: their puts and gets interleave call by call, records are removed, pinned and
  expire at any moment, calls fail at any moment, and still a get returns the bytes of its name
  or nothing. \<open>content\<close> maps names to bytes.
\<close>

section \<open>The system\<close>

datatype 'k task = TPut "'k put_thread" | TGet "'k get_thread"

text \<open>A state of the system: the database, and the running operations, each in a process with a
  memory and metrics of its own (a world whose server part is not used).\<close>

type_synonym ('s, 'k) cluster = "'s \<times> ('k task \<times> 's world) list"

inductive cluster_step ::
  "('s, 'k) engine \<Rightarrow> ('s \<Rightarrow> dbview) \<Rightarrow> (string \<Rightarrow> bytes) \<Rightarrow> ('s, 'k) cluster \<Rightarrow> ('s, 'k) cluster \<Rightarrow> bool"
  for E view content where
  start_put: "mo_bytes (heap w a) = content (e_to_string E ck) \<Longrightarrow>
    cluster_step E view content (s, ts) (s, ts @ [(TPut (PStart ck a), w)])"
| start_get: "cluster_step E view content (s, ts) (s, ts @ [(TGet (GStart ck pre), w)])"
| put: "i < length ts \<Longrightarrow> ts ! i = (TPut t, w) \<Longrightarrow> put_step E t (w\<lparr>srv := s\<rparr>) = (t', w') \<Longrightarrow>
    cluster_step E view content (s, ts) (srv w', ts[i := (TPut t', w')])"
| get: "i < length ts \<Longrightarrow> ts ! i = (TGet g, w) \<Longrightarrow> get_step E g (w\<lparr>srv := s\<rparr>) = (g', w') \<Longrightarrow>
    cluster_step E view content (s, ts) (srv w', ts[i := (TGet g', w')])"
| pin: "distinct (map (e_to_string E) keys) \<Longrightarrow> pin_keys E keys (w\<lparr>srv := s\<rparr>) = (r, w') \<Longrightarrow>
    cluster_step E view content (s, ts) (srv w', ts)"
| unpin: "unpin E ck (w\<lparr>srv := s\<rparr>) = (rb, w') \<Longrightarrow> cluster_step E view content (s, ts) (srv w', ts)"
| remove: "remove E ck (w\<lparr>srv := s\<rparr>) = (rb, w') \<Longrightarrow> cluster_step E view content (s, ts) (srv w', ts)"
| expire: "view s' \<subseteq>\<^sub>m view s \<Longrightarrow> cluster_step E view content (s, ts) (s', ts)"

section \<open>The invariant\<close>

text \<open>A ready meta record names the segments that the planner makes of the content, and holds the
  content itself if that is one record.\<close>

definition meta_coherent :: "('s, 'k) engine \<Rightarrow> bytes \<Rightarrow> recmap \<Rightarrow> int \<Rightarrow> bool" where
  "meta_coherent E c m n \<longleftrightarrow> (\<exists>p. plan_for (e_resolved E) (int (length c)) = Inr p \<and> n = nseg p) \<and>
     (n = 1 \<longrightarrow> rec_payload (Some m) \<in> {None, Some c})"

definition segment_coherent :: "('s, 'k) engine \<Rightarrow> bytes \<Rightarrow> int \<Rightarrow> recmap option \<Rightarrow> bool" where
  "segment_coherent E c i r \<longleftrightarrow>
     (\<forall>p. plan_for (e_resolved E) (int (length c)) = Inr p \<longrightarrow> i < nseg p \<longrightarrow> rec_payload r \<in> {None, Some (segment_chunk c p i)})"

definition rec_coherent :: "('s, 'k) engine \<Rightarrow> (string \<Rightarrow> bytes) \<Rightarrow> akey \<Rightarrow> recmap option \<Rightarrow> bool" where
  "rec_coherent E content k r \<longleftrightarrow>
     (\<forall>ck m n. k = mk_of E ck \<longrightarrow> r = Some m \<longrightarrow> meta_nseg m = Some n \<longrightarrow> meta_coherent E (content (e_to_string E ck)) m n) \<and>
     (\<forall>ck i. 0 \<le> i \<longrightarrow> k = sk_of E ck i \<longrightarrow> segment_coherent E (content (e_to_string E ck)) i r)"

definition coherent :: "('s, 'k) engine \<Rightarrow> (string \<Rightarrow> bytes) \<Rightarrow> dbview \<Rightarrow> bool" where
  "coherent E content v \<longleftrightarrow> (\<forall>k. rec_coherent E content k (v k))"

text \<open>What a get returns: the content at the start of an object, or that object reshaped.\<close>

definition delivered :: "('s, 'k) engine \<Rightarrow> bytes \<Rightarrow> nat \<Rightarrow> heap \<Rightarrow> bool" where
  "delivered E c a' h' \<longleftrightarrow> (\<exists>a ex h. length c \<le> length (mo_bytes (h a)) \<and>
     (if ex then e_reshape E a (length c) (loaded a c h) = (Inr a', h') else a' = a \<and> h' = loaded a c h))"

fun task_ok :: "('s, 'k) engine \<Rightarrow> (string \<Rightarrow> bytes) \<Rightarrow> heap \<Rightarrow> 'k task \<Rightarrow> bool" where
  "task_ok E content h (TPut (PStart ck a)) \<longleftrightarrow> mo_bytes (h a) = content (e_to_string E ck)"
| "task_ok E content h (TPut (PMeta ck a b wp)) \<longleftrightarrow>
     (\<exists>p mo time. plan_for (e_resolved E) (int (length (mo_bytes mo))) = Inr p \<and>
        mo_bytes mo = content (e_to_string E ck) \<and> b = put_bins E p mo False time)"
| "task_ok E content h (TPut (PDone ck a r)) \<longleftrightarrow> True"
| "task_ok E content h (TGet (GStart ck pre)) \<longleftrightarrow> True"
| "task_ok E content h (TGet (GRead ck b n a ex)) \<longleftrightarrow>
     meta_coherent E (content (e_to_string E ck)) (map_of b) n"
| "task_ok E content h (TGet (GDone ck r)) \<longleftrightarrow>
     (\<forall>a'. r = Inr (Some a') \<longrightarrow> delivered E (content (e_to_string E ck)) a' h)"

definition cluster_ok :: "('s, 'k) engine \<Rightarrow> ('s \<Rightarrow> dbview) \<Rightarrow> (string \<Rightarrow> bytes) \<Rightarrow> ('s, 'k) cluster \<Rightarrow> bool" where
  "cluster_ok E view content c \<longleftrightarrow>
     coherent E content (view (fst c)) \<and> (\<forall>(t, w) \<in> set (snd c). task_ok E content (heap w) t)"

section \<open>What calls do to a coherent database\<close>

lemma coherent_change:
  "coherent E content v \<Longrightarrow> (\<And>k. v' k = v k \<or> rec_coherent E content k (v' k)) \<Longrightarrow> coherent E content v'"
  by (metis coherent_def)

lemma rec_coherent_None [simp]: "rec_coherent E content k None"
  by (simp add: rec_coherent_def segment_coherent_def rec_payload_def)

lemma coherent_less: "coherent E content v \<Longrightarrow> v' \<subseteq>\<^sub>m v \<Longrightarrow> coherent E content v'"
  by (erule coherent_change) (metis domIff map_le_def rec_coherent_None)

lemma rec_coherent_cong:
  assumes "rec_coherent E content k r" "rec_payload r' = rec_payload r"
    and "\<And>m' n. r' = Some m' \<Longrightarrow> meta_nseg m' = Some n \<Longrightarrow> \<exists>m. r = Some m \<and> meta_nseg m = Some n"
  shows "rec_coherent E content k r'"
  using assms unfolding rec_coherent_def segment_coherent_def meta_coherent_def by metis

lemma pin_meta:
  assumes "write_rec [(''pin'', BBool x)] r = Some m'" "meta_nseg m' = Some n"
  shows "\<exists>m. r = Some m \<and> meta_nseg m = Some n"
proof (cases r)
  case (Some m)
  have "\<forall>k. k \<noteq> ''pin'' \<longrightarrow> m' k = m k" using write_rec_get [OF assms(1)] Some by (simp add: old_bins_def)
  from meta_nseg_cong [OF this] assms(2) Some show ?thesis by simp
qed (use write_rec_get [OF assms(1)] assms(2) in \<open>simp add: meta_nseg_def old_bins_def\<close>)

lemma coherent_pin: "coherent E content v \<Longrightarrow> pin_only v v' \<Longrightarrow> coherent E content v'"
proof (rule coherent_change, assumption)
  fix k assume c: "coherent E content v" and p: "pin_only v v'"
  from p consider "v' k = v k" | x where "v' k = write_rec [(''pin'', BBool x)] (v k)" by (auto simp: pin_only_def)
  then show "v' k = v k \<or> rec_coherent E content k (v' k)"
  proof cases
    case 2
    have "rec_coherent E content k (v k)" using c by (simp add: coherent_def)
    from rec_coherent_cong [OF this pin_only_rec(1) [OF p]] pin_meta 2 show ?thesis by metis
  qed simp
qed

lemma sk_same:
  assumes "sk_of E ck i = sk_of E ck' j" "0 \<le> i" "0 \<le> j"
  shows "same_name E ck ck' \<and> i = j"
proof
  show n: "same_name E ck ck'" using owned_disjoint [of E ck ck'] assms sk_owned by (metis IntI empty_iff)
  have "sk_of E ck' j = sk_of E ck j" using n by (simp add: sk_of_def segment_key_def)
  with assms sk_eq_iff [of i j E ck] show "i = j" by simp
qed

lemma mk_same: "mk_of E ck = mk_of E ck' \<Longrightarrow> same_name E ck ck'"
  using owned_disjoint [of E ck ck'] mk_owned by (metis IntI empty_iff)

lemma segment_write_coherent:
  assumes "plan_for (e_resolved E) (int (length (content (e_to_string E ck)))) = Inr p" "0 \<le> i"
  shows "rec_coherent E content (sk_of E ck i) (write_rec (segment_bins crc (segment_chunk (content (e_to_string E ck)) p i)) r)"
  using assms sk_not_mk [OF assms(2), of E]
  by (auto simp: rec_coherent_def segment_coherent_def rec_payload_segment dest!: sk_same)

lemma meta_write_coherent:
  assumes "plan_for (e_resolved E) (int (length (mo_bytes mo))) = Inr p" "mo_bytes mo = content (e_to_string E ck)"
  shows "rec_coherent E content (mk_of E ck) (write_rec (put_bins E p mo pinned time) r)"
proof -
  obtain m where m: "write_rec (put_bins E p mo pinned time) r = Some m" by (simp add: write_rec_def)
  note g = write_rec_get [OF m]
  have "meta_nseg m = Some (nseg p)" by (simp add: meta_nseg_def g put_bins_def meta_bins_get)
  moreover have "nseg p = 1 \<Longrightarrow> rec_payload (Some m) = Some (mo_bytes mo)"
    by (simp add: rec_payload_def g put_bins_def meta_bins_get)
  ultimately have "meta_coherent E (content (e_to_string E ck)) m n" if "meta_nseg m = Some n" for n
    using assms that by (auto simp: meta_coherent_def)
  with m mk_not_sk [of _ E] show ?thesis by (auto simp: rec_coherent_def dest!: mk_same)
qed

text \<open>Whatever meta record a get has seen, and whenever it reads the segments, what it puts
  together is the content.\<close>

lemma coherent_chunks:
  assumes "meta_coherent E (content (e_to_string E ck)) m n" "coherent E content v" "chunks_from E v ck m n = Some cs"
    and "0 < rl_target_segment_bytes (e_resolved E)"
  shows "concat cs = content (e_to_string E ck)"
proof (cases "n = 1")
  case True
  with assms(1,3) show ?thesis by (auto simp: meta_coherent_def chunks_from_def)
next
  case False
  let ?c = "content (e_to_string E ck)"
  obtain p where p: "plan_for (e_resolved E) (int (length ?c)) = Inr p" "n = nseg p"
    using assms(1) by (auto simp: meta_coherent_def)
  have l: "list_all2 (\<lambda>k c. rec_payload (v k) = Some c) (sks_of E ck n) cs"
    using assms(3) False by (simp add: chunks_from_def those_map_iff)
  have "cs ! i = segment_chunk ?c p (int i)" if i: "i < nat n" for i
  proof -
    have "segment_coherent E ?c (int i) (v (sk_of E ck (int i)))" using assms(2) by (auto simp: coherent_def rec_coherent_def)
    moreover have "rec_payload (v (sk_of E ck (int i))) = Some (cs ! i)"
      using list_all2_nthD [OF l, of i] i by (simp add: sks_of_eq)
    ultimately show ?thesis using i p by (auto simp: segment_coherent_def)
  qed
  then have "cs = map (segment_chunk ?c p) (py_range n)"
    using list_all2_lengthD [OF l] by (intro nth_equalityI) (simp_all add: sks_of_eq)
  with False p(2) have "cs = put_chunks_of ?c p" by (simp add: put_chunks_of_def)
  with concat_put_chunks [OF plan_for_fits [OF assms(4) p(1)]] show ?thesis by simp
qed

lemma coherent_meta:
  "coherent E content v \<Longrightarrow> v (mk_of E ck) = Some m \<Longrightarrow> meta_nseg m = Some n \<Longrightarrow>
   meta_coherent E (content (e_to_string E ck)) m n"
  by (auto simp: coherent_def rec_coherent_def)

lemma coherent_payload:
  assumes "coherent E content v" "0 < rl_target_segment_bytes (e_resolved E)"
  shows "payload_of E v ck \<in> {None, Some (content (e_to_string E ck))}"
  using coherent_chunks [OF coherent_meta [OF assms(1)] assms(1) _ assms(2)]
  by (auto simp: payload_of_def stored_chunks_def split: option.splits)

section \<open>Preservation\<close>

lemma list_update_ok: "\<forall>x \<in> set xs. P x \<Longrightarrow> P y \<Longrightarrow> \<forall>x \<in> set (xs[i := y]). P x"
  using set_update_subset_insert [of xs i y] by blast

context storage_env
begin

lemma segment_call_coherent:
  assumes "cl_batch_write (e_client E) (segment_writes E ck (content (e_to_string E ck)) p ttl wp) s = (r, s1)"
    and "plan_for (e_resolved E) (int (length (content (e_to_string E ck)))) = Inr p" "nseg p \<noteq> 1" "coherent E content (view s)"
  shows "coherent E content (view s1)"
proof (rule coherent_change [OF assms(4)])
  fix k
  note ph = segment_phase_meta [OF assms(1)]
  show "view s1 k = view s k \<or> rec_coherent E content k (view s1 k)"
  proof (cases "\<exists>i \<ge> 0. k = sk_of E ck i")
    case True
    then obtain i where i: "0 \<le> i" "k = sk_of E ck i" by blast
    with ph(3) [OF assms(3)] segment_write_coherent [where content = content and ck = ck, OF assms(2) i(1)] show ?thesis
      unfolding segments_old_or_new_def by metis
  next
    case False
    with ph(1) ph(2) [of k] show ?thesis by (auto simp: owned_def)
  qed
qed

lemma meta_call_coherent:
  assumes "cl_put (e_client E) (mk_of E ck) (put_bins E p mo pinned time) ttl wp s = (r, s1)"
    and "plan_for (e_resolved E) (int (length (mo_bytes mo))) = Inr p" "mo_bytes mo = content (e_to_string E ck)"
    and "coherent E content (view s)"
  shows "coherent E content (view s1)"
proof -
  have d: "distinct (map fst (put_bins E p mo pinned time))" by (simp add: put_bins_def distinct_meta_bins)
  have "view s1 = view s \<or> view s1 = (view s)(mk_of E ck := write_rec (put_bins E p mo pinned time) (view s (mk_of E ck)))"
    using assms(1) put_done [OF _ d] put_in_doubt [OF _ d] by (cases r) blast+
  with meta_write_coherent [where content = content and ck = ck, OF assms(2,3)] assms(4) show ?thesis
    by (auto simp: coherent_def)
qed

lemma put_meta_call_ok:
  assumes "put_meta_call E ck a (put_bins E p mo False time) wp w = (t', w')"
    and "plan_for (e_resolved E) (int (length (mo_bytes mo))) = Inr p" "mo_bytes mo = content (e_to_string E ck)"
    and "coherent E content (view (srv w))"
  shows "coherent E content (view (srv w')) \<and> (\<exists>r. t' = PDone ck a r)"
proof -
  obtain r s where c: "cl_put (e_client E) (mk_of E ck) (put_bins E p mo False time) (ttl_value E False) wp (srv w) = (r, s)" by fastforce
  have "(t', w') = put_end ck a r (w\<lparr>srv := s\<rparr>)" using assms(1) c by (simp add: put_meta_call_def)
  then have "t' = fst (put_end ck a r (w\<lparr>srv := s\<rparr>))" "srv w' = srv (snd (put_end ck a r (w\<lparr>srv := s\<rparr>)))" by (metis fst_conv, metis snd_conv)
  with meta_call_coherent [OF c assms(2-4)] show ?thesis by (simp add: put_end_simps)
qed

lemma put_step_ok:
  assumes "put_step E t w = (t', w')" "task_ok E content (heap w) (TPut t)" "coherent E content (view (srv w))"
  shows "coherent E content (view (srv w')) \<and> task_ok E content (heap w') (TPut t')"
proof (cases t)
  case (PMeta ck a b wp)
  with assms put_meta_call_ok show ?thesis by fastforce
next
  case (PDone ck a r)
  with assms show ?thesis by auto
next
  case (PStart ck a)
  let ?b = "mo_bytes (heap w a)" and ?mb = "\<lambda>p. put_bins E p (heap w a) False (now w)"
  have c: "?b = content (e_to_string E ck)" using assms(2) PStart by simp
  show ?thesis
  proof (cases "\<exists>p wp. plan_for (e_resolved E) (int (length ?b)) = Inr p \<and> write_policy (e_consts E) (e_cfg E) = Inr wp")
    case False
    with PStart assms show ?thesis by (auto simp: Let_def split: sum.splits)
  next
    case True
    then obtain p wp where p: "plan_for (e_resolved E) (int (length ?b)) = Inr p" "write_policy (e_consts E) (e_cfg E) = Inr wp" by blast
    let ?w1 = "w\<lparr>mets := observe_segments (nseg p) (int (length ?b)) (mets w)\<rparr>"
    show ?thesis
    proof (cases "nseg p = 1")
      case True
      with PStart assms(1) p have "put_meta_call E ck a (?mb p) wp ?w1 = (t', w')" by (simp add: Let_def)
      from put_meta_call_ok [where content = content, OF this p(1) c] assms(3) show ?thesis by auto
    next
      case False
      obtain r s where b: "cl_batch_write (e_client E) (segment_writes E ck ?b p (ttl_value E False) wp) (srv w) = (r, s)" by fastforce
      have "coherent E content (view s)"
        using segment_call_coherent [of ck content p] b p(1) False assms(3) by (simp add: c)
      moreover have "task_ok E content h (TPut (PMeta ck a (?mb p) wp))" for h
        unfolding task_ok.simps using p(1) c by blast
      then have "srv w' = s \<and> task_ok E content (heap w') (TPut t')"
        using assms(1) PStart p(1,2) False b
        by (cases r) (auto simp: Let_def put_end_def case_prod_beta simp del: task_ok.simps(2) split: option.splits)
      ultimately show ?thesis by simp
    qed
  qed
qed

lemma get_read_ok:
  assumes "get_read E ck b n a ex w = (g', w')" "meta_coherent E (content (e_to_string E ck)) (map_of b) n"
    and "coherent E content (view (srv w))" "0 < rl_target_segment_bytes (e_resolved E)"
  shows "view (srv w') = view (srv w) \<and> task_ok E content (heap w') (TGet g')"
proof -
  obtain r w1 where i: "get_into E ck b n a ex w = (r, w1)" by fastforce
  have v: "view (srv w1) = view (srv w)" using get_into_view [of ck b n a ex w] i by simp
  show ?thesis
  proof (cases "\<exists>label a'. r = Inr (label, Some a')")
    case True
    then obtain label a' where r: "r = Inr (label, Some a')" by blast
    have g: "g' = GDone ck (Inr (Some a'))" "heap w' = heap w1" "srv w' = srv w1"
      using assms(1) i r get_end_simps [of ck label "Inr (Some a')" w1] by (simp_all add: get_read_def)
    from get_into_hit [OF i [unfolded r]] coherent_chunks [OF assms(2,3) _ assms(4)]
    have "delivered E (content (e_to_string E ck)) a' (heap w1)" unfolding delivered_def by metis
    with g v show ?thesis by simp
  next
    case False
    have "\<exists>q. g' = GDone ck q \<and> (\<forall>a'. q \<noteq> Inr (Some a'))" "srv w' = srv w1"
      using assms(1) i False get_end_simps [of ck]
      by (auto simp: get_read_def get_end_def case_prod_beta split: sum.splits prod.splits)
    with v show ?thesis by auto
  qed
qed

lemma get_step_ok:
  assumes "get_step E g w = (g', w')" "task_ok E content (heap w) (TGet g)" "coherent E content (view (srv w))"
    and "0 < rl_target_segment_bytes (e_resolved E)"
  shows "view (srv w') = view (srv w) \<and> task_ok E content (heap w') (TGet g')"
proof (cases g)
  case (GRead ck b n a ex)
  with get_read_ok [of ck b n a ex w g' w' content] assms show ?thesis by simp
next
  case (GDone ck r)
  with assms show ?thesis by auto
next
  case (GStart ck pre)
  obtain r s where c: "cl_get (e_client E) (mk_of E ck) (srv w) = (r, s)" by fastforce
  have v: "view s = view (srv w)" by (rule get_view [OF c])
  show ?thesis
  proof (cases "\<exists>b n h a ex. r = Inr b \<and> dict_get b ''state'' = Some (BStr ''ready'') \<and> int_bin b ''nseg'' = Inr n \<and>
      fst (get_target E pre b (heap w)) = Inr (Some a, ex) \<and> snd (get_target E pre b (heap w)) = h")
    case True
    then obtain b n h a ex where b: "r = Inr b" "dict_get b ''state'' = Some (BStr ''ready'')" "int_bin b ''nseg'' = Inr n"
      "get_target E pre b (heap w) = (Inr (Some a, ex), h)" by (auto simp: prod_eq_iff)
    have "meta_nseg (map_of b) = Some n" using b(2,3) by (auto simp: meta_nseg_def int_bin_def split: option.splits)
    with coherent_meta [OF assms(3) get_found [OF c [unfolded b(1)]]]
    have m: "meta_coherent E (content (e_to_string E ck)) (map_of b) n" by blast
    let ?w2 = "w\<lparr>srv := s, heap := h\<rparr>"
    have "(if n = 1 then get_read E ck b n a ex ?w2 else (GRead ck b n a ex, ?w2)) = (g', w')"
      using assms(1) GStart c b by (simp add: Let_def)
    with get_read_ok [of ck b n a ex ?w2 g' w' content] m v assms(3,4) show ?thesis by (auto split: if_splits)
  next
    case False
    have "\<exists>q. g' = GDone ck q \<and> (\<forall>a'. q \<noteq> Inr (Some a'))" "srv w' = s"
      using assms(1) GStart c False
      by (auto simp: get_end_def get_meta_error_def Let_def case_prod_beta split: sum.splits option.splits if_splits)
    with v show ?thesis by auto
  qed
qed

lemma remove_le:
  assumes "remove E ck w = (r, w')"
  shows "view (srv w') \<subseteq>\<^sub>m view (srv w)"
proof -
  obtain q s1 where p: "remove_probe E ck (srv w) = (q, s1)" by fastforce
  have v: "view s1 = view (srv w)" by (rule remove_probe_outcome(1) [OF p])
  obtain q2 s2 where c: "cl_remove (e_client E) (mk_of E ck) s1 = (q2, s2)" by fastforce
  have "view s2 = view s1 \<or> view s2 = (view s1)(mk_of E ck := None)"
    using c remove_done [of "mk_of E ck" s1] remove_in_doubt [of "mk_of E ck" s1] by (cases q2) blast+
  then have v2: "view s2 k = view (srv w) k \<or> view s2 k = None" for k using v by (auto split: if_splits)
  have "srv w' = s1 \<or> srv w' = s2 \<or> (\<exists>n q3. remove_segments E ck n s2 = (q3, srv w'))"
    using assms p c by (auto simp: remove_def remove_srv_def split: prod.splits sum.splits option.splits if_splits)
  then have "view (srv w') k = view (srv w) k \<or> view (srv w') k = None" for k
    using v v2 remove_segments_outcome(2) [of ck _ s2 _ "srv w'" k] by metis
  then show ?thesis by (metis domIff map_le_def)
qed

lemma cluster_ok_step:
  assumes "cluster_step E view content c c'" "cluster_ok E view content c" "0 < rl_target_segment_bytes (e_resolved E)"
  shows "cluster_ok E view content c'"
  using assms(1)
proof cases
  case (start_put w a ck s ts)
  with assms(2) show ?thesis by (simp add: cluster_ok_def)
next
  case (start_get s ts ck pre w)
  with assms(2) show ?thesis by (simp add: cluster_ok_def)
next
  case (put i ts t w s t' w')
  have "(TPut t, w) \<in> set ts" using put(3,4) by (metis nth_mem)
  with assms(2) put(1) have "coherent E content (view s)" "task_ok E content (heap w) (TPut t)" by (auto simp: cluster_ok_def)
  with put_step_ok [OF put(5), of content] have "coherent E content (view (srv w'))" "task_ok E content (heap w') (TPut t')" by simp_all
  with assms(2) put(1,2) show ?thesis by (auto simp: cluster_ok_def dest!: set_update_subset_insert [THEN subsetD])
next
  case (get i ts g w s g' w')
  have "(TGet g, w) \<in> set ts" using get(3,4) by (metis nth_mem)
  with assms(2) get(1) have "coherent E content (view s)" "task_ok E content (heap w) (TGet g)" by (auto simp: cluster_ok_def)
  with get_step_ok [OF get(5), of content] assms(3) have "view (srv w') = view s" "task_ok E content (heap w') (TGet g')" by simp_all
  with assms(2) get(1,2) show ?thesis by (auto simp: cluster_ok_def dest!: set_update_subset_insert [THEN subsetD])
next
  case (pin keys w s r w' ts)
  with coherent_pin [OF _ pin_keys_outcome(1) [OF pin(4,3)]] assms(2) show ?thesis by (auto simp: cluster_ok_def)
next
  case (unpin ck w s rb w' ts)
  with coherent_pin [OF _ unpin_outcome(1) [OF unpin(3)]] assms(2) show ?thesis by (auto simp: cluster_ok_def)
next
  case (remove ck w s rb w' ts)
  with coherent_less [OF _ remove_le [OF remove(3)]] assms(2) show ?thesis by (auto simp: cluster_ok_def)
next
  case (expire s' s ts)
  with coherent_less [OF _ expire(3)] assms(2) show ?thesis by (auto simp: cluster_ok_def)
qed

lemma cluster_ok_run:
  assumes "(cluster_step E view content)\<^sup>*\<^sup>* c c'" "cluster_ok E view content c" "0 < rl_target_segment_bytes (e_resolved E)"
  shows "cluster_ok E view content c'"
  using assms by (induction rule: rtranclp_induct) (auto intro: cluster_ok_step)

end

section \<open>Properties\<close>


text \<open>Whole puts and gets are runs of the system.\<close>

lemma world_srv [simp]: "w\<lparr>srv := srv w\<rparr> = w"
  by simp

lemma put_run:
  assumes "mo_bytes (heap w a) = content (e_to_string E ck)" "put E ck a False w = (r, w')"
  shows "(cluster_step E view content)\<^sup>*\<^sup>* (srv w, ts) (srv w', ts @ [(TPut (PDone ck a r), w')])"
proof -
  let ?R = "cluster_step E view content" and ?n = "length ts" and ?t0 = "PStart ck a"
  obtain t w1 where s1: "put_step E ?t0 w = (t, w1)" by fastforce
  have s2: "put_step E t w1 = (PDone ck a r, w')"
    using put_step_twice [of E ck a w] s1 assms(2) by (simp add: put_alone_def)
  have "?R (srv w, ts) (srv w, ts @ [(TPut ?t0, w)])" using assms(1) by (rule cluster_step.start_put)
  moreover have "?R (srv w, ts @ [(TPut ?t0, w)]) (srv w1, ts @ [(TPut t, w1)])"
    using cluster_step.put [of ?n "ts @ [(TPut ?t0, w)]" ?t0 w E "srv w" t w1] s1 by simp
  moreover have "?R (srv w1, ts @ [(TPut t, w1)]) (srv w', ts @ [(TPut (PDone ck a r), w')])"
    using cluster_step.put [of ?n "ts @ [(TPut t, w1)]" t w1 E "srv w1" "PDone ck a r" w'] s2 by simp
  ultimately show ?thesis by (meson converse_rtranclp_into_rtranclp rtranclp.rtrancl_refl)
qed

lemma get_run:
  assumes "get E ck pre w = (r, w')"
  shows "(cluster_step E view content)\<^sup>*\<^sup>* (srv w, ts) (srv w', ts @ [(TGet (GDone ck r), w')])"
proof -
  let ?R = "cluster_step E view content" and ?n = "length ts" and ?g0 = "GStart ck pre"
  obtain g w1 where s1: "get_step E ?g0 w = (g, w1)" by fastforce
  have s2: "get_step E g w1 = (GDone ck r, w')"
    using get_steps_twice [of E ck pre w] s1 assms by (simp add: get_alone_def)
  have "?R (srv w, ts) (srv w, ts @ [(TGet ?g0, w)])" by (rule cluster_step.start_get)
  moreover have "?R (srv w, ts @ [(TGet ?g0, w)]) (srv w1, ts @ [(TGet g, w1)])"
    using cluster_step.get [of ?n "ts @ [(TGet ?g0, w)]" ?g0 w E "srv w" g w1] s1 by simp
  moreover have "?R (srv w1, ts @ [(TGet g, w1)]) (srv w', ts @ [(TGet (GDone ck r), w')])"
    using cluster_step.get [of ?n "ts @ [(TGet g, w1)]" g w1 E "srv w1" "GDone ck r" w'] s2 by simp
  ultimately show ?thesis by (meson converse_rtranclp_into_rtranclp rtranclp.rtrancl_refl)
qed

lemma empty_coherent: "coherent E content (\<lambda>_. None)"
  by (simp add: coherent_def)


text \<open>Without the condition on names the safety is lost: with checksums off, a get that has read the
  meta record of one chunk returns the segments of another one that is being written under the
  same name and is not committed.\<close>

definition plain_engine :: "(server, string) engine" where
  "plain_engine = sample_engine\<lparr>e_cfg := sample_cfg\<lparr>cfg_enable_crc32 := False\<rparr>\<rparr>"

definition other_bytes :: bytes where
  "other_bytes = [11, 21, 31, 41, 51, 61, 71, 81, 91, 101]"

definition overwrite_world :: "server world" where
  "overwrite_world = sample_world\<lparr>heap := sample_heap(2 := (sample_heap 0)\<lparr>mo_bytes := other_bytes\<rparr>)\<rparr>"

definition overwrite_race :: "string get_thread \<times> string put_thread \<times> server world" where
  "overwrite_race =
     (let (_, w1) = put plain_engine ''k'' 0 False overwrite_world;
          (g, w2) = get_step plain_engine (GStart ''k'' (Some 1)) w1;
          (t, w3) = put_step plain_engine (PStart ''k'' 2) w2;
          (g', w4) = get_step plain_engine g w3
      in (g', t, w4))"

lemma overwrite_reads_uncommitted:
  "(case overwrite_race of (g, t, w) \<Rightarrow>
      g = GDone ''k'' (Inr (Some 1)) \<and> \<not> is_done t \<and> take 10 (mo_bytes (heap w 1)) = other_bytes)"
  by code_simp

text \<open>A get does not compare the length it has read with the bin \<open>tot_b\<close>.\<close>

definition short_world :: "server world" where
  "short_world = sample_world\<lparr>srv := snd (cl_put (e_client plain_engine) (mk_of plain_engine ''k'')
     [(''state'', BStr ''ready''), (''nseg'', BInt 1), (''tot_b'', BInt 99), (''b'', BBytes [1, 2, 3])] 0 [] empty_server)\<rparr>"

lemma get_ignores_tot_b: "fst (get plain_engine ''k'' (Some 1) short_world) = Inr (Some 1)"
  by code_simp

end
