(* ===== verification/Storage_Plugin.thy ===== *)
theory Storage_Plugin
  imports Connector_Props "HOL-Library.Multiset"
begin

text \<open>
  \<open>storage_plugin.py\<close>: the storage plugin. Puts are jobs in the thread pool; the set \<open>_put_tasks\<close>
  tells LMCache which keys are being written. A job makes one step per key; \<open>plugin_step\<close> lets
  jobs interleave with each other and with new submissions. A job that has ended keeps the list
  of the keys it never came to.
\<close>

section \<open>The plugin\<close>

datatype 'k job =
    JRun "('k \<times> nat) list" "'k list" bool
  | JDone "exn + unit" "'k list"

record ('s, 'k) plugin =
  sp_engine :: "('s, 'k) engine"
  sp_executor :: executor
  sp_holder :: nat
  sp_put_tasks :: "'k set"
  sp_jobs :: "'k job list"
  sp_completed :: "'k list"
  sp_closed :: bool

definition plugin_init ::
  "((lm_config \<Rightarrow> 'md \<Rightarrow> exn + remote_base) \<times> lmcache_ext \<times> policy_consts \<times> ('k \<Rightarrow> string)) \<Rightarrow>
   ('s remote_client, 'e) client_lib \<Rightarrow> lm_config option \<Rightarrow> 'md option \<Rightarrow> allocator \<Rightarrow> string \<Rightarrow>
   ('s remote_client, 'e) registry \<Rightarrow> (exn + ('s, 'k) plugin) \<times> ('s remote_client, 'e) registry" where
  "plugin_init P cx config metadata alloc plugin_name reg =
     (case (config, metadata) of
        (Some lc, Some md) \<Rightarrow>
          (case from_storage_plugin_config (extra_config lc) plugin_name of
             Inl e \<Rightarrow> (Inl e, reg)
           | Inr as_cfg \<Rightarrow>
               (let (r, reg1) = get_or_create (fst (snd (snd P))) cx as_cfg reg in
                case r of
                  Inl e \<Rightarrow> (Inl e, reg1)
                | Inr i \<Rightarrow>
                    (bindE (build_engine P lc md as_cfg (h_client (rg_holders reg1 ! i)) alloc) (\<lambda>(E, ex, bridge).
                       Inr \<lparr>sp_engine = E, sp_executor = ex, sp_holder = i, sp_put_tasks = {}, sp_jobs = [],
                            sp_completed = [], sp_closed = False\<rparr>), reg1)))
      | _ \<Rightarrow> (Inl (Builtin ValueError), reg))"

text \<open>The allocator interface: \<open>AdHocMemoryAllocator\<close> is LMCache's; the plugin passes calls on,
  without its eviction and waiting flags. \<open>lcb\<close> stands for a local backend, \<open>self\<close> for the plugin.\<close>

definition get_allocator_backend :: "'b option \<Rightarrow> 'b \<Rightarrow> 'b" where
  "get_allocator_backend lcb self = (case lcb of Some b \<Rightarrow> b | None \<Rightarrow> self)"

definition plugin_allocate ::
  "allocator \<Rightarrow> int list list \<Rightarrow> string list \<Rightarrow> string \<Rightarrow> bool \<Rightarrow> bool \<Rightarrow> heap \<Rightarrow> (exn + nat option) \<times> heap" where
  "plugin_allocate alloc shapes dtypes fmt eviction busy_loop = alloc shapes dtypes fmt"

definition plugin_batched_allocate ::
  "(int list list \<Rightarrow> string list \<Rightarrow> int \<Rightarrow> string \<Rightarrow> heap \<Rightarrow> (exn + nat list option) \<times> heap) \<Rightarrow>
   int list list \<Rightarrow> string list \<Rightarrow> int \<Rightarrow> string \<Rightarrow> bool \<Rightarrow> bool \<Rightarrow> heap \<Rightarrow> (exn + nat list option) \<times> heap" where
  "plugin_batched_allocate alloc_many shapes dtypes batch_size fmt eviction busy_loop =
     alloc_many shapes dtypes batch_size fmt"

definition initialize_allocator :: "allocator \<Rightarrow> 'cfg \<Rightarrow> 'md \<Rightarrow> allocator" where
  "initialize_allocator alloc config metadata = alloc"

definition get_memory_allocator :: "allocator \<Rightarrow> allocator" where
  "get_memory_allocator alloc = alloc"

definition calculate_chunk_budget :: int where
  "calculate_chunk_budget = 0"

definition contains :: "('s, 'k) plugin \<Rightarrow> 'k \<Rightarrow> bool \<Rightarrow> 's world \<Rightarrow> (exn + bool) \<times> 's world" where
  "contains p key do_pin w =
     (if do_pin then
        (let (r, w1) = Engine.exists (sp_engine p) key w in
         case r of
           Inl e \<Rightarrow> (Inl e, w1)
         | Inr True \<Rightarrow> (let (r', w2) = pin (sp_engine p) key w1 in (bindE r' (\<lambda>_. Inr True), w2))
         | Inr False \<Rightarrow> Engine.exists (sp_engine p) key w1)
      else Engine.exists (sp_engine p) key w)"

definition exists_in_put_tasks :: "('s, 'k) plugin \<Rightarrow> 'k \<Rightarrow> bool" where
  "exists_in_put_tasks p key \<longleftrightarrow> key \<in> sp_put_tasks p"

text \<open>Submission: the keys enter the set before the pool takes the job; a pool that has been
  shut down refuses it. The future is the index of the job. \<open>zip(..., strict=True)\<close> raises when
  the shorter list is used up.\<close>

definition batched_submit_put_task ::
  "('s, 'k) plugin \<Rightarrow> 'k list \<Rightarrow> nat list \<Rightarrow> (exn + nat) \<times> ('s, 'k) plugin" where
  "batched_submit_put_task p keys objs =
     (let p1 = p\<lparr>sp_put_tasks := sp_put_tasks p \<union> set keys\<rparr> in
      if ex_shutdown (sp_executor p1) then (Inl (Builtin RuntimeError), p1)
      else (Inr (length (sp_jobs p1)),
            p1\<lparr>sp_jobs := sp_jobs p1 @ [JRun (zip keys objs) (drop (length objs) keys) (length keys \<noteq> length objs)]\<rparr>))"

definition async_batched_submit_put_task ::
  "('s, 'k) plugin \<Rightarrow> 'k list \<Rightarrow> nat list \<Rightarrow> (exn + unit) \<times> ('s, 'k) plugin" where
  "async_batched_submit_put_task p keys objs =
     run_in (sp_executor p) (\<lambda>p. let (r, p') = batched_submit_put_task p keys objs in (bindE r (\<lambda>_. Inr ()), p')) p"

text \<open>One round of \<open>_put_all\<close>. \<open>cb\<close> is the completion callback: the exception it raises for a
  key, if any; the calls are recorded in \<open>sp_completed\<close>.\<close>

fun put_round ::
  "('k \<Rightarrow> exn option) \<Rightarrow> 'k job \<Rightarrow> ('s, 'k) plugin \<Rightarrow> 's world \<Rightarrow> 'k job \<times> ('s, 'k) plugin \<times> 's world" where
  "put_round cb (JRun [] rest mismatch) p w =
     (JDone (if mismatch then Inl (Builtin ValueError) else Inr ()) rest, p, w)"
| "put_round cb (JRun ((key, obj) # items) rest mismatch) p w =
     (let (r, w1) = put (sp_engine p) key obj False w;
          p1 = p\<lparr>sp_put_tasks := sp_put_tasks p - {key}\<rparr>
      in case r of
        Inl e \<Rightarrow> (JDone (Inl e) (map fst items @ rest), p1, w1)
      | Inr _ \<Rightarrow>
          (let p2 = p1\<lparr>sp_completed := sp_completed p1 @ [key]\<rparr> in
           case cb key of
             Some e \<Rightarrow> (JDone (Inl e) (map fst items @ rest), p2, w1)
           | None \<Rightarrow> (JRun items rest mismatch, p2, w1)))"
| "put_round cb (JDone r rest) p w = (JDone r rest, p, w)"

definition get_blocking :: "('s, 'k) plugin \<Rightarrow> 'k \<Rightarrow> 's world \<Rightarrow> (exn + nat option) \<times> 's world" where
  "get_blocking p key = get (sp_engine p) key None"

definition plugin_async_contains ::
  "('s, 'k) plugin \<Rightarrow> 'k list \<Rightarrow> bool \<Rightarrow> 's world \<Rightarrow> (exn + int) \<times> 's world" where
  "plugin_async_contains p keys do_pin = run_in (sp_executor p) (contains_and_pin (sp_engine p) keys do_pin)"

fun plugin_get_non_blocking ::
  "('s, 'k) plugin \<Rightarrow> 'k list \<Rightarrow> 's world \<Rightarrow> (exn + nat list) \<times> 's world" where
  "plugin_get_non_blocking p [] w = (Inr [], w)"
| "plugin_get_non_blocking p (key # keys) w =
     (let (r, w1) = run_in (sp_executor p) (get (sp_engine p) key None) w in
      case r of
        Inl e \<Rightarrow> (Inl e, w1)
      | Inr None \<Rightarrow> (Inr [], w1)
      | Inr (Some mo) \<Rightarrow> (let (r', w2) = plugin_get_non_blocking p keys w1 in (bindE r' (\<lambda>mos. Inr (mo # mos)), w2)))"

definition plugin_pin :: "('s, 'k) plugin \<Rightarrow> 'k \<Rightarrow> 's world \<Rightarrow> (exn + bool) \<times> 's world" where
  "plugin_pin p key = pin (sp_engine p) key"

definition plugin_unpin :: "('s, 'k) plugin \<Rightarrow> 'k \<Rightarrow> 's world \<Rightarrow> (exn + bool) \<times> 's world" where
  "plugin_unpin p key = unpin (sp_engine p) key"

definition plugin_remove :: "('s, 'k) plugin \<Rightarrow> 'k \<Rightarrow> bool \<Rightarrow> 's world \<Rightarrow> (exn + bool) \<times> 's world" where
  "plugin_remove p key force = remove (sp_engine p) key"

definition touch_cache :: "('s, 'k) plugin \<Rightarrow> 's world \<Rightarrow> 's world" where
  "touch_cache p w = w"

definition plugin_str :: "('s, 'k) plugin \<Rightarrow> string" where
  "plugin_str p = ''AerospikeStoragePlugin''"

definition plugin_close ::
  "('c, 'e) client_lib \<Rightarrow> ('s, 'k) plugin \<times> ('c, 'e) registry \<Rightarrow> ('s, 'k) plugin \<times> ('c, 'e) registry" where
  "plugin_close cx st =
     (let (p, reg) = st in
      if sp_closed p then (p, reg)
      else (p\<lparr>sp_closed := True, sp_executor := (sp_executor p)\<lparr>ex_shutdown := True\<rparr>\<rparr>, release cx (sp_holder p) reg))"

section \<open>Interleaved jobs\<close>

text \<open>LMCache submits keys that are not being written already; a job that runs makes a round.\<close>

inductive plugin_step ::
  "('k \<Rightarrow> exn option) \<Rightarrow> ('s, 'k) plugin \<times> 's world \<Rightarrow> ('s, 'k) plugin \<times> 's world \<Rightarrow> bool" for cb where
  submit: "distinct keys \<Longrightarrow> list_all (\<lambda>k. \<not> exists_in_put_tasks p k) keys \<Longrightarrow>
    batched_submit_put_task p keys objs = (Inr i, p') \<Longrightarrow> plugin_step cb (p, w) (p', w)"
| round: "i < length (sp_jobs p) \<Longrightarrow> sp_jobs p ! i = JRun items rest mismatch \<Longrightarrow>
    put_round cb (sp_jobs p ! i) p w = (j, p1, w') \<Longrightarrow> plugin_step cb (p, w) (p1\<lparr>sp_jobs := (sp_jobs p1)[i := j]\<rparr>, w')"

fun job_keys :: "'k job \<Rightarrow> 'k list" where
  "job_keys (JRun items rest mismatch) = map fst items @ rest"
| "job_keys (JDone r rest) = rest"

definition all_keys :: "('s, 'k) plugin \<Rightarrow> 'k list" where
  "all_keys p = concat (map job_keys (sp_jobs p))"

text \<open>The set holds exactly the keys of all jobs that have not been worked off, each in one job.\<close>

definition tasks_inv :: "('s, 'k) plugin \<Rightarrow> bool" where
  "tasks_inv p \<longleftrightarrow> sp_put_tasks p = set (all_keys p) \<and> distinct (all_keys p)"

lemma put_round_job:
  assumes "put_round cb j p w = (j', p', w')"
  shows "sp_jobs p' = sp_jobs p \<and> sp_engine p' = sp_engine p \<and>
    (job_keys j' = job_keys j \<and> sp_put_tasks p' = sp_put_tasks p \<or>
     (\<exists>k. job_keys j = k # job_keys j' \<and> sp_put_tasks p' = sp_put_tasks p - {k}))"
  using assms
  by (cases "(cb, j, p, w)" rule: put_round.cases)
     (auto simp: Let_def split: prod.splits sum.splits option.splits)

lemma mset_all_keys_update:
  assumes "i < length js"
  shows "mset (concat (map job_keys (js[i := j]))) + mset (job_keys (js ! i)) =
    mset (concat (map job_keys js)) + mset (job_keys j)"
  using assms
proof (induction js arbitrary: i)
  case (Cons x js)
  then show ?case by (cases i) (auto simp: ac_simps)
qed simp

lemma distinct_remove:
  assumes "mset xs = add_mset k (mset ys)" "distinct xs"
  shows "distinct ys \<and> set ys = set xs - {k}"
proof -
  have "mset xs = mset (k # ys)" using assms(1) by simp
  then have "distinct (k # ys)" "set xs = set (k # ys)" using assms(2) mset_eq_imp_distinct_iff mset_eq_setD by blast+
  then show ?thesis by auto
qed

lemma tasks_inv_step:
  assumes "plugin_step cb (p, w) (p', w')" "tasks_inv p"
  shows "tasks_inv p'"
  using assms(1)
proof cases
  case (submit keys objs i)
  have "map fst (zip keys objs) @ drop (length objs) keys = keys"
    by (simp add: map_fst_zip_take) (metis append_take_drop_id drop_all nat_le_linear min.absorb1 min.absorb2 take_all_iff)
  with submit assms(2) show ?thesis
    by (auto simp: tasks_inv_def all_keys_def batched_submit_put_task_def exists_in_put_tasks_def list_all_iff Let_def split: if_splits)
next
  case (round i items rest mismatch j p1)
  note r = put_round_job [OF round(4)]
  have all: "mset (all_keys p') + mset (job_keys (sp_jobs p ! i)) = mset (all_keys p) + mset (job_keys j)"
    using mset_all_keys_update [OF round(2)] r round(1) by (simp add: all_keys_def)
  from r consider "job_keys j = job_keys (sp_jobs p ! i)" "sp_put_tasks p1 = sp_put_tasks p"
    | k where "job_keys (sp_jobs p ! i) = k # job_keys j" "sp_put_tasks p1 = sp_put_tasks p - {k}" by blast
  then show ?thesis
  proof cases
    case 1
    with all have "mset (all_keys p') = mset (all_keys p)" by simp
    then have "set (all_keys p') = set (all_keys p)" "distinct (all_keys p') = distinct (all_keys p)"
      using mset_eq_setD mset_eq_imp_distinct_iff by blast+
    with 1 round(1) assms(2) show ?thesis by (simp add: tasks_inv_def)
  next
    case 2
    with all have "mset (all_keys p) = add_mset k (mset (all_keys p'))" by simp
    with distinct_remove assms(2) have "distinct (all_keys p') \<and> set (all_keys p') = set (all_keys p) - {k}"
      by (metis tasks_inv_def)
    with 2 round(1) assms(2) show ?thesis by (simp add: tasks_inv_def)
  qed
qed

lemma tasks_inv_run:
  assumes "(plugin_step cb)\<^sup>*\<^sup>* (p, w) (p', w')" "tasks_inv p"
  shows "tasks_inv p'"
  using assms by (induction rule: rtranclp_induct2) (auto intro: tasks_inv_step)

text \<open>A job that has ended stays as it is.\<close>

lemma job_done_step:
  assumes "plugin_step cb (p, w) (p', w')" "i < length (sp_jobs p)" "sp_jobs p ! i = JDone r rest"
  shows "i < length (sp_jobs p') \<and> sp_jobs p' ! i = JDone r rest"
  using assms(1)
proof cases
  case (submit keys objs i)
  with assms(2,3) show ?thesis by (auto simp: batched_submit_put_task_def nth_append Let_def split: if_splits)
next
  case (round k items rest' mismatch j p1)
  have "k \<noteq> i" using round(3) assms(3) by (metis job.distinct(1))
  moreover have "sp_jobs p1 = sp_jobs p" using put_round_job [OF round(4)] by blast
  ultimately show ?thesis using round(1) assms(2,3) by simp
qed

lemma job_done_run:
  assumes "(plugin_step cb)\<^sup>*\<^sup>* (p, w) (p', w')" "i < length (sp_jobs p)" "sp_jobs p ! i = JDone r rest"
  shows "i < length (sp_jobs p') \<and> sp_jobs p' ! i = JDone r rest"
  using assms by (induction rule: rtranclp_induct2) (auto dest: job_done_step)

section \<open>Properties\<close>

definition fresh_plugin :: "('s, 'k) plugin \<Rightarrow> bool" where
  "fresh_plugin p \<longleftrightarrow> sp_put_tasks p = {} \<and> sp_jobs p = []"



context healthy_env
begin

lemma plugin_contains_live:
  assumes "live (srv w)" "write_policy (e_consts E) (e_cfg E) = Inr wp" "sp_engine p = E"
  shows "fst (contains p key do_pin w) = Inr (view (srv w) (mk_of E key) \<noteq> None) \<and>
    payload_of E (view (srv (snd (contains p key do_pin w)))) = payload_of E (view (srv w))"
proof -
  let ?b = "view (srv w) (mk_of E key) \<noteq> None"
  obtain w1 where e: "exists E key w = (Inr ?b, w1)" "live (srv w1)" using exists_live [OF assms(1), of key] by auto
  have v1: "view (srv w1) = view (srv w)" using exists_sound(2) [OF e(1)] .
  obtain w2 where e2: "exists E key w1 = (Inr ?b, w2)" using exists_live [OF e(2), of key] v1 by auto
  have v2: "view (srv w2) = view (srv w)" using exists_sound(2) [OF e2] v1 by simp
  obtain w3 where pk: "pin_keys E [key] w2 = (Inr (), w3)" using pin_keys_returns [OF assms(2)] by (metis prod.collapse)
  have "pin_only (view (srv w2)) (view (srv w3))" by (rule pin_keys_outcome(1) [OF pk]) simp
  then have "payload_of E (view (srv w3)) = payload_of E (view (srv w))" using v2 by (auto simp: fun_eq_iff pin_only_content(2))
  with e(1) e2 pk v1 v2 assms(3) show ?thesis
    by (cases ?b; cases do_pin) (simp_all add: contains_def pin_def)
qed

end

text \<open>
  On a healthy server \<open>contains\<close> tells whether the chunk's meta record is there, with or
  without pinning, and does not change the content of any key.
\<close>

theorem contains_reports_presence:
  assumes "healthy_env (sp_engine p) view live fits" and "live (srv w)"
    and "write_policy (e_consts (sp_engine p)) (e_cfg (sp_engine p)) = Inr wp"
  shows "fst (contains p key do_pin w) = Inr (view (srv w) (mk_of (sp_engine p) key) \<noteq> None) \<and>
    payload_of (sp_engine p) (view (srv (snd (contains p key do_pin w)))) = payload_of (sp_engine p) (view (srv w))"
  using healthy_env.plugin_contains_live [OF assms refl] .

section \<open>Samples\<close>

definition sample_plugin :: "(server, string) plugin" where
  "sample_plugin = \<lparr>sp_engine = sample_engine, sp_executor = \<lparr>ex_workers = 2, ex_shutdown = False\<rparr>, sp_holder = 0,
     sp_put_tasks = {}, sp_jobs = [], sp_completed = [], sp_closed = False\<rparr>"

definition busy_plugin :: "(server, string) plugin" where
  "busy_plugin = snd (batched_submit_put_task sample_plugin [''k'', ''x''] [0, 1])"

lemma busy_plugin:
  "sp_jobs busy_plugin = [JRun [(''k'', 0), (''x'', 1)] [] False]" "sp_engine busy_plugin = sample_engine"
  "sp_put_tasks busy_plugin = {''k'', ''x''}" "fresh_plugin sample_plugin"
  by (simp_all add: busy_plugin_def batched_submit_put_task_def sample_plugin_def fresh_plugin_def)

lemma busy_step: "(plugin_step cb)\<^sup>*\<^sup>* (sample_plugin, w) (busy_plugin, w)"
proof -
  have "batched_submit_put_task sample_plugin [''k'', ''x''] [0, 1] = (Inr 0, busy_plugin)"
    by (simp add: busy_plugin_def batched_submit_put_task_def sample_plugin_def)
  then have "plugin_step cb (sample_plugin, w) (busy_plugin, w)"
    by (intro plugin_step.submit [of "[''k'', ''x'']"]) (auto simp: exists_in_put_tasks_def sample_plugin_def)
  then show ?thesis by blast
qed



theorem contains_reports_presence_witness:
  "fst (contains sample_plugin ''k'' True segment_world) = Inr True \<and>
   fst (contains sample_plugin ''x'' True sample_world) = Inr False"
proof -
  obtain wp where wp: "write_policy sample_consts sample_cfg = Inr wp" using sample_policy by blast
  have e: "sp_engine sample_plugin = sample_engine" by (simp add: sample_plugin_def)
  have h: "healthy_env (sp_engine sample_plugin) sv_view sv_up sv_fits"
    "write_policy (e_consts (sp_engine sample_plugin)) (e_cfg (sp_engine sample_plugin)) = Inr wp"
    using wp sample_env by (simp_all add: e)
  have "sv_view (srv sample_world) (mk_of sample_engine ''x'') = None" "sv_up (srv sample_world)"
    by (simp_all add: sample_world_def empty_server_def sv_view_def)
  with contains_reports_presence [OF h(1) _ h(2), of segment_world "''k''" True]
    contains_reports_presence [OF h(1) _ h(2), of sample_world "''x''" True] segment_world_view(1,2)
  show ?thesis by (simp add: e)
qed

end
