(* ===== verification/Plugin_Roundtrip.thy ===== *)
theory Plugin_Roundtrip
  imports Storage_Plugin
begin

text \<open>
  The storage plugin end to end: what a put job has reported as complete can be read with
  \<open>get_blocking\<close>, whatever other jobs do in between, as long as the key is not submitted again.
\<close>

section \<open>Other jobs leave a stored chunk alone\<close>

text \<open>A step of the plugin from a state in which the key is not being written.\<close>

definition quiet_step ::
  "('k \<Rightarrow> exn option) \<Rightarrow> 'k \<Rightarrow> ('s, 'k) plugin \<times> 's world \<Rightarrow> ('s, 'k) plugin \<times> 's world \<Rightarrow> bool" where
  "quiet_step cb k s s' \<longleftrightarrow> plugin_step cb s s' \<and> \<not> exists_in_put_tasks (fst s) k"

definition owned_same :: "('s, 'k) engine \<Rightarrow> 'k \<Rightarrow> dbview \<Rightarrow> dbview \<Rightarrow> bool" where
  "owned_same E k v v' \<longleftrightarrow> (\<forall>r \<in> owned E k. v' r = v r)"

context storage_env
begin

lemma put_round_frame:
  assumes "put_round cb j p w = (j', p', w')" "sp_engine p = E" "\<forall>k' \<in> set (job_keys j). \<not> same_name E k' k"
  shows "heap w' = heap w \<and> owned_same E k (view (srv w)) (view (srv w'))"
  using assms(1)
proof (cases "(cb, j, p, w)" rule: put_round.cases)
  case (2 cb1 key obj items rest mismatch p1 w1)
  have "snd (put E key obj False w) = w'" using assms(1,2) 2 by (auto simp: Let_def split: prod.splits sum.splits option.splits)
  then obtain r where "put E key obj False w = (r, w')" by (metis prod.collapse)
  from put_outcome [OF this] have o: "heap w' = heap w" "\<And>r. r \<notin> owned E key \<Longrightarrow> view (srv w') r = view (srv w) r" by auto
  have "\<not> same_name E k key" using assms(3) 2 by auto
  from owned_disjoint [OF this] o show ?thesis by (auto simp: owned_same_def)
qed (auto simp: owned_same_def)

lemma quiet_step_frame:
  assumes "quiet_step cb k (p, w) (p', w')" "tasks_inv p" "sp_engine p = E" "\<forall>k'. same_name E k' k \<longrightarrow> k' = k"
  shows "tasks_inv p' \<and> sp_engine p' = E \<and> heap w' = heap w \<and> owned_same E k (view (srv w)) (view (srv w'))"
proof -
  have st: "plugin_step cb (p, w) (p', w')" and q: "k \<notin> set (all_keys p)"
    using assms(1,2) by (auto simp: quiet_step_def exists_in_put_tasks_def tasks_inv_def)
  from st have "sp_engine p' = E \<and> heap w' = heap w \<and> owned_same E k (view (srv w)) (view (srv w'))"
  proof cases
    case (submit keys objs i)
    with assms(3) show ?thesis by (auto simp: batched_submit_put_task_def owned_same_def Let_def split: if_splits)
  next
    case (round i items rest mismatch j p1)
    have "set (job_keys (sp_jobs p ! i)) \<subseteq> set (all_keys p)" using round(2) nth_mem by (fastforce simp: all_keys_def)
    with q assms(4) have "\<forall>k' \<in> set (job_keys (sp_jobs p ! i)). \<not> same_name E k' k" by blast
    from put_round_frame [OF round(4) assms(3) this] put_round_job [OF round(4)] round(1) assms(3) show ?thesis by simp
  qed
  with tasks_inv_step [OF st assms(2)] show ?thesis by blast
qed

lemma quiet_run_frame:
  assumes "(quiet_step cb k)\<^sup>*\<^sup>* (p, w) (p', w')" "tasks_inv p" "sp_engine p = E" "\<forall>k'. same_name E k' k \<longrightarrow> k' = k"
  shows "tasks_inv p' \<and> sp_engine p' = E \<and> heap w' = heap w \<and> owned_same E k (view (srv w)) (view (srv w'))"
  using assms(1)
proof (induction rule: rtranclp_induct2)
  case refl
  with assms(2,3) show ?case by (simp add: owned_same_def)
next
  case (step p1 w1 p2 w2)
  from quiet_step_frame [OF step.hyps(2) _ _ assms(4)] step.IH show ?case by (simp add: owned_same_def)
qed

end

lemma put_round_reports:
  assumes "put_round cb (JRun ((k, a) # items) rest mismatch) p w = (j, p1, w1)" "sp_completed p1 \<noteq> sp_completed p"
  shows "\<exists>u. put (sp_engine p) k a False w = (Inr u, w1)"
  using assms by (auto simp: Let_def split: prod.splits sum.splits option.splits)

lemma put_round_tasks:
  assumes "put_round cb (JRun ((k, a) # items) rest mismatch) p w = (j, p1, w1)"
  shows "sp_put_tasks p1 = sp_put_tasks p - {k} \<and> sp_engine p1 = sp_engine p"
  using assms by (auto simp: Let_def split: prod.splits sum.splits option.splits)

section \<open>Jobs come to their end\<close>

text \<open>A step of a job, without new submissions; a running job has at most a round for each item and
  the last test of \<open>zip\<close> left.\<close>

definition job_step ::
  "('k \<Rightarrow> exn option) \<Rightarrow> ('s, 'k) plugin \<times> 's world \<Rightarrow> ('s, 'k) plugin \<times> 's world \<Rightarrow> bool" where
  "job_step cb s s' \<longleftrightarrow> plugin_step cb s s' \<and> length (sp_jobs (fst s')) = length (sp_jobs (fst s))"

fun rounds_left :: "'k job \<Rightarrow> nat" where
  "rounds_left (JRun items rest mismatch) = Suc (length items)"
| "rounds_left (JDone r rest) = 0"

lemma put_round_left: "put_round cb (JRun items rest mismatch) p w = (j, p1, w1) \<Longrightarrow> rounds_left j < Suc (length items)"
  by (cases items) (auto simp: Let_def split: prod.splits sum.splits option.splits)

lemma job_step_left:
  assumes "job_step cb s s'"
  shows "sum_list (map rounds_left (sp_jobs (fst s'))) < sum_list (map rounds_left (sp_jobs (fst s)))"
proof -
  have st: "plugin_step cb s s'" and l: "length (sp_jobs (fst s')) = length (sp_jobs (fst s))" using assms by (auto simp: job_step_def)
  from st show ?thesis
  proof cases
    case (submit keys p objs i p' w)
    have "length (sp_jobs p') = Suc (length (sp_jobs p))"
      using submit(5) by (auto simp: batched_submit_put_task_def Let_def split: if_splits)
    with l submit(1,2) show ?thesis by simp
  next
    case (round i p items rest mismatch w j p1 w')
    have "sp_jobs p1 = sp_jobs p" using put_round_job [OF round(5)] by blast
    with sum_weights_update [OF round(3), of rounds_left j] put_round_left [of cb items rest mismatch p w j p1 w'] round
    show ?thesis by simp
  qed
qed

lemma job_step_possible:
  assumes "i < length (sp_jobs p)" "sp_jobs p ! i = JRun items rest mismatch"
  shows "\<exists>s'. job_step cb (p, w) s'"
proof -
  obtain j p1 w1 where r: "put_round cb (sp_jobs p ! i) p w = (j, p1, w1)" by (metis prod.exhaust)
  have "sp_jobs p1 = sp_jobs p" using put_round_job [OF r] by blast
  with plugin_step.round [OF assms r] show ?thesis by (fastforce simp: job_step_def)
qed

section \<open>Properties\<close>

text \<open>
  Every put job comes to its end. There is no infinite sequence of rounds, and as long as some
  job is running another round is possible; so, whatever fails, the jobs of the pool all end.
\<close>

theorem put_jobs_end:
  "wfP (\<lambda>s' s. job_step cb s s') \<and>
   (list_all (\<lambda>j. rounds_left j = 0) (sp_jobs p) \<longleftrightarrow> \<not> (\<exists>s'. job_step cb (p, w) s'))"
proof
  show "wfP (\<lambda>s' s. job_step cb s s')"
    by (rule wfp_if_convertible_to_nat [of _ "\<lambda>s. sum_list (map rounds_left (sp_jobs (fst s)))"]) (rule job_step_left)
  have "\<exists>s'. job_step cb (p, w) s'" if run: "\<not> list_all (\<lambda>j. rounds_left j = 0) (sp_jobs p)"
  proof -
    obtain i where i: "i < length (sp_jobs p)" "rounds_left (sp_jobs p ! i) \<noteq> 0" using run by (auto simp: list_all_length)
    then obtain items rest mismatch where "sp_jobs p ! i = JRun items rest mismatch" by (cases "sp_jobs p ! i") auto
    with job_step_possible [OF i(1)] show ?thesis by blast
  qed
  moreover have "\<not> job_step cb (p, w) s'" if "list_all (\<lambda>j. rounds_left j = 0) (sp_jobs p)" for s'
  proof -
    have "sum_list (map rounds_left (sp_jobs p)) = 0" using that by (simp add: list_all_iff)
    with job_step_left [of cb "(p, w)" s'] show ?thesis by auto
  qed
  ultimately show "list_all (\<lambda>j. rounds_left j = 0) (sp_jobs p) \<longleftrightarrow> \<not> (\<exists>s'. job_step cb (p, w) s')" by blast
qed

text \<open>
  C18: a chunk whose put job has reported it can be read. Take any run of the plugin with
  interleaved jobs, a round that reports the key as complete, and any further run during which
  the key is not submitted again. Then the key still holds the bytes of its object; and on a
  healthy server \<open>get_blocking\<close> returns them, in the object that the allocator provides, if that
  one is large enough. Other keys have other names.
\<close>

theorem completed_put_readable:
  assumes "healthy_env (sp_engine p) view live fits" and "0 < rl_target_segment_bytes (e_resolved (sp_engine p))"
    and "\<forall>k'. same_name (sp_engine p) k' k \<longrightarrow> k' = k"
    and "(plugin_step cb)\<^sup>*\<^sup>* (p0, w0) (p, w)" and "fresh_plugin p0"
    and "i < length (sp_jobs p)" and "sp_jobs p ! i = JRun ((k, a) # items) rest mismatch"
    and "put_round cb (sp_jobs p ! i) p w = (j, p1, w1)" and "sp_completed p1 \<noteq> sp_completed p"
    and "(quiet_step cb k)\<^sup>*\<^sup>* (p1\<lparr>sp_jobs := (sp_jobs p1)[i := j]\<rparr>, w1) (p2, w2)"
    and "live (srv w2)"
    and "\<forall>b. view (srv w2) (mk_of (sp_engine p) k) = Some (map_of b) \<longrightarrow>
      e_allocate_for_read (sp_engine p) b (heap w2) = (Inr (Some d, False), h)"
    and "length (mo_bytes (heap w a)) \<le> length (mo_bytes (h d))" and "mo_bytes (heap w a) \<noteq> []"
  shows "payload_of (sp_engine p2) (view (srv w2)) k = Some (mo_bytes (heap w a)) \<and>
    (\<exists>w3. get_blocking p2 k w2 = (Inr (Some d), w3) \<and>
       take (length (mo_bytes (heap w a))) (mo_bytes (heap w3 d)) = mo_bytes (heap w a))"
proof -
  let ?E = "sp_engine p" and ?b = "mo_bytes (heap w a)"
  have senv: "storage_env ?E view" using assms(1) by (simp add: healthy_env_def)
  have st: "plugin_step cb (p, w) (p1\<lparr>sp_jobs := (sp_jobs p1)[i := j]\<rparr>, w1)" using assms(6-8) by (rule plugin_step.round)
  have "tasks_inv p0" using assms(5) by (simp add: fresh_plugin_def tasks_inv_def all_keys_def)
  from tasks_inv_step [OF st tasks_inv_run [OF assms(4) this]]
  have inv: "tasks_inv (p1\<lparr>sp_jobs := (sp_jobs p1)[i := j]\<rparr>)" .
  note r = assms(8) [unfolded assms(7)]
  from put_round_reports [OF r assms(9)] obtain u where put: "put ?E k a False w = (Inr u, w1)" by blast
  from storage_env.quiet_run_frame [OF senv assms(10) inv _ assms(3)] put_round_tasks [OF r]
  have f: "sp_engine p2 = ?E" "heap w2 = heap w1" "owned_same ?E k (view (srv w1)) (view (srv w2))" by simp_all
  note s = storage_env.put_refines [OF senv put assms(2)]
  then obtain pl where pl: "plan_for (e_resolved ?E) (int (length ?b)) = Inr pl"
    "stored_chunks ?E (view (srv w1)) k = Some (put_chunks_of ?b pl)" by blast
  have fit: "plan_fits ?b pl" by (rule plan_for_fits [OF assms(2) pl(1)])
  have cc: "concat (put_chunks_of ?b pl) = ?b" by (rule concat_put_chunks [OF fit])
  have same: "\<And>r. r \<in> owned ?E k \<Longrightarrow> view (srv w2) r = view (srv w1) r" using f(3) by (simp add: owned_same_def)
  have c: "stored_chunks ?E (view (srv w2)) k = Some (put_chunks_of ?b pl)" "crc_good ?E (view (srv w2)) k ?b"
    using pl(2) s(3) content_cong [of ?E k "view (srv w2)" "view (srv w1)", OF same] by simp_all
  have "\<exists>w3. get ?E k None w2 = (Inr (Some d), w3) \<and> heap w3 = loaded d (concat (put_chunks_of ?b pl)) h \<and> live (srv w3)"
    by (rule healthy_env.get_succeeds_into [OF assms(1,11) c(1)])
       (use c(2) cc assms(12-14) put_chunks_nonempty [OF fit] in \<open>auto simp: get_target_def\<close>)
  with c(1) cc f(1) assms(13) show ?thesis by (auto simp: payload_of_def get_blocking_def)
qed

theorem completed_put_readable_witness:
  "\<exists>j p1 w1 w3. put_round (\<lambda>_. None) (sp_jobs busy_plugin ! 0) busy_plugin sample_world = (j, p1, w1) \<and>
     get_blocking (p1\<lparr>sp_jobs := (sp_jobs p1)[0 := j]\<rparr>) ''k'' w1 = (Inr (Some 1), w3) \<and>
     take 10 (mo_bytes (heap w3 1)) = sample_bytes"
proof -
  note e = busy_plugin(2)
  obtain w1 where put: "put sample_engine ''k'' 0 False sample_world = (Inr (), w1)" "sv_up (srv w1)" using sample_put by blast
  have job: "0 < length (sp_jobs busy_plugin)" "sp_jobs busy_plugin ! 0 = JRun ((''k'', 0) # [(''x'', 1)]) [] False"
    by (simp_all add: busy_plugin)
  obtain j p1 where r: "put_round (\<lambda>_. None) (sp_jobs busy_plugin ! 0) busy_plugin sample_world = (j, p1, w1)"
    and c: "sp_completed p1 \<noteq> sp_completed busy_plugin" using put(1) job e by simp
  have h: "heap w1 = sample_heap" using storage_env.put_outcome [OF sample_storage_env put(1)] by simp
  have al: "e_allocate_for_read sample_engine b h = (Inr (Some 1, False), h)" for b h by (simp add: sample_engine_def)
  have "\<exists>w3. get_blocking (p1\<lparr>sp_jobs := (sp_jobs p1)[0 := j]\<rparr>) ''k'' w1 = (Inr (Some 1), w3) \<and>
     take (length (mo_bytes (heap sample_world 0))) (mo_bytes (heap w3 1)) = mo_bytes (heap sample_world 0)"
    by (rule completed_put_readable [where view = sv_view and live = sv_up and fits = sv_fits and h = "heap w1",
          OF _ _ _ busy_step busy_plugin(4) job r c rtranclp.rtrancl_refl, THEN conjunct2])
       (use put(2) sample_env al h e in \<open>auto simp: sample_bytes_def\<close>)
  with r show ?thesis by auto
qed

end
