(* ===== verification/L2_Plugin.thy ===== *)
theory L2_Plugin
  imports Connector_Props
begin

text \<open>
  \<open>l2_plugin.py\<close>: the multiprocess L2 adapter. A \<open>submit\<close> call takes a task id and queues a task;
  the thread pool runs tasks in any order; results are kept by task id until they are popped.
  The base class of LMCache is present through its notification calls, which are recorded, and
  through the event notifiers, whose notifications are counted. A bitmap is a list of bits.
  \<open>_parallel_chunks\<close> runs blocks of 32 items in a second pool; the order in which the blocks run
  is an argument, and a block runs as a whole.
\<close>

section \<open>Configuration\<close>

text \<open>A finite Python float: mantissa and binary exponent.\<close>

type_synonym pyfloat = "int \<times> int"

record L2PluginConfig =
  lc_hosts :: string
  lc_namespace :: string
  lc_set_name :: string
  lc_default_ttl_seconds :: int
  lc_max_capacity_gb :: pyfloat
  lc_dtype :: string
  lc_plugin_name :: string

definition dict_get_or :: "('k, 'v) dict \<Rightarrow> 'k \<Rightarrow> 'v \<Rightarrow> 'v" where
  "dict_get_or d k v = (case dict_get d k of None \<Rightarrow> v | Some x \<Rightarrow> x)"

text \<open>\<open>py_float\<close> is Python's \<open>float\<close> on configuration values: an exception, or the finite number.\<close>

definition l2_from_dict :: "(pyval \<Rightarrow> exn + pyfloat) \<Rightarrow> (string, pyval) dict \<Rightarrow> exn + L2PluginConfig" where
  "l2_from_dict py_float d =
     (let hosts = py_str (dict_get_or d ''hosts'' (PStr ''127.0.0.1:3000''));
          namespace = py_str (dict_get_or d ''namespace'' (PStr ''lmcache''));
          set_name = py_str (dict_get_or d ''set'' (dict_get_or d ''set_name'' (PStr ''kv_chunks''))) in
      bindE (py_int (dict_get_or d ''default_ttl_seconds'' (PInt 86400))) (\<lambda>ttl.
      bindE (py_float (dict_get_or d ''max_capacity_gb'' (PInt 0))) (\<lambda>cap.
      Inr \<lparr>lc_hosts = hosts, lc_namespace = namespace, lc_set_name = set_name, lc_default_ttl_seconds = ttl,
           lc_max_capacity_gb = cap, lc_dtype = py_str (dict_get_or d ''dtype'' (PStr ''bfloat16'')),
           lc_plugin_name = py_str (dict_get_or d ''plugin_name'' (PStr ''aerospike''))\<rparr>)))"

definition DTYPE_MAP :: "(string, string) dict" where
  "DTYPE_MAP = [(''float16'', ''torch.float16''), (''bfloat16'', ''torch.bfloat16''), (''float32'', ''torch.float32'')]"

text \<open>\<open>int(x * 1024**3)\<close>: the product only changes the exponent; \<open>int\<close> truncates towards zero.\<close>

definition capacity_bytes :: "pyfloat \<Rightarrow> int" where
  "capacity_bytes x =
     (let (m, e) = x; s = e + 30 in
      if 0 \<le> s then m * 2 ^ nat s else sgn m * (\<bar>m\<bar> div 2 ^ nat (- s)))"

section \<open>State\<close>

datatype notification =
    KeysStored "ObjectKey list" "int list"
  | KeysAccessed "ObjectKey list"
  | KeysDeleted "ObjectKey list" "int list"

datatype task =
    TStore "ObjectKey list" "nat list" int
  | TLookup "ObjectKey list" int
  | TLoad "ObjectKey list" "nat list" int
  | TUnlock "ObjectKey list"

record 's l2 =
  l2_engine :: "('s, CacheEngineKey) engine"
  l2_dtype :: string
  l2_capacity :: int
  l2_holder :: nat
  l2_executor :: executor
  l2_batch_executor :: executor
  l2_pending :: "task list"
  l2_locked :: "(ObjectKey, int) dict"
  l2_next_id :: int
  l2_done_store :: "(int, bool \<times> int) dict"
  l2_done_lookup :: "(int, bool list) dict"
  l2_done_load :: "(int, bool list) dict"
  l2_store_efd :: nat
  l2_lookup_efd :: nat
  l2_load_efd :: nat
  l2_notes :: "notification list"

definition l2_init ::
  "(lmcache_ext \<times> policy_consts \<times> (CacheEngineKey \<Rightarrow> string)) \<Rightarrow> ('s remote_client, 'e) client_lib \<Rightarrow>
   L2PluginConfig \<Rightarrow> ('s remote_client, 'e) registry \<Rightarrow> (exn + 's l2) \<times> ('s remote_client, 'e) registry" where
  "l2_init P cx config reg =
     (let cap_bytes = capacity_bytes (lc_max_capacity_gb config);
          dt = (case dict_get DTYPE_MAP (lower (lc_dtype config)) of Some t \<Rightarrow> t | None \<Rightarrow> ''torch.bfloat16'')
      in case from_adapter_params
           (Some [(''hosts'', PStr (lc_hosts config)), (''namespace'', PStr (lc_namespace config)),
                  (''set'', PStr (lc_set_name config)), (''default_ttl_seconds'', PInt (lc_default_ttl_seconds config))])
           (lc_plugin_name config) of
        Inl e \<Rightarrow> (Inl e, reg)
      | Inr as_cfg \<Rightarrow>
          (let (r, reg1) = get_or_create (fst (snd P)) cx as_cfg reg in
           case r of
             Inl e \<Rightarrow> (Inl e, reg1)
           | Inr i \<Rightarrow>
               (bindE (build_engine_l2 P as_cfg (h_client (rg_holders reg1 ! i)) dt) (\<lambda>(E, ex).
                bindE (thread_pool (min 4 (max 1 (cfg_executor_threads as_cfg div 4)))) (\<lambda>bex.
                  Inr \<lparr>l2_engine = E, l2_dtype = dt, l2_capacity = cap_bytes, l2_holder = i, l2_executor = ex,
                       l2_batch_executor = bex, l2_pending = [], l2_locked = [], l2_next_id = 0,
                       l2_done_store = [], l2_done_lookup = [], l2_done_load = [],
                       l2_store_efd = 0, l2_lookup_efd = 0, l2_load_efd = 0, l2_notes = []\<rparr>)), reg1)))"

definition to_ck :: "'s l2 \<Rightarrow> ObjectKey \<Rightarrow> CacheEngineKey" where
  "to_ck p key = object_key_to_cache_engine_key key (l2_dtype p)"

section \<open>Submitting and popping\<close>

definition alloc_id :: "'s l2 \<Rightarrow> int \<times> 's l2" where
  "alloc_id p = (l2_next_id p, p\<lparr>l2_next_id := l2_next_id p + 1\<rparr>)"

text \<open>\<open>executor.submit\<close>: refused after shutdown.\<close>

definition submit_task :: "task \<Rightarrow> 's l2 \<Rightarrow> (exn + unit) \<times> 's l2" where
  "submit_task t p =
     (if ex_shutdown (l2_executor p) then (Inl (Builtin RuntimeError), p)
      else (Inr (), p\<lparr>l2_pending := l2_pending p @ [t]\<rparr>))"

definition submit_store_task :: "ObjectKey list \<Rightarrow> nat list \<Rightarrow> 's l2 \<Rightarrow> (exn + int) \<times> 's l2" where
  "submit_store_task keys objects p =
     (let (tid, p1) = alloc_id p; (r, p2) = submit_task (TStore keys objects tid) p1 in (bindE r (\<lambda>_. Inr tid), p2))"

definition submit_lookup_and_lock_task :: "ObjectKey list \<Rightarrow> 's l2 \<Rightarrow> (exn + int) \<times> 's l2" where
  "submit_lookup_and_lock_task keys p =
     (let (tid, p1) = alloc_id p; (r, p2) = submit_task (TLookup keys tid) p1 in (bindE r (\<lambda>_. Inr tid), p2))"

definition submit_load_task :: "ObjectKey list \<Rightarrow> nat list \<Rightarrow> 's l2 \<Rightarrow> (exn + int) \<times> 's l2" where
  "submit_load_task keys objects p =
     (let (tid, p1) = alloc_id p; (r, p2) = submit_task (TLoad keys objects tid) p1 in (bindE r (\<lambda>_. Inr tid), p2))"

definition submit_unlock :: "ObjectKey list \<Rightarrow> 's l2 \<Rightarrow> (exn + unit) \<times> 's l2" where
  "submit_unlock keys p = submit_task (TUnlock keys) p"

definition pop_completed_store_tasks :: "'s l2 \<Rightarrow> (int, bool \<times> int) dict \<times> 's l2" where
  "pop_completed_store_tasks p = (l2_done_store p, p\<lparr>l2_done_store := []\<rparr>)"

definition query_lookup_and_lock_result :: "int \<Rightarrow> 's l2 \<Rightarrow> bool list option \<times> 's l2" where
  "query_lookup_and_lock_result tid p =
     (dict_get (l2_done_lookup p) tid, p\<lparr>l2_done_lookup := dict_pop tid (l2_done_lookup p)\<rparr>)"

definition query_load_result :: "int \<Rightarrow> 's l2 \<Rightarrow> bool list option \<times> 's l2" where
  "query_load_result tid p =
     (dict_get (l2_done_load p) tid, p\<lparr>l2_done_load := dict_pop tid (l2_done_load p)\<rparr>)"

fun delete_loop :: "'s l2 \<Rightarrow> ObjectKey list \<Rightarrow> 's world \<Rightarrow> (exn + unit) \<times> 's world" where
  "delete_loop p [] w = (Inr (), w)"
| "delete_loop p (key # keys) w =
     (let (r, w1) = remove (l2_engine p) (to_ck p key) w in
      case r of Inl e \<Rightarrow> (Inl e, w1) | Inr _ \<Rightarrow> delete_loop p keys w1)"

definition l2_delete :: "ObjectKey list \<Rightarrow> 's l2 \<Rightarrow> 's world \<Rightarrow> (exn + unit) \<times> 's l2 \<times> 's world" where
  "l2_delete keys p w =
     (let (r, w1) = delete_loop p keys w in
      case r of
        Inl e \<Rightarrow> (Inl e, p, w1)
      | Inr _ \<Rightarrow> (Inr (), p\<lparr>l2_notes := l2_notes p @ [KeysDeleted keys (map (\<lambda>_. 0) keys)]\<rparr>, w1))"

definition l2_close :: "('c, 'e) client_lib \<Rightarrow> 's l2 \<times> ('c, 'e) registry \<Rightarrow> 's l2 \<times> ('c, 'e) registry" where
  "l2_close cx st =
     (let (p, reg) = st in
      (p\<lparr>l2_batch_executor := (l2_batch_executor p)\<lparr>ex_shutdown := True\<rparr>,
         l2_executor := (l2_executor p)\<lparr>ex_shutdown := True\<rparr>\<rparr>, release cx (l2_holder p) reg))"

section \<open>Blocks in parallel\<close>

definition CHUNK_SIZE :: nat where
  "CHUNK_SIZE = 32"

text \<open>The blocks in the order in which they run; the first exception is raised, the blocks that
  have been submitted run on.\<close>

fun chunks_in ::
  "('a list \<Rightarrow> 'w \<Rightarrow> (exn + bool list) \<times> 'w) \<Rightarrow> 'a list list \<Rightarrow> nat list \<Rightarrow> bool list option list \<Rightarrow> 'w \<Rightarrow>
   (exn + bool list option list) \<times> 'w" where
  "chunks_in fn chunks [] ordered w = (Inr ordered, w)"
| "chunks_in fn chunks (idx # sched) ordered w =
     (let (r, w1) = fn (chunks ! idx) w in
      case r of
        Inl e \<Rightarrow> (Inl e, snd (chunks_in fn chunks sched ordered w1))
      | Inr part \<Rightarrow> chunks_in fn chunks sched (ordered[idx := Some part]) w1)"

definition join_parts :: "bool list option list \<Rightarrow> exn + bool list" where
  "join_parts ordered =
     (case those ordered of None \<Rightarrow> Inl (Builtin AssertionError) | Some parts \<Rightarrow> Inr (concat parts))"

definition parallel_chunks ::
  "executor \<Rightarrow> nat list \<Rightarrow> ('a list \<Rightarrow> 'w \<Rightarrow> (exn + bool list) \<times> 'w) \<Rightarrow> 'a list \<Rightarrow> 'w \<Rightarrow> (exn + bool list) \<times> 'w" where
  "parallel_chunks batch_executor sched fn items w =
     (if length items \<le> CHUNK_SIZE then fn items w
      else
        (let chunks = blocks CHUNK_SIZE items in
         if length chunks = 1 then fn items w
         else run_in batch_executor (\<lambda>w.
           let (r, w1) = chunks_in fn chunks sched (replicate (length chunks) None) w
           in (bindE r join_parts, w1)) w))"

section \<open>Tasks\<close>

text \<open>The loop of \<open>_store_sync\<close> over \<open>zip(keys, objects, results)\<close>: \<open>ok\<close>, the stored keys, their
  sizes, and the total.\<close>

fun store_loop ::
  "heap \<Rightarrow> (ObjectKey \<times> nat \<times> bool) list \<Rightarrow> bool \<times> ObjectKey list \<times> int list \<times> int \<Rightarrow>
   bool \<times> ObjectKey list \<times> int list \<times> int" where
  "store_loop h [] st = st"
| "store_loop h ((key, obj, success) # zs) (ok, ks, sizes, tot) =
     (if \<not> success then store_loop h zs (False, ks, sizes, tot)
      else store_loop h zs (ok, ks @ [key], sizes @ [mo_size (h obj)], tot + mo_size (h obj)))"

definition store_sync ::
  "nat list \<Rightarrow> ObjectKey list \<Rightarrow> nat list \<Rightarrow> int \<Rightarrow> 's l2 \<Rightarrow> 's world \<Rightarrow> 's l2 \<times> 's world" where
  "store_sync sched keys objects tid p w =
     (let items = zip (map (to_ck p) keys) objects;
          (r, w1) = parallel_chunks (l2_batch_executor p) sched (\<lambda>chunk. batched_put (l2_engine p) chunk False) items w;
          (ok, stored_keys, stored_sizes, tot) =
            (case r of
               Inl e \<Rightarrow> (False, [], [], 0)
             | Inr results \<Rightarrow> store_loop (heap w1) (zip keys (zip objects results)) (True, [], [], 0));
          p1 = p\<lparr>l2_done_store := dict_set tid (ok, tot) (l2_done_store p)\<rparr>;
          p2 = (if ok \<and> stored_keys \<noteq> [] then p1\<lparr>l2_notes := l2_notes p1 @ [KeysStored stored_keys stored_sizes]\<rparr> else p1)
      in (p2\<lparr>l2_store_efd := Suc (l2_store_efd p2)\<rparr>, w1))"

text \<open>\<open>self._locked[ok] += 1\<close> on a \<open>defaultdict(int)\<close>.\<close>

definition lock_key :: "ObjectKey \<Rightarrow> (ObjectKey, int) dict \<Rightarrow> (ObjectKey, int) dict" where
  "lock_key key locked = dict_set key (dict_get_or locked key 0 + 1) locked"

text \<open>The keys whose bit is set.\<close>

definition selected :: "bool list \<Rightarrow> 'a list \<Rightarrow> 'a list" where
  "selected hits xs = map snd (filter fst (zip hits xs))"

definition lookup_sync :: "ObjectKey list \<Rightarrow> int \<Rightarrow> 's l2 \<Rightarrow> 's world \<Rightarrow> 's l2 \<times> 's world" where
  "lookup_sync keys tid p w =
     (let cks = map (to_ck p) keys;
          (r, w1) = batched_exists_mask (l2_engine p) cks w;
          hits = (case r of Inl e \<Rightarrow> replicate (length keys) False | Inr hs \<Rightarrow> hs);
          bm = take (length keys) hits @ replicate (length keys - length hits) False;
          p1 = p\<lparr>l2_locked := fold lock_key (selected hits keys) (l2_locked p)\<rparr>;
          hit_cks = selected hits cks;
          finish = (\<lambda>p. let p' = p\<lparr>l2_done_lookup := dict_set tid bm (l2_done_lookup p)\<rparr>
                        in p'\<lparr>l2_lookup_efd := Suc (l2_lookup_efd p')\<rparr>)
      in if hit_cks \<noteq> [] then
           (let (r', w2) = pin_keys (l2_engine p) hit_cks w1 in
            case r' of
              Inl e \<Rightarrow> (p1, w2)
            | Inr _ \<Rightarrow> (finish (p1\<lparr>l2_notes := l2_notes p1 @ [KeysAccessed (selected bm keys)]\<rparr>), w2))
         else (finish p1, w1))"

definition load_sync ::
  "nat list \<Rightarrow> ObjectKey list \<Rightarrow> nat list \<Rightarrow> int \<Rightarrow> 's l2 \<Rightarrow> 's world \<Rightarrow> 's l2 \<times> 's world" where
  "load_sync sched keys objects tid p w =
     (let items = zip (map (to_ck p) keys) objects;
          (r, w1) = parallel_chunks (l2_batch_executor p) sched (batched_get_preallocated (l2_engine p)) items w;
          bm = (case r of
                  Inl e \<Rightarrow> replicate (length keys) False
                | Inr hits \<Rightarrow> take (length keys) hits @ replicate (length keys - length hits) False);
          p1 = p\<lparr>l2_done_load := dict_set tid bm (l2_done_load p)\<rparr>
      in (p1\<lparr>l2_load_efd := Suc (l2_load_efd p1)\<rparr>, w1))"

definition unlock_key :: "ObjectKey \<Rightarrow> (ObjectKey, int) dict \<Rightarrow> (ObjectKey, int) dict" where
  "unlock_key key locked =
     (if dict_get_or locked key 0 \<le> 1 then dict_pop key locked
      else dict_set key (dict_get_or locked key 0 - 1) locked)"

fun unlock_sync :: "ObjectKey list \<Rightarrow> 's l2 \<Rightarrow> 's world \<Rightarrow> (exn + unit) \<times> 's l2 \<times> 's world" where
  "unlock_sync [] p w = (Inr (), p, w)"
| "unlock_sync (key # keys) p w =
     (if dict_get (l2_locked p) key = None then unlock_sync keys p w
      else
        (let p1 = p\<lparr>l2_locked := unlock_key key (l2_locked p)\<rparr>;
             (r, w1) = unpin (l2_engine p) (to_ck p key) w
         in case r of Inl e \<Rightarrow> (Inl e, p1, w1) | Inr _ \<Rightarrow> unlock_sync keys p1 w1))"

text \<open>The pool takes a queued task and runs it; exceptions of a task end in its future.\<close>

fun run_task :: "nat list \<Rightarrow> task \<Rightarrow> 's l2 \<Rightarrow> 's world \<Rightarrow> 's l2 \<times> 's world" where
  "run_task sched (TStore keys objects tid) p w = store_sync sched keys objects tid p w"
| "run_task sched (TLookup keys tid) p w = lookup_sync keys tid p w"
| "run_task sched (TLoad keys objects tid) p w = load_sync sched keys objects tid p w"
| "run_task sched (TUnlock keys) p w = snd (unlock_sync keys p w)"

definition run_pending :: "nat list \<Rightarrow> nat \<Rightarrow> 's l2 \<Rightarrow> 's world \<Rightarrow> 's l2 \<times> 's world" where
  "run_pending sched i p w =
     run_task sched (l2_pending p ! i) (p\<lparr>l2_pending := take i (l2_pending p) @ drop (Suc i) (l2_pending p)\<rparr>) w"

end
