(* ===== verification/L2_Chunks.thy ===== *)
theory L2_Chunks
  imports L2_Plugin
begin

text \<open>
  What \<open>_parallel_chunks\<close> relies on and promises. The locale \<open>chunk_worker\<close> is the contract of the
  function that works on one block: the flags it returns are sound, and it leaves the items of
  other blocks alone. Under it, blocks may run in any order: every flag of the joined result is
  sound at the end. The engine's \<open>batched_put\<close> and \<open>batched_get_preallocated\<close> keep the contract.
\<close>

section \<open>The contract of a block worker\<close>

locale chunk_worker =
  fixes fn :: "'a list \<Rightarrow> 'w \<Rightarrow> (exn + bool list) \<times> 'w"
    and ident :: "'a \<Rightarrow> 'n"
    and cond :: bool
    and good :: "'a \<Rightarrow> 'w \<Rightarrow> bool"
    and frame :: "'n \<Rightarrow> 'w \<Rightarrow> 'w \<Rightarrow> bool"
  assumes fn_flags: "fn xs w = (Inr bs, w') \<Longrightarrow> cond \<Longrightarrow> distinct (map ident xs) \<Longrightarrow>
      length bs = length xs \<and> (\<forall>i < length xs. bs ! i \<longrightarrow> good (xs ! i) w')"
    and fn_frame: "fn xs w = (r, w') \<Longrightarrow> cond \<Longrightarrow> distinct (map ident xs) \<Longrightarrow> n \<notin> ident ` set xs \<Longrightarrow> frame n w w'"
    and frame_refl: "frame n w w"
    and frame_trans: "frame n w w1 \<Longrightarrow> frame n w1 w2 \<Longrightarrow> frame n w w2"
    and good_frame: "good x w \<Longrightarrow> frame (ident x) w w' \<Longrightarrow> good x w'"
begin

text \<open>The blocks that are done have sound flags.\<close>

definition parts_ok :: "'a list list \<Rightarrow> bool list option list \<Rightarrow> 'w \<Rightarrow> bool" where
  "parts_ok chunks ordered w \<longleftrightarrow> length ordered = length chunks \<and>
     (\<forall>i < length chunks. \<forall>bs. ordered ! i = Some bs \<longrightarrow>
        length bs = length (chunks ! i) \<and> (\<forall>j < length (chunks ! i). bs ! j \<longrightarrow> good (chunks ! i ! j) w))"

lemma distinct_chunk:
  assumes "distinct (map ident (concat chunks))" "i < length chunks"
  shows "distinct (map ident (chunks ! i))"
  using assms by (induction chunks arbitrary: i) (auto simp: nth_Cons split: nat.splits)

lemma chunk_disjoint:
  assumes "distinct (map ident (concat chunks))" "i < length chunks" "j < length chunks" "i \<noteq> j" "x \<in> set (chunks ! i)"
  shows "ident x \<notin> ident ` set (chunks ! j)"
  using assms
proof (induction chunks arbitrary: i j)
  case (Cons c chunks)
  have other: "ident y \<noteq> ident z" if "y \<in> set c" "k < length chunks" "z \<in> set (chunks ! k)" for y z k
  proof -
    have "z \<in> set (concat chunks)" using that(2,3) nth_mem by fastforce
    with Cons.prems(1) that(1) show ?thesis by auto
  qed
  show ?case
  proof (cases i)
    case 0
    with Cons.prems(3-5) obtain m where "j = Suc m" "m < length chunks" "x \<in> set c" by (cases j) auto
    with other [of x m] show ?thesis by auto
  next
    case (Suc m)
    show ?thesis
    proof (cases j)
      case 0
      have "m < length chunks" "x \<in> set (chunks ! m)" using Suc Cons.prems(2,5) by auto
      then have "ident y \<noteq> ident x" if "y \<in> set c" for y using other [OF that] by blast
      with 0 show ?thesis by fastforce
    next
      case (Suc l)
      with \<open>i = Suc m\<close> Cons.IH [of m l] Cons.prems show ?thesis by simp
    qed
  qed
qed simp

lemma parts_ok_frame:
  assumes "parts_ok chunks ordered w" "\<And>i x bs. i < length chunks \<Longrightarrow> ordered ! i = Some bs \<Longrightarrow> x \<in> set (chunks ! i) \<Longrightarrow> frame (ident x) w w'"
  shows "parts_ok chunks ordered w'"
  using assms(1) good_frame [OF _ assms(2)] unfolding parts_ok_def by (metis nth_mem)

lemma chunks_in_frame:
  assumes "chunks_in fn chunks sched ordered w = (r, w')" "cond" "distinct (map ident (concat chunks))"
    and "\<forall>i \<in> set sched. i < length chunks \<and> n \<notin> ident ` set (chunks ! i)"
  shows "frame n w w'"
  using assms(1,4)
proof (induction sched arbitrary: ordered w r)
  case (Cons i sched)
  obtain q w1 where q: "fn (chunks ! i) w = (q, w1)" by fastforce
  have "frame n w w1" using Cons.prems(2) distinct_chunk [OF assms(3)] by (intro fn_frame [OF q assms(2)]) auto
  moreover have "\<exists>ordered r. chunks_in fn chunks sched ordered w1 = (r, w')"
    using Cons.prems(1) q by (cases q) (auto simp: prod_eq_iff)
  ultimately show ?case using Cons.IH Cons.prems(2) frame_trans by (metis list.set_intros(2))
qed (auto intro: frame_refl)

lemma chunks_in_parts:
  assumes "chunks_in fn chunks sched ordered w = (Inr ordered', w')" "cond" "distinct (map ident (concat chunks))"
    and "distinct sched" "\<forall>i \<in> set sched. i < length chunks \<and> ordered ! i = None" "parts_ok chunks ordered w"
  shows "parts_ok chunks ordered' w'"
  using assms(1,4-)
proof (induction sched arbitrary: ordered w)
  case (Cons i sched)
  obtain q w1 where q: "fn (chunks ! i) w = (q, w1)" by fastforce
  with Cons.prems(1) obtain part where part: "q = Inr part" "chunks_in fn chunks sched (ordered[i := Some part]) w1 = (Inr ordered', w')"
    by (cases q) auto
  have i: "i < length chunks" "ordered ! i = None" using Cons.prems(3) by auto
  have fl: "length part = length (chunks ! i)" "\<forall>j < length (chunks ! i). part ! j \<longrightarrow> good (chunks ! i ! j) w1"
    using fn_flags [OF q [unfolded part(1)] assms(2) distinct_chunk [OF assms(3) i(1)]] by auto
  have "frame (ident x) w w1" if "k < length chunks" "ordered ! k = Some bs" "x \<in> set (chunks ! k)" for k bs x
  proof (rule fn_frame [OF q assms(2) distinct_chunk [OF assms(3) i(1)]])
    have "k \<noteq> i" using that(2) i(2) by auto
    with chunk_disjoint [OF assms(3) that(1) i(1) _ that(3)] show "ident x \<notin> ident ` set (chunks ! i)" by blast
  qed
  then have "parts_ok chunks ordered w1" by (rule parts_ok_frame [OF Cons.prems(4)])
  then have "parts_ok chunks (ordered[i := Some part]) w1"
    using fl i(1) by (auto simp: parts_ok_def nth_list_update)
  moreover have "\<forall>k \<in> set sched. k < length chunks \<and> ordered[i := Some part] ! k = None"
    using Cons.prems(2,3) by (metis distinct.simps(2) list.set_intros(2) nth_list_update_neq)
  ultimately show ?case using Cons.IH [OF part(2)] Cons.prems(2) by simp
qed simp

lemma join_parts_flags:
  assumes "parts_ok chunks ordered w" "join_parts ordered = Inr bs"
  shows "length bs = length (concat chunks) \<and> (\<forall>i < length (concat chunks). bs ! i \<longrightarrow> good (concat chunks ! i) w)"
proof -
  obtain parts where p: "those ordered = Some parts" "bs = concat parts"
    using assms(2) by (auto simp: join_parts_def split: option.splits)
  then have o: "ordered = map Some parts" using those_map_iff [of id ordered parts]
    by (auto simp: list_all2_conv_all_nth intro: nth_equalityI)
  have "list_all2 (\<lambda>c part. list_all2 (\<lambda>x b. b \<longrightarrow> good x w) c part) chunks parts"
    using assms(1) by (auto simp: parts_ok_def o list_all2_conv_all_nth)
  then have "list_all2 (\<lambda>x b. b \<longrightarrow> good x w) (concat chunks) (concat parts)"
    by (induction rule: list_all2_induct) (auto intro: list_all2_appendI)
  with p(2) show ?thesis by (simp add: list_all2_conv_all_nth)
qed

lemma parallel_flags:
  assumes "parallel_chunks ex sched fn items w = (Inr bs, w')" "cond" "distinct (map ident items)"
    and "distinct sched" "set sched \<subseteq> {..<length (blocks CHUNK_SIZE items)}"
  shows "length bs = length items \<and> (\<forall>i < length items. bs ! i \<longrightarrow> good (items ! i) w')"
proof (cases "length items \<le> CHUNK_SIZE \<or> length (blocks CHUNK_SIZE items) = 1")
  case True
  with assms(1) have "fn items w = (Inr bs, w')" by (auto simp: parallel_chunks_def Let_def split: if_splits)
  from fn_flags [OF this assms(2,3)] show ?thesis .
next
  case False
  let ?cs = "blocks CHUNK_SIZE items"
  from False assms(1) obtain ordered where o: "chunks_in fn ?cs sched (replicate (length ?cs) None) w = (Inr ordered, w')"
    "join_parts ordered = Inr bs"
    by (auto simp: parallel_chunks_def Let_def run_in_def bindE_eq_Inr split: if_splits prod.splits)
  have "parts_ok ?cs (replicate (length ?cs) None) w" by (simp add: parts_ok_def)
  with o(1) assms(2-5) have "parts_ok ?cs ordered w'" by (intro chunks_in_parts [OF o(1)]) (auto simp: concat_blocks_of)
  from join_parts_flags [OF this o(2)] show ?thesis by (simp add: concat_blocks_of)
qed

lemma parallel_frame:
  assumes "parallel_chunks ex sched fn items w = (r, w')" "cond" "distinct (map ident items)"
    and "set sched \<subseteq> {..<length (blocks CHUNK_SIZE items)}" "n \<notin> ident ` set items"
  shows "frame n w w'"
proof -
  let ?cs = "blocks CHUNK_SIZE items"
  have "set (?cs ! i) \<subseteq> set items" if "i < length ?cs" for i
    using that nth_mem concat_blocks_of [of CHUNK_SIZE items] by (metis UN_upper set_concat)
  then have s: "\<forall>i \<in> set sched. i < length ?cs \<and> n \<notin> ident ` set (?cs ! i)" using assms(4,5) by blast
  consider "fn items w = (r, w')" | "w' = w"
    | q where "chunks_in fn ?cs sched (replicate (length ?cs) None) w = (q, w')"
    using assms(1) by (auto simp: parallel_chunks_def Let_def run_in_def split: if_splits prod.splits)
  then show ?thesis
  proof cases
    case 1
    from fn_frame [OF 1 assms(2,3,5)] show ?thesis .
  next
    case 2
    then show ?thesis by (simp add: frame_refl)
  next
    case 3
    from chunks_in_frame [OF 3 assms(2) _ s] assms(3) show ?thesis by (simp add: concat_blocks_of)
  qed
qed

end

section \<open>The engine keeps the contract\<close>

definition stored :: "('s, 'k) engine \<Rightarrow> ('s \<Rightarrow> dbview) \<Rightarrow> 'k \<times> nat \<Rightarrow> 's world \<Rightarrow> bool" where
  "stored E view item w \<longleftrightarrow> intact E (view (srv w)) (fst item) (mo_bytes (heap w (snd item)))"

definition same_content :: "('s, 'k) engine \<Rightarrow> ('s \<Rightarrow> dbview) \<Rightarrow> string \<Rightarrow> 's world \<Rightarrow> 's world \<Rightarrow> bool" where
  "same_content E view name w w' \<longleftrightarrow> heap w' = heap w \<and>
     (\<forall>ck. e_to_string E ck = name \<longrightarrow> payload_of E (view (srv w')) ck = payload_of E (view (srv w)) ck \<and>
        intact E (view (srv w')) ck = intact E (view (srv w)) ck)"

definition same_buffer :: "('s \<Rightarrow> dbview) \<Rightarrow> nat \<Rightarrow> 's world \<Rightarrow> 's world \<Rightarrow> bool" where
  "same_buffer view a w w' \<longleftrightarrow> view (srv w') = view (srv w) \<and> heap w' a = heap w a"

sublocale storage_env \<subseteq> puts: chunk_worker
  "\<lambda>items. batched_put E items False" "\<lambda>it. e_to_string E (fst it)" "0 < rl_target_segment_bytes (e_resolved E)"
  "stored E view" "same_content E view"
proof unfold_locales
  fix xs :: "('k \<times> nat) list" and w w' :: "'s world" and bs r n
  assume t: "0 < rl_target_segment_bytes (e_resolved E)" and d: "distinct (map (\<lambda>it. e_to_string E (fst it)) xs)"
  show "length bs = length xs \<and> (\<forall>i < length xs. bs ! i \<longrightarrow> stored E view (xs ! i) w')"
    if "batched_put E xs False w = (Inr bs, w')"
    using batched_put_outcome [OF that d t] by (auto simp: stores_def stored_def)
  show "same_content E view n w w'" if b: "batched_put E xs False w = (r, w')" and n: "n \<notin> (\<lambda>it. e_to_string E (fst it)) ` set xs"
  proof -
    note o = batched_put_outcome [OF b d t]
    have "payload_of E (view (srv w')) ck = payload_of E (view (srv w)) ck \<and>
        intact E (view (srv w')) ck = intact E (view (srv w)) ck" if "e_to_string E ck = n" for ck
      using n that by (intro conjI ext stores_other [OF conjunct2 [OF o]]) auto
    with o show ?thesis by (simp add: same_content_def)
  qed
qed (auto simp: same_content_def stored_def)

sublocale storage_env \<subseteq> gets: chunk_worker
  "batched_get_preallocated E" snd True "\<lambda>it w. holds E (view (srv w)) it (heap w)" "same_buffer view"
proof unfold_locales
  fix xs :: "('k \<times> nat) list" and w w' :: "'s world" and bs r n
  assume d: "distinct (map snd xs)"
  show "length bs = length xs \<and> (\<forall>i < length xs. bs ! i \<longrightarrow> holds E (view (srv w')) (xs ! i) (heap w'))"
    if "batched_get_preallocated E xs w = (Inr bs, w')"
    using batched_get_outcome [OF that d] by simp
  show "same_buffer view n w w'" if "batched_get_preallocated E xs w = (r, w')" and "n \<notin> snd ` set xs"
    using batched_get_frame [OF that(1) d] that(2) by (simp add: same_buffer_def)
qed (auto simp: same_buffer_def holds_def)

context storage_env
begin

lemmas parallel_put = puts.parallel_flags puts.parallel_frame
lemmas parallel_get = gets.parallel_flags gets.parallel_frame

end

end
