(* ===== verification/L2_Props.thy ===== *)
theory L2_Props
  imports L2_Chunks Storage_Plugin
begin

text \<open>
  Properties of the L2 plugin: what the results of store, load and lookup tasks mean, the lock
  table, the life of a task id, and start-up and shutdown.
\<close>

section \<open>Store tasks\<close>

lemma store_loop_spec:
  "store_loop h zs (ok, ks, sizes, tot) =
     (ok \<and> list_all (\<lambda>z. snd (snd z)) zs,
      ks @ map fst (filter (\<lambda>z. snd (snd z)) zs),
      sizes @ map (\<lambda>z. mo_size (h (fst (snd z)))) (filter (\<lambda>z. snd (snd z)) zs),
      tot + sum_list (map (\<lambda>z. mo_size (h (fst (snd z)))) (filter (\<lambda>z. snd (snd z)) zs)))"
  by (induction zs arbitrary: ok ks sizes tot) auto

lemma map_objects_zip3:
  assumes "length objects = length keys" "length results = length keys"
  shows "map (\<lambda>z. mo_size (h (fst (snd z)))) (zip keys (zip objects results)) = map (\<lambda>a. mo_size (h a)) objects"
  using assms by (intro nth_equalityI) auto

definition sched_ok :: "nat list \<Rightarrow> 'a list \<Rightarrow> bool" where
  "sched_ok sched items \<longleftrightarrow> distinct sched \<and> set sched \<subseteq> {..<length (blocks CHUNK_SIZE items)}"

lemma store_syncE:
  assumes "store_sync sched keys objects tid p w = (p', w')"
  obtains r w1 where
    "parallel_chunks (l2_batch_executor p) sched (\<lambda>chunk. batched_put (l2_engine p) chunk False)
       (zip (map (to_ck p) keys) objects) w = (r, w1)" "w' = w1"
    "dict_get (l2_done_store p') tid = Some (case r of Inl e \<Rightarrow> (False, 0) | Inr results \<Rightarrow>
       (let (ok, _, _, tot) = store_loop (heap w1) (zip keys (zip objects results)) (True, [], [], 0) in (ok, tot)))"
    "l2_notes p' = l2_notes p @ (case r of Inl e \<Rightarrow> [] | Inr results \<Rightarrow>
       (let (ok, ks, ss, _) = store_loop (heap w1) (zip keys (zip objects results)) (True, [], [], 0)
        in if ok \<and> ks \<noteq> [] then [KeysStored ks ss] else []))"
proof -
  let ?pc = "parallel_chunks (l2_batch_executor p) sched (\<lambda>chunk. batched_put (l2_engine p) chunk False)
       (zip (map (to_ck p) keys) objects) w"
  obtain r w1 where r: "?pc = (r, w1)" by fastforce
  obtain ok ks ss tot where s: "(case r of Inl e \<Rightarrow> (False, [], [], 0) | Inr results \<Rightarrow>
      store_loop (heap w1) (zip keys (zip objects results)) (True, [], [], 0)) = (ok, ks, ss, tot)" by (metis prod.exhaust)
  have "w' = w1" "dict_get (l2_done_store p') tid = Some (ok, tot)"
    "l2_notes p' = l2_notes p @ (if ok \<and> ks \<noteq> [] then [KeysStored ks ss] else [])"
    using assms by (auto simp: store_sync_def r s Let_def)
  with that r s show thesis by (cases r) auto
qed

text \<open>What the blocks of a store task do to the database: with distinct names a flag stands for a
  stored object, and nothing else changes.\<close>

lemma store_blocks:
  fixes p keys objects
  defines "items \<equiv> zip (map (to_ck p) keys) objects"
  assumes "storage_env (l2_engine p) view" "0 < rl_target_segment_bytes (e_resolved (l2_engine p))"
    and "distinct (map (\<lambda>k. e_to_string (l2_engine p) (to_ck p k)) keys)" and len: "length objects = length keys"
    and "sched_ok sched items"
    and r: "parallel_chunks (l2_batch_executor p) sched (\<lambda>chunk. batched_put (l2_engine p) chunk False) items w = (r, w')"
  shows "heap w' = heap w"
    and "e_to_string (l2_engine p) ck \<notin> (\<lambda>k. e_to_string (l2_engine p) (to_ck p k)) ` set keys \<Longrightarrow>
      payload_of (l2_engine p) (view (srv w')) ck = payload_of (l2_engine p) (view (srv w)) ck"
    and "r = Inr results \<Longrightarrow> length results = length keys"
    and "r = Inr results \<Longrightarrow> i < length keys \<Longrightarrow> results ! i \<Longrightarrow>
      intact (l2_engine p) (view (srv w')) (to_ck p (keys ! i)) (mo_bytes (heap w (objects ! i)))"
proof -
  let ?E = "l2_engine p"
  have nm: "map (\<lambda>it. e_to_string ?E (fst it)) items = map (\<lambda>k. e_to_string ?E (to_ck p k)) keys"
    using len by (intro nth_equalityI) (auto simp: items_def)
  have dn: "distinct (map (\<lambda>it. e_to_string ?E (fst it)) items)" using assms(4) by (simp only: nm)
  have s: "distinct sched" "set sched \<subseteq> {..<length (blocks CHUNK_SIZE items)}" using assms(6) by (auto simp: sched_ok_def)
  have ids: "(\<lambda>it. e_to_string ?E (fst it)) ` set items = (\<lambda>k. e_to_string ?E (to_ck p k)) ` set keys"
    by (metis list.set_map nm)
  note fr = storage_env.parallel_put(2) [OF assms(2) r assms(3) dn s(2), unfolded ids]
  obtain n where "n \<notin> (\<lambda>k. e_to_string ?E (to_ck p k)) ` set keys"
    using ex_new_if_finite [OF infinite_UNIV_listI] by (metis finite_imageI finite_set)
  from fr [OF this] show h: "heap w' = heap w" by (simp add: same_content_def)
  show "payload_of ?E (view (srv w')) ck = payload_of ?E (view (srv w)) ck"
    if "e_to_string ?E ck \<notin> (\<lambda>k. e_to_string ?E (to_ck p k)) ` set keys"
    using fr [OF that] by (simp add: same_content_def)
  assume "r = Inr results"
  note fl = storage_env.parallel_put(1) [OF assms(2) r [unfolded this] assms(3) dn s]
  then show "length results = length keys" using len by (simp add: items_def)
  assume "i < length keys" "results ! i"
  with fl len have "stored ?E view (items ! i) w'" by (simp add: items_def)
  with \<open>i < length keys\<close> len h
  show "intact ?E (view (srv w')) (to_ck p (keys ! i)) (mo_bytes (heap w (objects ! i)))"
    by (simp add: stored_def items_def)
qed

lemma store_loop_all:
  assumes "length objects = length keys" "length results = length keys"
  shows "store_loop h (zip keys (zip objects results)) (True, [], [], 0) =
    (if list_all id results then (True, keys, map (\<lambda>a. mo_size (h a)) objects, sum_list (map (\<lambda>a. mo_size (h a)) objects))
     else (False, snd (store_loop h (zip keys (zip objects results)) (True, [], [], 0))))"
proof -
  let ?zs = "zip keys (zip objects results)"
  have iff: "list_all (\<lambda>z. snd (snd z)) ?zs \<longleftrightarrow> list_all id results" using assms by (simp add: list_all_length)
  have "filter (\<lambda>z. snd (snd z)) ?zs = ?zs" if "list_all (\<lambda>z. snd (snd z)) ?zs"
    using that by (simp add: list_all_iff filter_True)
  moreover have "map fst ?zs = keys" using assms by simp
  ultimately show ?thesis using map_objects_zip3 [OF assms, of h] iff by (auto simp: store_loop_spec)
qed

text \<open>
  C9: the result of a store task is truthful. Under every order of its blocks, a task of items
  with different printed names completes with a result; if the result is a success, every key
  holds the bytes of its object, the reported size is the sum of the objects' sizes, and LMCache
  has been told exactly these keys; chunks with other names and all memory objects are unchanged
  in any case.
\<close>

theorem l2_store_sound:
  assumes "storage_env (l2_engine p) view" and "0 < rl_target_segment_bytes (e_resolved (l2_engine p))"
    and "distinct (map (\<lambda>k. e_to_string (l2_engine p) (to_ck p k)) keys)" and "length objects = length keys"
    and "sched_ok sched (zip (map (to_ck p) keys) objects)"
    and "store_sync sched keys objects tid p w = (p', w')"
  shows "\<exists>ok tot. dict_get (l2_done_store p') tid = Some (ok, tot) \<and>
    (ok \<longrightarrow> (\<forall>i < length keys. payload_of (l2_engine p) (view (srv w')) (to_ck p (keys ! i)) =
               Some (mo_bytes (heap w (objects ! i)))) \<and>
            tot = sum_list (map (\<lambda>a. mo_size (heap w a)) objects) \<and>
            l2_notes p' = l2_notes p @ (if keys = [] then [] else [KeysStored keys (map (\<lambda>a. mo_size (heap w a)) objects)])) \<and>
    heap w' = heap w \<and>
    (\<forall>ck. e_to_string (l2_engine p) ck \<notin> (\<lambda>k. e_to_string (l2_engine p) (to_ck p k)) ` set keys \<longrightarrow>
       payload_of (l2_engine p) (view (srv w')) ck = payload_of (l2_engine p) (view (srv w)) ck)"
proof -
  obtain r where r: "parallel_chunks (l2_batch_executor p) sched (\<lambda>chunk. batched_put (l2_engine p) chunk False)
       (zip (map (to_ck p) keys) objects) w = (r, w')"
    and d: "dict_get (l2_done_store p') tid = Some (case r of Inl e \<Rightarrow> (False, 0) | Inr results \<Rightarrow>
       (let (ok, _, _, tot) = store_loop (heap w') (zip keys (zip objects results)) (True, [], [], 0) in (ok, tot)))"
    and nt: "l2_notes p' = l2_notes p @ (case r of Inl e \<Rightarrow> [] | Inr results \<Rightarrow>
       (let (ok, ks, ss, _) = store_loop (heap w') (zip keys (zip objects results)) (True, [], [], 0)
        in if ok \<and> ks \<noteq> [] then [KeysStored ks ss] else []))"
    using assms(6) by (rule store_syncE) blast
  note o = store_blocks [OF assms(1-5) r]
  show ?thesis
  proof (cases "\<exists>results. r = Inr results \<and> list_all id results")
    case True
    then obtain results where i: "r = Inr results" "list_all id results" by blast
    note l = store_loop_all [OF assms(4) o(3) [OF i(1)], of "heap w"]
    have "results ! j" if "j < length keys" for j using i(2) o(3) [OF i(1)] that by (simp add: list_all_length)
    with o(4) [OF i(1)] d nt i l o(1,2) show ?thesis by (intro exI [of _ True]) (simp add: intact_def)
  next
    case False
    have "\<exists>tot. dict_get (l2_done_store p') tid = Some (False, tot)"
    proof (cases r)
      case (Inr results)
      with False store_loop_all [OF assms(4) o(3) [OF Inr], of "heap w'"] d show ?thesis by (auto split: prod.splits)
    qed (use d in simp)
    with o(1,2) show ?thesis by blast
  qed
qed

section \<open>Load tasks\<close>

text \<open>
  C10: the bitmap of a load task is truthful. Under every order of its blocks, with different
  buffers for different items, a set bit means that the buffer starts with the committed payload
  of its key (and the checksum matches); other objects and the database are unchanged.
\<close>

theorem l2_load_sound:
  assumes "storage_env (l2_engine p) view" and "distinct objects" and "length objects = length keys"
    and "sched_ok sched (zip (map (to_ck p) keys) objects)"
    and "load_sync sched keys objects tid p w = (p', w')"
  shows "\<exists>bm. dict_get (l2_done_load p') tid = Some bm \<and> length bm = length keys \<and>
    (\<forall>i < length keys. bm ! i \<longrightarrow> holds (l2_engine p) (view (srv w)) (to_ck p (keys ! i), objects ! i) (heap w')) \<and>
    (\<forall>a. a \<notin> set objects \<longrightarrow> heap w' a = heap w a) \<and> view (srv w') = view (srv w)"
proof -
  let ?E = "l2_engine p" let ?items = "zip (map (to_ck p) keys) objects"
  obtain r where r: "parallel_chunks (l2_batch_executor p) sched (batched_get_preallocated ?E) ?items w = (r, w')"
    and d: "dict_get (l2_done_load p') tid = Some (case r of Inl e \<Rightarrow> replicate (length keys) False
      | Inr hits \<Rightarrow> take (length keys) hits @ replicate (length keys - length hits) False)"
    using assms(5) by (auto simp: load_sync_def Let_def split: prod.splits)
  have ms: "map snd ?items = objects" using assms(3) by simp
  have s: "distinct sched" "set sched \<subseteq> {..<length (blocks CHUNK_SIZE ?items)}" using assms(4) by (auto simp: sched_ok_def)
  have ids: "snd ` set ?items = set objects" by (metis list.set_map ms)
  note fr = storage_env.parallel_get(2) [OF assms(1) r TrueI _ s(2), unfolded ms ids, OF assms(2)]
  obtain n where "n \<notin> set objects" using ex_new_if_finite [OF infinite_UNIV_nat] by (metis finite_set)
  from fr [OF this] have v: "view (srv w') = view (srv w)" by (simp add: same_buffer_def)
  have other: "\<forall>a. a \<notin> set objects \<longrightarrow> heap w' a = heap w a" using fr by (simp add: same_buffer_def)
  show ?thesis
  proof (cases r)
    case (Inl e)
    with d v other show ?thesis by simp
  next
    case (Inr hits)
    note fl = storage_env.parallel_get(1) [OF assms(1) r [unfolded Inr] TrueI _ s, unfolded ms, OF assms(2)]
    have len: "length hits = length keys" using fl assms(3) by simp
    have "holds ?E (view (srv w)) (to_ck p (keys ! i), objects ! i) (heap w')" if "i < length keys" "hits ! i" for i
      using fl that assms(3) v by auto
    with d Inr len v other show ?thesis by auto
  qed
qed

section \<open>Locks\<close>

text \<open>How often a key is locked; entries of the table are positive.\<close>

definition lock_count :: "(ObjectKey, int) dict \<Rightarrow> ObjectKey \<Rightarrow> int" where
  "lock_count d k = dict_get_or d k 0"

definition locks_ok :: "(ObjectKey, int) dict \<Rightarrow> bool" where
  "locks_ok d \<longleftrightarrow> (\<forall>k v. dict_get d k = Some v \<longrightarrow> 1 \<le> v)"

lemma locks_ok_pos: "locks_ok d \<Longrightarrow> dict_get d k = Some v \<Longrightarrow> 1 \<le> v"
  by (auto simp: locks_ok_def)

lemma lock_count_nonneg: "locks_ok d \<Longrightarrow> 0 \<le> lock_count d k"
  by (cases "dict_get d k") (auto simp: lock_count_def dict_get_or_def dest: locks_ok_pos)

lemma lock_key_count: "lock_count (lock_key key d) k = lock_count d k + (if k = key then 1 else 0)"
  by (simp add: lock_count_def lock_key_def dict_get_or_def)

lemma lock_key_ok: "locks_ok d \<Longrightarrow> locks_ok (lock_key key d)"
  using lock_count_nonneg [of d key] by (auto simp: locks_ok_def lock_key_def lock_count_def split: if_splits)

lemma unlock_key_count:
  "locks_ok d \<Longrightarrow> dict_get d key \<noteq> None \<Longrightarrow> lock_count (unlock_key key d) k = lock_count d k - (if k = key then 1 else 0)"
  by (force simp: lock_count_def unlock_key_def dict_get_or_def locks_ok_def split: option.splits)

lemma unlock_key_ok: "locks_ok d \<Longrightarrow> locks_ok (unlock_key key d)"
  by (auto simp: locks_ok_def unlock_key_def dict_get_or_def split: option.splits if_splits)

lemma fold_lock_count: "lock_count (fold lock_key ks d) k = lock_count d k + int (count_list ks k)"
  by (induction ks arbitrary: d) (auto simp: lock_key_count)

lemma fold_lock_ok: "locks_ok d \<Longrightarrow> locks_ok (fold lock_key ks d)"
  by (induction ks arbitrary: d) (auto simp: lock_key_ok)

lemma locks_ok_get: "locks_ok d \<Longrightarrow> dict_get d k = (if lock_count d k = 0 then None else Some (lock_count d k))"
  by (force simp: locks_ok_def lock_count_def dict_get_or_def split: option.splits)

context storage_env
begin

lemma unpin_returns:
  assumes "write_policy (e_consts E) (e_cfg E) = Inr wp"
  shows "\<exists>b. fst (unpin E ck w) = Inr b"
  using assms touch_error operate_error
  by (auto simp: unpin_def Let_def split: sum.splits prod.splits if_splits)

end

lemma unlock_sync_outcome:
  assumes "storage_env E view" "write_policy (e_consts E) (e_cfg E) = Inr wp" "l2_engine p = E" "locks_ok (l2_locked p)"
    and "\<forall>k. int (count_list ks k) \<le> lock_count (l2_locked p) k"
  shows "fst (unlock_sync ks p w) = Inr () \<and> locks_ok (l2_locked (fst (snd (unlock_sync ks p w)))) \<and>
    (\<forall>k. lock_count (l2_locked (fst (snd (unlock_sync ks p w)))) k = lock_count (l2_locked p) k - int (count_list ks k))"
  using assms(3-)
proof (induction ks arbitrary: p w)
  case (Cons key ks)
  have "1 \<le> lock_count (l2_locked p) key" using Cons.prems(3) [rule_format, of key] by simp
  then have g: "dict_get (l2_locked p) key \<noteq> None"
    by (cases "dict_get (l2_locked p) key") (auto simp: lock_count_def dict_get_or_def)
  let ?p1 = "p\<lparr>l2_locked := unlock_key key (l2_locked p)\<rparr>"
  obtain b w1 where u: "unpin E (to_ck p key) w = (Inr b, w1)" using storage_env.unpin_returns [OF assms(1,2)] by (metis prod.collapse)
  have c: "lock_count (l2_locked ?p1) k = lock_count (l2_locked p) k - (if k = key then 1 else 0)" for k
    using unlock_key_count [OF Cons.prems(2) g] by simp
  have "int (count_list ks k) \<le> lock_count (l2_locked ?p1) k" for k
    using Cons.prems(3) [rule_format, of k] c [of k] by (auto split: if_splits)
  then have "\<forall>k. int (count_list ks k) \<le> lock_count (l2_locked ?p1) k" by blast
  from Cons.IH [OF _ _ this, of w1] Cons.prems(1,2) unlock_key_ok c u g show ?case by auto
qed simp

lemma lookup_sync_locks:
  assumes "storage_env (l2_engine p) view" "write_policy (e_consts (l2_engine p)) (e_cfg (l2_engine p)) = Inr wp"
    and "lookup_sync keys tid p w = (p', w')"
  shows "\<exists>hits. fst (batched_exists_mask (l2_engine p) (map (to_ck p) keys) w) = Inr hits \<and> length hits = length keys \<and>
    dict_get (l2_done_lookup p') tid = Some hits \<and> l2_locked p' = fold lock_key (selected hits keys) (l2_locked p) \<and>
    l2_engine p' = l2_engine p \<and> l2_lookup_efd p' = Suc (l2_lookup_efd p) \<and>
    l2_notes p' = l2_notes p @ (if selected hits keys = [] then [] else [KeysAccessed (selected hits keys)])"
proof -
  obtain r w1 where m: "batched_exists_mask (l2_engine p) (map (to_ck p) keys) w = (r, w1)" by fastforce
  obtain hits where h: "r = Inr hits" "length hits = length keys"
    using storage_env.mask_length [OF assms(1) m] by auto
  have sel: "(selected hits (map (to_ck p) keys) = []) = (selected hits keys = [])"
    using h(2) by (auto simp: selected_def zip_map2 filter_empty_conv)
  obtain w2 where pk: "pin_keys (l2_engine p) (selected hits (map (to_ck p) keys)) w1 = (Inr (), w2)"
    using storage_env.pin_keys_returns [OF assms(1,2)] by (metis prod.collapse)
  from assms(3) m h sel pk show ?thesis by (auto simp: lookup_sync_def Let_def split: if_splits)
qed

text \<open>
  C19: a lookup always completes and its bitmap is truthful. On a healthy server the bit of a key is
  set exactly when its meta record is there; each hit is locked once more, all other locks
  stay, and exactly the hits are reported to LMCache as accessed.
\<close>

theorem l2_lookup_exact:
  assumes "healthy_env (l2_engine p) view live fits" and "live (srv w)"
    and "write_policy (e_consts (l2_engine p)) (e_cfg (l2_engine p)) = Inr wp"
    and "lookup_sync keys tid p w = (p', w')"
  shows "dict_get (l2_done_lookup p') tid =
      Some (map (\<lambda>k. view (srv w) (mk_of (l2_engine p) (to_ck p k)) \<noteq> None) keys) \<and>
    (\<forall>k. lock_count (l2_locked p') k = lock_count (l2_locked p) k +
       int (count_list (filter (\<lambda>k. view (srv w) (mk_of (l2_engine p) (to_ck p k)) \<noteq> None) keys) k)) \<and>
    l2_notes p' = l2_notes p @
      (let hit_keys = filter (\<lambda>k. view (srv w) (mk_of (l2_engine p) (to_ck p k)) \<noteq> None) keys
       in if hit_keys = [] then [] else [KeysAccessed hit_keys])"
proof -
  have se: "storage_env (l2_engine p) view" using assms(1) by (simp add: healthy_env_def)
  let ?hit = "\<lambda>k. view (srv w) (mk_of (l2_engine p) (to_ck p k)) \<noteq> None"
  from lookup_sync_locks [OF se assms(3,4)] obtain hits where
    h: "fst (batched_exists_mask (l2_engine p) (map (to_ck p) keys) w) = Inr hits"
      "dict_get (l2_done_lookup p') tid = Some hits" "l2_locked p' = fold lock_key (selected hits keys) (l2_locked p)"
      "l2_notes p' = l2_notes p @ (if selected hits keys = [] then [] else [KeysAccessed (selected hits keys)])" by blast
  have m: "hits = map ?hit keys"
    using healthy_env.mask_live [OF assms(1,2), of "map (to_ck p) keys"] h(1) by (simp add: comp_def)
  have "selected (map ?hit keys) keys = filter ?hit keys" by (induction keys) (auto simp: selected_def)
  with h m show ?thesis by (simp add: fold_lock_count)
qed

text \<open>
  C20: unlocking what a lookup has locked restores the lock table: with the hits of a lookup, in
  any order, \<open>_unlock_sync\<close> returns and every key is locked as often as before the lookup.
\<close>

theorem l2_lock_roundtrip:
  assumes "storage_env (l2_engine p) view"
    and "write_policy (e_consts (l2_engine p)) (e_cfg (l2_engine p)) = Inr wp" and "locks_ok (l2_locked p)"
    and "lookup_sync keys tid p w = (p1, w1)" and "dict_get (l2_done_lookup p1) tid = Some hits"
    and "mset ks = mset (selected hits keys)" and "unlock_sync ks p1 w2 = (r, p2, w3)"
  shows "r = Inr () \<and> dict_get (l2_locked p2) = dict_get (l2_locked p)"
proof -
  from lookup_sync_locks [OF assms(1,2,4)] assms(5)
  have l: "l2_locked p1 = fold lock_key (selected hits keys) (l2_locked p)" "l2_engine p1 = l2_engine p" by auto
  have c: "count_list ks k = count_list (selected hits keys) k" for k
    using assms(6) by (metis count_mset)
  have "locks_ok (l2_locked p1)" using l(1) assms(3) by (simp add: fold_lock_ok)
  moreover have "\<forall>k. int (count_list ks k) \<le> lock_count (l2_locked p1) k"
    using lock_count_nonneg [OF assms(3)] by (simp add: l(1) fold_lock_count c)
  ultimately have o: "fst (unlock_sync ks p1 w2) = Inr ()" "locks_ok (l2_locked (fst (snd (unlock_sync ks p1 w2))))"
    "\<forall>k. lock_count (l2_locked (fst (snd (unlock_sync ks p1 w2)))) k = lock_count (l2_locked p1) k - int (count_list ks k)"
    using unlock_sync_outcome [OF assms(1,2) l(2)] by blast+
  have "lock_count (l2_locked p2) k = lock_count (l2_locked p) k" for k
    using o(3) assms(7) by (simp add: l(1) fold_lock_count c)
  with o(2) assms(3,7) have "dict_get (l2_locked p2) k = dict_get (l2_locked p) k" for k
    by (simp add: locks_ok_get)
  with o(1) assms(7) show ?thesis by (simp add: fun_eq_iff)
qed

end
