(* ===== verification/L2_Tasks.thy ===== *)
theory L2_Tasks
  imports L2_Props
begin

text \<open>
  The life of a task id, and start-up and shutdown of the L2 plugin. The state machine lets
  submissions, the pool and the pops of LMCache interleave in any order; the list of delivered
  ids is what LMCache has received so far.
\<close>

section \<open>Task ids\<close>

fun task_id :: "task \<Rightarrow> int list" where
  "task_id (TStore keys objects tid) = [tid]"
| "task_id (TLookup keys tid) = [tid]"
| "task_id (TLoad keys objects tid) = [tid]"
| "task_id (TUnlock keys) = []"

text \<open>The places of a task id: queued, completed and waiting to be popped.\<close>

definition queued_ids :: "'s l2 \<Rightarrow> int list" where
  "queued_ids p = concat (map task_id (l2_pending p))"

definition done_ids :: "'s l2 \<Rightarrow> int list" where
  "done_ids p = map fst (l2_done_store p) @ map fst (l2_done_lookup p) @ map fst (l2_done_load p)"

text \<open>Submission while the pool is open, a worker taking any queued task, and the pops. A worker
  runs on a world that may have changed in between.\<close>

inductive l2_step :: "'s l2 \<times> int list \<Rightarrow> 's l2 \<times> int list \<Rightarrow> bool" where
  store: "submit_store_task keys objects p = (Inr tid, p') \<Longrightarrow> l2_step (p, dl) (p', dl)"
| lookup: "submit_lookup_and_lock_task keys p = (Inr tid, p') \<Longrightarrow> l2_step (p, dl) (p', dl)"
| load: "submit_load_task keys objects p = (Inr tid, p') \<Longrightarrow> l2_step (p, dl) (p', dl)"
| unlock: "submit_unlock keys p = (Inr u, p') \<Longrightarrow> l2_step (p, dl) (p', dl)"
| work: "i < length (l2_pending p) \<Longrightarrow> run_pending sched i p w = (p', w') \<Longrightarrow> l2_step (p, dl) (p', dl)"
| pop_stores: "pop_completed_store_tasks p = (d, p') \<Longrightarrow> l2_step (p, dl) (p', dl @ map fst d)"
| got_lookup: "query_lookup_and_lock_result tid p = (Some bm, p') \<Longrightarrow> l2_step (p, dl) (p', dl @ [tid])"
| got_load: "query_load_result tid p = (Some bm, p') \<Longrightarrow> l2_step (p, dl) (p', dl @ [tid])"

text \<open>Every id given out is in exactly one place.\<close>

definition ids_inv :: "'s l2 \<times> int list \<Rightarrow> bool" where
  "ids_inv st \<longleftrightarrow> 0 \<le> l2_next_id (fst st) \<and>
     mset (queued_ids (fst st) @ done_ids (fst st) @ snd st) = mset (map int [0..<nat (l2_next_id (fst st))])"

lemma ids_inv_distinct:
  assumes "ids_inv (p, dl)"
  shows "distinct (queued_ids p @ done_ids p @ dl)" and "set (queued_ids p @ done_ids p @ dl) = {0..<l2_next_id p}"
proof -
  have m: "mset (queued_ids p @ done_ids p @ dl) = mset (map int [0..<nat (l2_next_id p)])" and n: "0 \<le> l2_next_id p"
    using assms by (simp_all add: ids_inv_def)
  have "distinct (map int [0..<nat (l2_next_id p)])" by (simp add: distinct_map)
  with m show "distinct (queued_ids p @ done_ids p @ dl)" using mset_eq_imp_distinct_iff by blast
  have "set (map int [0..<nat (l2_next_id p)]) = {0..<l2_next_id p}"
    using n by (auto simp: image_iff intro!: bexI [of _ "nat _"])
  with m show "set (queued_ids p @ done_ids p @ dl) = {0..<l2_next_id p}" by (metis mset_eq_setD)
qed

lemma ids_inv_submit:
  assumes "ids_inv (p, dl)" "task_id t = [l2_next_id p]"
  shows "ids_inv (p\<lparr>l2_next_id := l2_next_id p + 1, l2_pending := l2_pending p @ [t]\<rparr>, dl)"
proof -
  have n: "0 \<le> l2_next_id p" using assms(1) by (simp add: ids_inv_def)
  have "[0..<nat (l2_next_id p + 1)] = [0..<nat (l2_next_id p)] @ [nat (l2_next_id p)]"
    using n by (simp add: nat_add_distrib)
  with assms n show ?thesis by (simp add: ids_inv_def queued_ids_def done_ids_def add.commute)
qed

lemma map_fst_pop: "map fst (dict_pop k d) = filter (\<lambda>j. j \<noteq> k) (map fst d)"
  by (induction d) auto

lemma mset_pop:
  assumes "distinct (map fst d)" "dict_get d k = Some v"
  shows "mset (map fst d) = add_mset k (mset (map fst (dict_pop k d)))"
proof -
  have "k \<in> set (map fst d)" using assms(2) by (force dest: map_of_SomeD)
  have "mset xs = add_mset k (mset (filter (\<lambda>j. j \<noteq> k) xs))" if "distinct xs" "k \<in> set xs" for xs
  proof -
    have "filter (\<lambda>j. j \<noteq> k) xs = remove1 k xs"
      using that(1) by (simp add: distinct_remove1_removeAll removeAll_filter_not_eq eq_commute [of k])
    with that(2) show ?thesis by simp
  qed
  from this [OF assms(1) \<open>k \<in> set (map fst d)\<close>] show ?thesis by (simp only: map_fst_pop)
qed

text \<open>A worker moves the id of its task from the queue to the results, and touches no other
  result.\<close>

lemma unlock_sync_ids:
  "l2_next_id (fst (snd (unlock_sync ks p w))) = l2_next_id p \<and> l2_pending (fst (snd (unlock_sync ks p w))) = l2_pending p \<and>
   done_ids (fst (snd (unlock_sync ks p w))) = done_ids p \<and> l2_engine (fst (snd (unlock_sync ks p w))) = l2_engine p"
  by (induction ks p w rule: unlock_sync.induct)
     (auto simp: Let_def done_ids_def split: prod.splits sum.splits if_splits)

lemma store_sync_ids:
  assumes "store_sync sched keys objects tid p w = (p', w')" "tid \<notin> set (done_ids p)"
  shows "l2_next_id p' = l2_next_id p \<and> l2_pending p' = l2_pending p \<and> l2_engine p' = l2_engine p \<and>
    mset (done_ids p') = add_mset tid (mset (done_ids p))"
  using assms by (auto simp: store_sync_def Let_def done_ids_def dict_set_new split: prod.splits)

lemma load_sync_ids:
  assumes "load_sync sched keys objects tid p w = (p', w')" "tid \<notin> set (done_ids p)"
  shows "l2_next_id p' = l2_next_id p \<and> l2_pending p' = l2_pending p \<and> l2_engine p' = l2_engine p \<and>
    mset (done_ids p') = add_mset tid (mset (done_ids p))"
  using assms by (auto simp: load_sync_def Let_def done_ids_def dict_set_new split: prod.splits)

lemma lookup_sync_ids:
  assumes "storage_env (l2_engine p) view" "write_policy (e_consts (l2_engine p)) (e_cfg (l2_engine p)) = Inr wp"
    and "lookup_sync keys tid p w = (p', w')" "tid \<notin> set (done_ids p)"
  shows "l2_next_id p' = l2_next_id p \<and> l2_pending p' = l2_pending p \<and> l2_engine p' = l2_engine p \<and>
    mset (done_ids p') = add_mset tid (mset (done_ids p))"
proof -
  obtain r w1 where m: "batched_exists_mask (l2_engine p) (map (to_ck p) keys) w = (r, w1)" by fastforce
  have "\<exists>w2. pin_keys (l2_engine p) xs w1 = (Inr (), w2)" for xs
    using storage_env.pin_keys_returns [OF assms(1,2)] by (metis prod.collapse)
  then obtain w2 where "pin_keys (l2_engine p) (selected (case r of Inl e \<Rightarrow> replicate (length keys) False | Inr hs \<Rightarrow> hs)
    (map (to_ck p) keys)) w1 = (Inr (), w2)" by blast
  with assms(3,4) m show ?thesis
    by (auto simp: lookup_sync_def Let_def done_ids_def dict_set_new split: if_splits)
qed

lemma run_task_ids:
  assumes "storage_env (l2_engine p) view" "write_policy (e_consts (l2_engine p)) (e_cfg (l2_engine p)) = Inr wp"
    and "run_task sched t p w = (p', w')" "\<forall>tid \<in> set (task_id t). tid \<notin> set (done_ids p)"
  shows "l2_next_id p' = l2_next_id p \<and> l2_pending p' = l2_pending p \<and> l2_engine p' = l2_engine p \<and>
    mset (done_ids p') = mset (task_id t) + mset (done_ids p)"
proof (cases t)
  case (TUnlock keys)
  with assms(3) unlock_sync_ids [of keys p w] show ?thesis by auto
next
  case (TStore keys objects tid)
  with assms(3,4) store_sync_ids [of sched keys objects tid p w p' w'] show ?thesis by simp
next
  case (TLoad keys objects tid)
  with assms(3,4) load_sync_ids [of sched keys objects tid p w p' w'] show ?thesis by simp
next
  case (TLookup keys tid)
  with assms(3,4) lookup_sync_ids [OF assms(1,2), of keys tid w p' w'] show ?thesis by simp
qed

lemma mset_pending:
  "i < length ts \<Longrightarrow> mset (concat (map task_id ts)) = mset (task_id (ts ! i)) + mset (concat (map task_id (take i ts @ drop (Suc i) ts)))"
  by (subst id_take_nth_drop [of i ts], assumption) simp

lemma ids_inv_work:
  assumes "storage_env (l2_engine p) view" "write_policy (e_consts (l2_engine p)) (e_cfg (l2_engine p)) = Inr wp"
    and "i < length (l2_pending p)" "run_pending sched i p w = (p', w')" "ids_inv (p, dl)"
  shows "ids_inv (p', dl) \<and> l2_engine p' = l2_engine p"
proof -
  let ?t = "l2_pending p ! i" and ?q = "p\<lparr>l2_pending := take i (l2_pending p) @ drop (Suc i) (l2_pending p)\<rparr>"
  have q: "mset (queued_ids p) = mset (task_id ?t) + mset (queued_ids ?q)" "done_ids ?q = done_ids p"
    using mset_pending [OF assms(3)] by (simp_all add: queued_ids_def done_ids_def)
  have "distinct (queued_ids p @ done_ids p @ dl)" by (rule ids_inv_distinct(1) [OF assms(5)])
  moreover have "set (task_id ?t) \<subseteq> set (queued_ids p)" using q(1) by (metis mset_subset_eq_add_left set_mset_mono set_mset_mset)
  ultimately have "\<forall>tid \<in> set (task_id ?t). tid \<notin> set (done_ids ?q)" using q(2) by auto
  from run_task_ids [OF _ _ _ this, of view wp sched w p' w'] assms(1,2,4)
  have r: "l2_next_id p' = l2_next_id p" "queued_ids p' = queued_ids ?q" "l2_engine p' = l2_engine p"
    "mset (done_ids p') = mset (task_id ?t) + mset (done_ids p)"
    by (simp_all add: run_pending_def queued_ids_def done_ids_def)
  with assms(5) q show ?thesis by (simp add: ids_inv_def ac_simps)
qed

lemma ids_inv_step:
  assumes "l2_step (p, dl) (p', dl')" "ids_inv (p, dl)"
    and "storage_env (l2_engine p) view" "write_policy (e_consts (l2_engine p)) (e_cfg (l2_engine p)) = Inr wp"
  shows "ids_inv (p', dl') \<and> l2_engine p' = l2_engine p"
  using assms(1)
proof cases
  case (store keys objects tid)
  with assms(2) ids_inv_submit [of p dl "TStore keys objects (l2_next_id p)"] show ?thesis
    by (auto simp: submit_store_task_def alloc_id_def submit_task_def split: if_splits)
next
  case (lookup keys tid)
  with assms(2) ids_inv_submit [of p dl "TLookup keys (l2_next_id p)"] show ?thesis
    by (auto simp: submit_lookup_and_lock_task_def alloc_id_def submit_task_def split: if_splits)
next
  case (load keys objects tid)
  with assms(2) ids_inv_submit [of p dl "TLoad keys objects (l2_next_id p)"] show ?thesis
    by (auto simp: submit_load_task_def alloc_id_def submit_task_def split: if_splits)
next
  case (unlock keys u)
  with assms(2) show ?thesis
    by (auto simp: submit_unlock_def submit_task_def ids_inv_def queued_ids_def done_ids_def split: if_splits)
next
  case (work i sched w w')
  with ids_inv_work [OF assms(3,4) work(2,3)] assms(2) show ?thesis by simp
next
  case (pop_stores d)
  with assms(2) show ?thesis
    by (auto simp: pop_completed_store_tasks_def ids_inv_def queued_ids_def done_ids_def ac_simps)
next
  case (got_lookup tid bm)
  have "distinct (map fst (l2_done_lookup p))" using ids_inv_distinct(1) [OF assms(2)] by (simp add: done_ids_def)
  from mset_pop [OF this, of tid bm] got_lookup assms(2) show ?thesis
    by (auto simp: query_lookup_and_lock_result_def ids_inv_def queued_ids_def done_ids_def)
next
  case (got_load tid bm)
  have "distinct (map fst (l2_done_load p))" using ids_inv_distinct(1) [OF assms(2)] by (simp add: done_ids_def)
  from mset_pop [OF this, of tid bm] got_load assms(2) show ?thesis
    by (auto simp: query_load_result_def ids_inv_def queued_ids_def done_ids_def)
qed

lemma ids_inv_run:
  assumes "l2_step\<^sup>*\<^sup>* (p, dl) (p', dl')" "ids_inv (p, dl)"
    and "storage_env (l2_engine p) view" "write_policy (e_consts (l2_engine p)) (e_cfg (l2_engine p)) = Inr wp"
  shows "ids_inv (p', dl') \<and> l2_engine p' = l2_engine p"
  using assms by (induction rule: rtranclp_induct2) (auto dest!: ids_inv_step)

text \<open>A plugin as the constructor leaves it.\<close>

definition fresh_l2 :: "'s l2 \<Rightarrow> bool" where
  "fresh_l2 p \<longleftrightarrow> l2_pending p = [] \<and> l2_next_id p = 0 \<and> l2_done_store p = [] \<and> l2_done_lookup p = [] \<and> l2_done_load p = []"

text \<open>
  C13: every task is delivered exactly once. In every state that submissions, workers and pops can
  reach from a fresh plugin, each id given out so far is in exactly one place: queued, completed
  but not yet popped, or delivered to LMCache, and in that place only once; no other id occurs.
  So no result is lost or delivered twice, and when the queue is empty and everything has been
  popped, all results have been delivered.
\<close>

theorem l2_tasks_exactly_once:
  assumes "l2_step\<^sup>*\<^sup>* (p0, []) (p, delivered)" and "fresh_l2 p0"
    and "storage_env (l2_engine p0) view"
    and "write_policy (e_consts (l2_engine p0)) (e_cfg (l2_engine p0)) = Inr wp"
  shows "distinct (queued_ids p @ done_ids p @ delivered) \<and>
    set (queued_ids p @ done_ids p @ delivered) = {0..<l2_next_id p}"
proof -
  have "ids_inv (p0, [])" using assms(2) by (simp add: fresh_l2_def ids_inv_def queued_ids_def done_ids_def)
  from ids_inv_run [OF assms(1) this assms(3,4)] have "ids_inv (p, delivered)" by blast
  from ids_inv_distinct [OF this] show ?thesis by blast
qed

section \<open>Start-up and shutdown\<close>

text \<open>
  An L2 plugin that starts is ready for use: its limits are within the server's record size,
  its two thread pools have positive size, the second one at most four workers, it holds a
  reference on an open client, its task table is empty, and its engine reads only into buffers
  that the caller provides.
\<close>

theorem l2_init_ready:
  assumes "runs consts cx reg refs" and "l2_init (X, consts, to_str) cx config reg = (Inr p, reg')"
  shows "limits_ok (e_resolved (l2_engine p)) \<and> 0 < ex_workers (l2_executor p) \<and>
    1 \<le> ex_workers (l2_batch_executor p) \<and> ex_workers (l2_batch_executor p) \<le> 4 \<and> fresh_l2 p \<and>
    l2_dtype p \<in> snd ` set DTYPE_MAP \<and>
    runs consts cx reg' (refs(l2_holder p := Suc (refs (l2_holder p)))) \<and> \<not> h_closed (rg_holders reg' ! l2_holder p) \<and>
    (\<forall>ck w a. fst (get (l2_engine p) ck None w) \<noteq> Inr (Some a))"
proof -
  obtain as_cfg i E ex bex dt prm where c: "from_adapter_params (Some prm) (lc_plugin_name config) = Inr as_cfg"
    and g: "get_or_create consts cx as_cfg reg = (Inr i, reg')"
    and b: "build_engine_l2 (X, consts, to_str) as_cfg (h_client (rg_holders reg' ! i)) dt = Inr (E, ex)"
    and t: "thread_pool (min 4 (max 1 (cfg_executor_threads as_cfg div 4))) = Inr bex"
    and dt: "dt = (case dict_get DTYPE_MAP (lower (lc_dtype config)) of Some t \<Rightarrow> t | None \<Rightarrow> ''torch.bfloat16'')"
    and p: "l2_engine p = E" "l2_holder p = i" "l2_executor p = ex" "l2_batch_executor p = bex" "l2_dtype p = dt" "fresh_l2 p"
    using assms(2)
    by (auto simp: l2_init_def Let_def bindE_eq_Inr fresh_l2_def split: sum.splits prod.splits)
  from build_engine_l2_Inr [OF b] obtain rl where rl: "discover_and_resolve (rc_info (h_client (rg_holders reg' ! i))) as_cfg = Inr rl"
    "e_resolved E = rl" "e_allocate_for_read E = l2_allocate" "0 < ex_workers ex" by blast
  have "limits_ok rl" using c rl(1) unfolding from_adapter_params_def Let_def by (rule start_up_limits_ok)
  moreover have r: "runs consts cx reg' (refs(i := Suc (refs i)))" by (rule runs.got [OF assms(1) g])
  moreover have "\<not> h_closed (rg_holders reg' ! i)" using runs_live [OF r, of i] by simp
  moreover have "dt \<in> snd ` set DTYPE_MAP"
  proof (cases "dict_get DTYPE_MAP (lower (lc_dtype config))")
    case None
    then show ?thesis by (simp add: dt) (simp add: DTYPE_MAP_def)
  next
    case (Some t)
    then show ?thesis by (simp add: dt) (metis map_of_SomeD image_iff snd_conv)
  qed
  moreover have "fst (get E ck None w) \<noteq> Inr (Some a)" for ck w a
    using l2_get_needs_buffer [OF rl(3) prod.collapse [symmetric], of ck w a] by simp
  moreover have "1 \<le> ex_workers bex" "ex_workers bex \<le> 4" using t by (auto simp: thread_pool_Inr)
  ultimately show ?thesis using p rl by simp
qed

text \<open>
  The L2 plugin's \<open>close\<close> is not idempotent. If the client's holder has two references, one of
  this plugin and one of another user, then calling \<open>close\<close> twice gives back both, and the
  client is closed under the other user.
\<close>

theorem l2_double_close:
  assumes "runs consts cx reg refs" and "refs (l2_holder p) = 2" and "l2_close cx (p, reg) = (p1, reg1)"
    and "l2_close cx (p1, reg1) = (p2, reg2)"
  shows "\<not> h_closed (rg_holders reg1 ! l2_holder p) \<and> h_closed (rg_holders reg2 ! l2_holder p)"
proof -
  let ?i = "l2_holder p"
  have c: "reg1 = release cx ?i reg" "reg2 = release cx ?i reg1" using assms(3,4) by (auto simp: l2_close_def)
  have r1: "runs consts cx reg1 (refs(?i := 1))" using runs.released [OF assms(1), of ?i] assms(2) c(1) by simp
  have r2: "runs consts cx reg2 (refs(?i := 0))" using runs.released [OF r1, of ?i] c(2) by simp
  have live: "?i < length (rg_holders reg1)" "\<not> h_closed (rg_holders reg1 ! ?i)" using runs_live [OF r1, of ?i] by simp_all
  have "length (rg_holders reg2) = length (rg_holders reg1)"
    using c(2) by (simp add: release_def Let_def split: prod.splits)
  with runs_inv [OF r2] live show ?thesis by (simp add: registry_inv_def)
qed

section \<open>Samples\<close>

definition l2_cfg :: AerospikeConfig where
  "l2_cfg = sample_cfg\<lparr>cfg_enable_crc32 := False\<rparr>"

definition l2_sample_engine :: "(server, CacheEngineKey) engine" where
  "l2_sample_engine = engine_init l2_cfg ref_client (l2_metadata ''torch.bfloat16'') sample_limits l2_reshape l2_allocate
     None model_name (flat_memory [] (build_remote_metadata sample_mo)) sample_consts"

definition l2_sample :: "server l2" where
  "l2_sample = \<lparr>l2_engine = l2_sample_engine, l2_dtype = ''torch.bfloat16'', l2_capacity = 0, l2_holder = 0,
     l2_executor = \<lparr>ex_workers = 2, ex_shutdown = False\<rparr>, l2_batch_executor = \<lparr>ex_workers = 1, ex_shutdown = False\<rparr>,
     l2_pending = [], l2_locked = [], l2_next_id = 0, l2_done_store = [], l2_done_lookup = [], l2_done_load = [],
     l2_store_efd = 0, l2_lookup_efd = 0, l2_load_efd = 0, l2_notes = []\<rparr>"

definition okey :: "string \<Rightarrow> ObjectKey" where
  "okey n = \<lparr>ok_model_name = n, ok_kv_rank = 0, ok_chunk_hash = [1, 2], ok_cache_salt = []\<rparr>"

lemma l2_sample_env: "healthy_env (l2_engine l2_sample) sv_view sv_up sv_fits" "storage_env (l2_engine l2_sample) sv_view"
  unfolding l2_sample_def l2_sample_engine_def l2.select_convs
  by (rule ref_env.healthy_env_axioms, rule ref_env.storage_env_axioms)

lemma l2_sample_policy: "\<exists>wp. write_policy (e_consts (l2_engine l2_sample)) (e_cfg (l2_engine l2_sample)) = Inr wp"
proof -
  have "config_ok l2_cfg" by (simp add: l2_cfg_def sample_cfg_def config_ok_def COMMIT_LEVELS_def REPLICAS_def)
  from write_policy_ok [OF sample_consts_ok this] show ?thesis by (auto simp: l2_sample_def l2_sample_engine_def)
qed

lemma l2_sample_names: "e_to_string (l2_engine l2_sample) (to_ck l2_sample (okey n)) = n"
  by (simp add: l2_sample_def l2_sample_engine_def to_ck_def object_key_to_cache_engine_key_def okey_def Let_def)

lemma l2_sample_target: "0 < rl_target_segment_bytes (e_resolved (l2_engine l2_sample))"
  by (simp add: l2_sample_def l2_sample_engine_def sample_limits_def)

theorem l2_store_sound_witness:
  "\<exists>p' w'. store_sync [] [okey ''k''] [0] 7 l2_sample sample_world = (p', w') \<and>
     dict_get (l2_done_store p') 7 = Some (True, 3) \<and>
     payload_of (l2_engine l2_sample) (sv_view (srv w')) (to_ck l2_sample (okey ''k'')) = Some sample_bytes"
proof -
  obtain p' w' where s: "store_sync [] [okey ''k''] [0] 7 l2_sample sample_world = (p', w')" by fastforce
  have "dict_get (l2_done_store (fst (store_sync [] [okey ''k''] [0] 7 l2_sample sample_world))) 7 = Some (True, 3)"
    by code_simp
  with s have d: "dict_get (l2_done_store p') 7 = Some (True, 3)" by simp
  from l2_store_sound [OF l2_sample_env(2) l2_sample_target _ _ _ s] d s show ?thesis
    by (auto simp: sched_ok_def sample_world_def sample_heap_def)
qed

definition stored_world :: "server world" where
  "stored_world = snd (store_sync [] [okey ''k''] [0] 7 l2_sample sample_world)"

theorem l2_load_sound_witness:
  "\<exists>p' w'. load_sync [] [okey ''k'', okey ''x''] [1, 2] 8 l2_sample stored_world = (p', w') \<and>
     dict_get (l2_done_load p') 8 = Some [True, False] \<and>
     holds (l2_engine l2_sample) (sv_view (srv stored_world)) (to_ck l2_sample (okey ''k''), 1) (heap w')"
proof -
  obtain p' w' where l: "load_sync [] [okey ''k'', okey ''x''] [1, 2] 8 l2_sample stored_world = (p', w')" by fastforce
  have "dict_get (l2_done_load (fst (load_sync [] [okey ''k'', okey ''x''] [1, 2] 8 l2_sample stored_world))) 8 = Some [True, False]"
    by code_simp
  with l have d: "dict_get (l2_done_load p') 8 = Some [True, False]" by simp
  have "\<exists>bm. dict_get (l2_done_load p') 8 = Some bm \<and> length bm = length [okey ''k'', okey ''x''] \<and>
    (\<forall>i < length [okey ''k'', okey ''x'']. bm ! i \<longrightarrow>
       holds (l2_engine l2_sample) (sv_view (srv stored_world)) (to_ck l2_sample ([okey ''k'', okey ''x''] ! i), [1, 2] ! i) (heap w')) \<and>
    (\<forall>a. a \<notin> set [1, 2] \<longrightarrow> heap w' a = heap stored_world a) \<and> sv_view (srv w') = sv_view (srv stored_world)"
    by (rule l2_load_sound [OF l2_sample_env(2) _ _ _ l]) (simp_all add: sched_ok_def)
  with d l show ?thesis by fastforce
qed

theorem l2_lookup_exact_witness:
  "\<exists>p' w'. lookup_sync [okey ''x'', okey ''k''] 9 l2_sample stored_world = (p', w') \<and>
     dict_get (l2_done_lookup p') 9 = Some [False, True] \<and> lock_count (l2_locked p') (okey ''k'') = 1"
proof -
  obtain p' w' where l: "lookup_sync [okey ''x'', okey ''k''] 9 l2_sample stored_world = (p', w')" by fastforce
  obtain wp where wp: "write_policy (e_consts (l2_engine l2_sample)) (e_cfg (l2_engine l2_sample)) = Inr wp"
    using l2_sample_policy by blast
  have up: "sv_up (srv stored_world)" by code_simp
  have pr: "sv_view (srv stored_world) (mk_of (l2_engine l2_sample) (to_ck l2_sample (okey ''x''))) = None"
    "sv_view (srv stored_world) (mk_of (l2_engine l2_sample) (to_ck l2_sample (okey ''k''))) \<noteq> None"
    by code_simp+
  note o = l2_lookup_exact [OF l2_sample_env(1) up wp l]
  have "dict_get (l2_done_lookup p') 9 = Some [False, True]" using o pr by simp
  moreover have "lock_count (l2_locked p') (okey ''k'') = 1"
    using o pr by (simp add: lock_count_def dict_get_or_def l2_sample_def)
  ultimately show ?thesis using l by blast
qed

theorem l2_lock_roundtrip_witness:
  "\<exists>p1 w1 p2 w2. lookup_sync [okey ''k''] 9 l2_sample stored_world = (p1, w1) \<and>
     unlock_sync [okey ''k''] p1 w1 = (Inr (), p2, w2) \<and> dict_get (l2_locked p2) (okey ''k'') = None"
proof -
  obtain p1 w1 where l: "lookup_sync [okey ''k''] 9 l2_sample stored_world = (p1, w1)" by fastforce
  obtain r p2 w2 where u: "unlock_sync [okey ''k''] p1 w1 = (r, p2, w2)" by (metis prod.exhaust)
  obtain wp where wp: "write_policy (e_consts (l2_engine l2_sample)) (e_cfg (l2_engine l2_sample)) = Inr wp"
    using l2_sample_policy by blast
  have "dict_get (l2_done_lookup (fst (lookup_sync [okey ''k''] 9 l2_sample stored_world))) 9 = Some [True]" by code_simp
  with l have d: "dict_get (l2_done_lookup p1) 9 = Some [True]" by simp
  have "locks_ok (l2_locked l2_sample)" by (simp add: locks_ok_def l2_sample_def)
  from l2_lock_roundtrip [OF l2_sample_env(2) wp this l d _ u] l u show ?thesis
    by (auto simp: selected_def l2_sample_def)
qed

theorem l2_tasks_exactly_once_witness:
  "\<exists>p. submit_lookup_and_lock_task [okey ''k''] l2_sample = (Inr 0, p) \<and> queued_ids p = [0] \<and>
     distinct (queued_ids p @ done_ids p @ []) \<and> set (queued_ids p @ done_ids p @ []) = {0..<l2_next_id p}"
proof -
  obtain p where s: "submit_lookup_and_lock_task [okey ''k''] l2_sample = (Inr 0, p)" and q: "queued_ids p = [0]"
    by (simp add: submit_lookup_and_lock_task_def alloc_id_def submit_task_def l2_sample_def queued_ids_def)
  then have st: "l2_step\<^sup>*\<^sup>* (l2_sample, []) (p, [])" using l2_step.lookup by blast
  obtain wp where wp: "write_policy (e_consts (l2_engine l2_sample)) (e_cfg (l2_engine l2_sample)) = Inr wp"
    using l2_sample_policy by blast
  have "fresh_l2 l2_sample" by (simp add: fresh_l2_def l2_sample_def)
  from l2_tasks_exactly_once [OF st this l2_sample_env(2) wp] s q show ?thesis by blast
qed

definition sample_l2_config :: L2PluginConfig where
  "sample_l2_config = \<lparr>lc_hosts = ''h:3000'', lc_namespace = ''ns'', lc_set_name = ''kv'', lc_default_ttl_seconds = 60,
     lc_max_capacity_gb = (3, - 1), lc_dtype = ''Float16'', lc_plugin_name = ''a''\<rparr>"

definition sample_l2_start :: "(exn + server l2) \<times> (server remote_client, nat) registry" where
  "sample_l2_start = l2_init (flat_memory [] (build_remote_metadata sample_mo), sample_consts, model_name)
     (server_lib sample_info) sample_l2_config empty_registry"

theorem l2_init_ready_witness:
  "\<exists>p reg. sample_l2_start = (Inr p, reg) \<and> limits_ok (e_resolved (l2_engine p)) \<and> ex_workers (l2_batch_executor p) \<le> 4"
proof -
  have "\<not> isl (fst sample_l2_start)" by code_simp
  then obtain p reg where s: "sample_l2_start = (Inr p, reg)" by (metis sum.collapse(2) prod.collapse)
  from l2_init_ready [OF empty_registry_runs s [unfolded sample_l2_start_def]] s show ?thesis by blast
qed

theorem l2_double_close_witness:
  "\<exists>reg reg1 reg2 p1 p2. l2_close (server_lib sample_info) (l2_sample, reg) = (p1, reg1) \<and>
     l2_close (server_lib sample_info) (p1, reg1) = (p2, reg2) \<and>
     h_refcount (rg_holders reg ! 0) = 2 \<and> h_closed (rg_holders reg2 ! 0)"
proof -
  let ?cx = "server_lib sample_info"
  obtain reg0 where g0: "get_or_create sample_consts ?cx parsed_cfg empty_registry = (Inr 0, reg0)" using sample_holder by blast
  have r0: "runs sample_consts ?cx reg0 ((\<lambda>_. 0)(0 := Suc 0))" by (rule runs.got [OF empty_registry_runs g0])
  have "dict_get (rg_registry reg0) (holder_key parsed_cfg) = Some 0"
    using g0 by (auto simp: get_or_create_def empty_registry_def add_ref_def Let_def split: sum.splits prod.splits)
  then have g1: "get_or_create sample_consts ?cx parsed_cfg reg0 = (Inr 0, add_ref 0 reg0)"
    by (simp add: get_or_create_def)
  from runs.got [OF r0 g1] have r: "runs sample_consts ?cx (add_ref 0 reg0) ((\<lambda>_. 0)(0 := Suc (Suc 0)))" by simp
  obtain p1 reg1 where c1: "l2_close ?cx (l2_sample, add_ref 0 reg0) = (p1, reg1)" by fastforce
  obtain p2 reg2 where c2: "l2_close ?cx (p1, reg1) = (p2, reg2)" by fastforce
  have h: "l2_holder l2_sample = 0" by (simp add: l2_sample_def)
  from l2_double_close [OF r _ c1 c2] h have "h_closed (rg_holders reg2 ! 0)" by simp
  moreover have "h_refcount (rg_holders (add_ref 0 reg0) ! 0) = 2" using runs_live [OF r, of 0] by simp
  ultimately show ?thesis using c1 c2 by blast
qed

end
