(* ===== verification/L2_Drain.thy ===== *)
theory L2_Drain
  imports L2_Tasks
begin

text \<open>
  Progress of the L2 plugin: the worker pool empties the queue whatever the order in which it
  takes the tasks and whatever happens to the server in between, and every task leaves its
  result and its notification.
\<close>

section \<open>Workers\<close>

text \<open>One worker takes any queued task and runs it, on the world as it is at that time.\<close>

inductive worker_step :: "'s l2 \<Rightarrow> 's l2 \<Rightarrow> bool" where
  run: "i < length (l2_pending p) \<Longrightarrow> run_pending sched i p w = (p', w') \<Longrightarrow> worker_step p p'"

inductive_cases worker_stepE: "worker_step p p'"

text \<open>The result of a task is there, under its id and in the table of its kind.\<close>

fun has_result :: "'s l2 \<Rightarrow> task \<Rightarrow> bool" where
  "has_result p (TStore keys objects tid) \<longleftrightarrow> dict_get (l2_done_store p) tid \<noteq> None"
| "has_result p (TLookup keys tid) \<longleftrightarrow> dict_get (l2_done_lookup p) tid \<noteq> None"
| "has_result p (TLoad keys objects tid) \<longleftrightarrow> dict_get (l2_done_load p) tid \<noteq> None"
| "has_result p (TUnlock keys) \<longleftrightarrow> True"

text \<open>Notifications on the three event descriptors so far, and those a task owes.\<close>

definition notified :: "'s l2 \<Rightarrow> nat" where
  "notified p = l2_store_efd p + l2_lookup_efd p + l2_load_efd p"

definition owed :: "task list \<Rightarrow> nat" where
  "owed ts = length (concat (map task_id ts))"

section \<open>One task\<close>

text \<open>What every task does to the tables: it takes nothing from the queue or from the results
  of others, leaves its own result and notifies once if it has an id.\<close>

definition completes :: "task \<Rightarrow> 's l2 \<Rightarrow> 's l2 \<Rightarrow> bool" where
  "completes t p p' \<longleftrightarrow> l2_engine p' = l2_engine p \<and> l2_pending p' = l2_pending p \<and> has_result p' t \<and>
     (\<forall>u. has_result p u \<longrightarrow> has_result p' u) \<and> notified p' = notified p + length (task_id t)"

lemma has_result_mono:
  assumes "dom (dict_get (l2_done_store p)) \<subseteq> dom (dict_get (l2_done_store p'))"
    and "dom (dict_get (l2_done_lookup p)) \<subseteq> dom (dict_get (l2_done_lookup p'))"
    and "dom (dict_get (l2_done_load p)) \<subseteq> dom (dict_get (l2_done_load p'))"
  shows "has_result p u \<Longrightarrow> has_result p' u"
  using assms by (cases u) (simp_all only: has_result.simps domIff [symmetric] subset_iff)

lemma completesI:
  assumes "l2_engine p' = l2_engine p" "l2_pending p' = l2_pending p" "has_result p' t"
    and "dom (dict_get (l2_done_store p)) \<subseteq> dom (dict_get (l2_done_store p'))"
    and "dom (dict_get (l2_done_lookup p)) \<subseteq> dom (dict_get (l2_done_lookup p'))"
    and "dom (dict_get (l2_done_load p)) \<subseteq> dom (dict_get (l2_done_load p'))"
    and "notified p' = notified p + length (task_id t)"
  shows "completes t p p'"
  using assms has_result_mono [OF assms(4-6)] by (simp add: completes_def)

lemma store_sync_completes:
  assumes "store_sync sched keys objects tid p w = (p', w')"
  shows "completes (TStore keys objects tid) p p'"
  using assms
  by (auto simp: store_sync_def Let_def notified_def split: prod.splits intro!: completesI)

lemma load_sync_completes:
  assumes "load_sync sched keys objects tid p w = (p', w')"
  shows "completes (TLoad keys objects tid) p p'"
  using assms
  by (auto simp: load_sync_def Let_def notified_def split: prod.splits intro!: completesI)

lemma lookup_sync_completes:
  assumes "storage_env (l2_engine p) view" "write_policy (e_consts (l2_engine p)) (e_cfg (l2_engine p)) = Inr wp"
    and "lookup_sync keys tid p w = (p', w')"
  shows "completes (TLookup keys tid) p p'"
proof -
  obtain r w1 where m: "batched_exists_mask (l2_engine p) (map (to_ck p) keys) w = (r, w1)" by fastforce
  have "\<exists>w2. pin_keys (l2_engine p) xs w1 = (Inr (), w2)" for xs
    using storage_env.pin_keys_returns [OF assms(1,2)] by (metis prod.collapse)
  then obtain w2 where "pin_keys (l2_engine p) (selected (case r of Inl e \<Rightarrow> replicate (length keys) False | Inr hs \<Rightarrow> hs)
    (map (to_ck p) keys)) w1 = (Inr (), w2)" by blast
  with assms(3) m show ?thesis
    by (auto simp: lookup_sync_def Let_def notified_def split: if_splits intro!: completesI)
qed

lemma unlock_sync_completes: "completes (TUnlock keys) p (fst (snd (unlock_sync keys p w)))"
proof -
  have "l2_done_store (fst (snd (unlock_sync keys p w))) = l2_done_store p \<and>
    l2_done_lookup (fst (snd (unlock_sync keys p w))) = l2_done_lookup p \<and>
    l2_done_load (fst (snd (unlock_sync keys p w))) = l2_done_load p \<and>
    notified (fst (snd (unlock_sync keys p w))) = notified p"
    by (induction keys p w rule: unlock_sync.induct)
       (auto simp: Let_def notified_def split: prod.splits sum.splits if_splits)
  with unlock_sync_ids [of keys p w] show ?thesis by (intro completesI) auto
qed

lemma run_task_completes:
  assumes "storage_env (l2_engine p) view" "write_policy (e_consts (l2_engine p)) (e_cfg (l2_engine p)) = Inr wp"
    and "run_task sched t p w = (p', w')"
  shows "completes t p p'"
proof (cases t)
  case (TStore keys objects tid)
  with assms(3) store_sync_completes show ?thesis by simp
next
  case (TLookup keys tid)
  with assms lookup_sync_completes [OF assms(1,2)] show ?thesis by simp
next
  case (TLoad keys objects tid)
  with assms(3) load_sync_completes show ?thesis by simp
next
  case (TUnlock keys)
  with assms(3) unlock_sync_completes [of keys p w] show ?thesis by simp
qed

section \<open>Draining the queue\<close>

lemma owed_split: "i < length ts \<Longrightarrow> owed ts = length (task_id (ts ! i)) + owed (take i ts @ drop (Suc i) ts)"
  using arg_cong [OF mset_pending, of i ts size] by (simp add: owed_def)

lemma set_split: "i < length ts \<Longrightarrow> set ts = insert (ts ! i) (set (take i ts @ drop (Suc i) ts))"
  by (subst id_take_nth_drop [of i ts], assumption) auto

text \<open>The invariant of a drain that started with the tasks \<open>ts\<close> in state \<open>p0\<close>.\<close>

definition draining :: "'s l2 \<Rightarrow> nat \<Rightarrow> 's l2 \<Rightarrow> bool" where
  "draining p0 n p \<longleftrightarrow> l2_engine p = l2_engine p0 \<and> length (l2_pending p) + n = length (l2_pending p0) \<and>
     (\<forall>t \<in> set (l2_pending p0). t \<in> set (l2_pending p) \<or> has_result p t) \<and>
     notified p + owed (l2_pending p) = notified p0 + owed (l2_pending p0)"

lemma worker_step_drains:
  assumes "worker_step p p'" "draining p0 n p"
    and "storage_env (l2_engine p0) view" "write_policy (e_consts (l2_engine p0)) (e_cfg (l2_engine p0)) = Inr wp"
  shows "draining p0 (Suc n) p'"
  using assms(1)
proof (rule worker_stepE)
  fix i sched w w'
  assume i: "i < length (l2_pending p)" and r: "run_pending sched i p w = (p', w')"
  let ?t = "l2_pending p ! i" and ?q = "p\<lparr>l2_pending := take i (l2_pending p) @ drop (Suc i) (l2_pending p)\<rparr>"
  have e: "l2_engine ?q = l2_engine p0" using assms(2) by (simp add: draining_def)
  have c: "completes ?t ?q p'"
    by (rule run_task_completes [of _ view wp sched _ w]) (use e assms(3,4) r in \<open>simp_all add: run_pending_def\<close>)
  have hq: "has_result ?q u \<longleftrightarrow> has_result p u" for u by (cases u) simp_all
  have "t \<in> set (l2_pending p') \<or> has_result p' t" if "t \<in> set (l2_pending p0)" for t
    using assms(2) that c hq set_split [OF i] by (auto simp: draining_def completes_def)
  moreover have "notified p' + owed (l2_pending p') = notified p0 + owed (l2_pending p0)"
    using assms(2) c owed_split [OF i] by (simp add: draining_def completes_def notified_def)
  ultimately show ?thesis using c e i assms(2) by (auto simp: draining_def completes_def)
qed

lemma workers_drain:
  assumes "(worker_step ^^ n) p0 p"
    and "storage_env (l2_engine p0) view" "write_policy (e_consts (l2_engine p0)) (e_cfg (l2_engine p0)) = Inr wp"
  shows "draining p0 n p"
  using assms(1)
proof (induction n arbitrary: p)
  case 0
  then show ?case by (simp add: draining_def)
next
  case (Suc n)
  then obtain q where "(worker_step ^^ n) p0 q" "worker_step q p" by auto
  with Suc.IH worker_step_drains [OF _ _ assms(2,3)] show ?case by blast
qed

lemma worker_possible: "l2_pending p \<noteq> [] \<Longrightarrow> \<exists>p'. worker_step p p'"
  by (metis length_greater_0_conv prod.exhaust worker_step.run)

lemma workers_possible:
  assumes "storage_env (l2_engine p0) view" "write_policy (e_consts (l2_engine p0)) (e_cfg (l2_engine p0)) = Inr wp"
    and "n \<le> length (l2_pending p0)"
  shows "\<exists>p. (worker_step ^^ n) p0 p"
  using assms(3)
proof (induction n)
  case 0
  show ?case by auto
next
  case (Suc n)
  then obtain p where p: "(worker_step ^^ n) p0 p" by auto
  from workers_drain [OF this assms(1,2)] Suc.prems have "l2_pending p \<noteq> []" by (auto simp: draining_def)
  with p show ?case using worker_possible [of p] by auto
qed

lemma workers_are_steps: "(worker_step ^^ n) p p' \<Longrightarrow> l2_step\<^sup>*\<^sup>* (p, dl) (p', dl)"
proof (induction n arbitrary: p')
  case (Suc n)
  then obtain q where "l2_step\<^sup>*\<^sup>* (p, dl) (q, dl)" "worker_step q p'" by auto
  then show ?case by (metis l2_step.work rtranclp.rtrancl_into_rtrancl worker_stepE)
qed simp

lemma run_task_next_id: "l2_next_id (fst (run_task sched t p w)) = l2_next_id p"
proof (cases t)
  case (TUnlock keys)
  with unlock_sync_ids [of keys p w] show ?thesis by simp
qed (auto simp: store_sync_def load_sync_def lookup_sync_def Let_def split: prod.splits sum.splits)

lemma workers_next_id: "(worker_step ^^ n) p p' \<Longrightarrow> l2_next_id p' = l2_next_id p"
proof (induction n arbitrary: p')
  case (Suc n)
  then obtain q where q: "l2_next_id q = l2_next_id p" "worker_step q p'" by auto
  from q(2) show ?case
  proof cases
    case (run i sched w w')
    with q(1) run_task_next_id [of sched "l2_pending q ! i" "q\<lparr>l2_pending := take i (l2_pending q) @ drop (Suc i) (l2_pending q)\<rparr>" w]
    show ?thesis by (simp add: run_pending_def)
  qed
qed simp

text \<open>
  C14: every submitted task comes to its end. From any state reachable by submissions, workers
  and pops, the workers can run, and every run of theirs, in whatever order they take the tasks
  and whatever happens to the server, has emptied the queue after as many steps as there are
  queued tasks and not later; then each queued task has its result under its id, the event
  descriptors have been notified once for each, and every id ever given out is completed or
  already delivered.
\<close>

theorem l2_queue_drains:
  assumes "l2_step\<^sup>*\<^sup>* (p0, []) (p, delivered)" and "fresh_l2 p0" and "storage_env (l2_engine p0) view"
    and "write_policy (e_consts (l2_engine p0)) (e_cfg (l2_engine p0)) = Inr wp"
  shows "(\<exists>p'. (worker_step ^^ length (l2_pending p)) p p') \<and>
    (\<forall>n p'. (worker_step ^^ n) p p' \<longrightarrow> n \<le> length (l2_pending p) \<and>
       (n = length (l2_pending p) \<longleftrightarrow> l2_pending p' = []) \<and>
       (l2_pending p' = [] \<longrightarrow> list_all (has_result p') (l2_pending p) \<and>
          notified p' = notified p + length (queued_ids p) \<and>
          set (done_ids p' @ delivered) = {0..<l2_next_id p}))"
proof -
  have "ids_inv (p0, [])" using assms(2) by (simp add: fresh_l2_def ids_inv_def queued_ids_def done_ids_def)
  from ids_inv_run [OF assms(1) this assms(3,4)] have inv: "ids_inv (p, delivered)" "l2_engine p = l2_engine p0" by auto
  have env: "storage_env (l2_engine p) view" "write_policy (e_consts (l2_engine p)) (e_cfg (l2_engine p)) = Inr wp"
    using inv(2) assms(3,4) by simp_all
  have "n \<le> length (l2_pending p) \<and> (n = length (l2_pending p) \<longleftrightarrow> l2_pending p' = []) \<and>
     (l2_pending p' = [] \<longrightarrow> list_all (has_result p') (l2_pending p) \<and>
        notified p' = notified p + length (queued_ids p) \<and> set (done_ids p' @ delivered) = {0..<l2_next_id p})"
    if r: "(worker_step ^^ n) p p'" for n p'
  proof -
    have d: "draining p n p'" by (rule workers_drain [OF r env])
    have i: "ids_inv (p', delivered)" using ids_inv_run [OF workers_are_steps [OF r] inv(1) env] by blast
    have "l2_next_id p' = l2_next_id p" by (rule workers_next_id [OF r])
    with d ids_inv_distinct(2) [OF i] show ?thesis
      by (auto simp: draining_def list_all_iff owed_def queued_ids_def)
  qed
  with workers_possible [OF env order_refl] show ?thesis by blast
qed

theorem l2_queue_drains_witness:
  "\<exists>p p'. submit_lookup_and_lock_task [okey ''k''] l2_sample = (Inr 0, p) \<and> worker_step p p' \<and>
     l2_pending p' = [] \<and> dict_get (l2_done_lookup p') 0 \<noteq> None"
proof -
  obtain p where s: "submit_lookup_and_lock_task [okey ''k''] l2_sample = (Inr 0, p)" and q: "l2_pending p = [TLookup [okey ''k''] 0]"
    by (simp add: submit_lookup_and_lock_task_def alloc_id_def submit_task_def l2_sample_def)
  then have st: "l2_step\<^sup>*\<^sup>* (l2_sample, []) (p, [])" using l2_step.lookup by blast
  obtain wp where wp: "write_policy (e_consts (l2_engine l2_sample)) (e_cfg (l2_engine l2_sample)) = Inr wp"
    using l2_sample_policy by blast
  have "fresh_l2 l2_sample" by (simp add: fresh_l2_def l2_sample_def)
  note d = l2_queue_drains [OF st this l2_sample_env(2) wp]
  then obtain p' where p': "(worker_step ^^ length (l2_pending p)) p p'" by blast
  with d have r: "l2_pending p' = []" "list_all (has_result p') (l2_pending p)" by blast+
  have "worker_step p p'" using p' q by (auto simp: relcompp_apply)
  with q s r show ?thesis by auto
qed

end
