(* ===== verification/Engine_Types.thy ===== *)
theory Engine_Types
  imports Engine_Batch
begin

text \<open>
  The types of the stored records. A schema gives the type of every bin the engine writes; the
  database is typed when every record follows it, a record with a state names its segment
  count, and a segment record has a payload. All operations keep the database typed, and on a
  typed database the reads raise no error of the Python data model (\<open>KeyError\<close>, \<open>ValueError\<close>,
  \<open>TypeError\<close>), whatever the server answers.
\<close>

section \<open>The schema\<close>

definition INT_BINS :: "string list" where
  "INT_BINS = [''ver'', ''nseg'', ''seg_b'', ''tot_b'', ''created_at'', ''crc32'']"

fun bin_typed :: "string \<Rightarrow> bval \<Rightarrow> bool" where
  "bin_typed n (BInt i) \<longleftrightarrow> n \<in> set INT_BINS"
| "bin_typed n (BStr s) \<longleftrightarrow> n = ''state'' \<and> s = ''ready''"
| "bin_typed n (BBool b) \<longleftrightarrow> n = ''pin''"
| "bin_typed n (BBytes bs) \<longleftrightarrow> n = ''md'' \<or> n = ''b'' \<and> bs \<noteq> []"

definition rec_typed :: "bool \<Rightarrow> recmap \<Rightarrow> bool" where
  "rec_typed is_segment m \<longleftrightarrow>
     (\<forall>n v. m n = Some v \<longrightarrow> bin_typed n v) \<and> (m ''state'' \<noteq> None \<longrightarrow> m ''nseg'' \<noteq> None) \<and>
     (is_segment \<longrightarrow> m ''b'' \<noteq> None)"

definition segment_space :: "('s, 'k) engine \<Rightarrow> akey set" where
  "segment_space E = {sk_of E ck i | ck i. 0 \<le> i}"

definition db_typed :: "('s, 'k) engine \<Rightarrow> dbview \<Rightarrow> bool" where
  "db_typed E v \<longleftrightarrow> (\<forall>k m. v k = Some m \<longrightarrow> rec_typed (k \<in> segment_space E) m)"

text \<open>Bins that keep a record typed when they are written to it.\<close>

definition bins_typed :: "bool \<Rightarrow> bins \<Rightarrow> bool" where
  "bins_typed is_segment b \<longleftrightarrow>
     distinct (map fst b) \<and> list_all (\<lambda>(n, v). bin_typed n v) b \<and>
     (''state'' \<in> fst ` set b \<longrightarrow> ''nseg'' \<in> fst ` set b) \<and> (is_segment \<longrightarrow> ''b'' \<in> fst ` set b)"

fun op_typed :: "('s, 'k) engine \<Rightarrow> batch_op \<Rightarrow> bool" where
  "op_typed E (BWrite k b _ _) \<longleftrightarrow> bins_typed (k \<in> segment_space E) b"
| "op_typed E (BRemove k) \<longleftrightarrow> True"

lemma write_rec_typed:
  assumes "bins_typed sg b" "\<And>m. r = Some m \<Longrightarrow> rec_typed sg m" "write_rec b r = Some m'"
  shows "rec_typed sg m'"
proof -
  have g: "m' n = (case map_of b n of Some v \<Rightarrow> Some v | None \<Rightarrow> old_bins r n)" for n by (rule write_rec_get [OF assms(3)])
  have old: "old_bins r n = Some v \<Longrightarrow> bin_typed n v" "old_bins r ''state'' \<noteq> None \<Longrightarrow> old_bins r ''nseg'' \<noteq> None" for n v
    using assms(2) by (auto simp: old_bins_def rec_typed_def split: option.splits)
  have dom: "map_of b n = None \<longleftrightarrow> n \<notin> fst ` set b" for n by (rule map_of_eq_None_iff)
  have "bin_typed n v" if "map_of b n = Some v" for n v
    using assms(1) map_of_SomeD [OF that] by (auto simp: bins_typed_def list_all_iff)
  with old(1) have "m' n = Some v \<Longrightarrow> bin_typed n v" for n v by (auto simp: g split: option.splits)
  moreover have "m' ''state'' \<noteq> None \<Longrightarrow> m' ''nseg'' \<noteq> None"
    using assms(1) old(2) dom [of "''state''"] dom [of "''nseg''"] by (auto simp: g bins_typed_def split: option.splits)
  moreover have "sg \<Longrightarrow> m' ''b'' \<noteq> None"
    using assms(1) dom [of "''b''"] by (auto simp: g bins_typed_def split: option.splits)
  ultimately show ?thesis by (simp add: rec_typed_def)
qed

lemma db_typed_change:
  assumes "db_typed E v"
    and "\<And>k. v' k = v k \<or> v' k = None \<or> (\<exists>b. bins_typed (k \<in> segment_space E) b \<and> v' k = write_rec b (v k))"
  shows "db_typed E v'"
  unfolding db_typed_def
proof (intro allI impI)
  fix k m
  assume m: "v' k = Some m"
  have old: "v k = Some m0 \<Longrightarrow> rec_typed (k \<in> segment_space E) m0" for m0 using assms(1) by (simp add: db_typed_def)
  from assms(2) [of k] m show "rec_typed (k \<in> segment_space E) m"
    by (auto intro: old write_rec_typed [OF _ old])
qed

lemma mk_not_segment [simp]: "mk_of E ck \<notin> segment_space E"
  using mk_not_sk by (fastforce simp: segment_space_def)

lemma sk_segment [simp]: "0 \<le> i \<Longrightarrow> sk_of E ck i \<in> segment_space E"
  by (auto simp: segment_space_def)

lemma db_typed_meta: "db_typed E v \<Longrightarrow> v (mk_of E ck) = Some m \<Longrightarrow> rec_typed False m"
  using mk_not_segment [of E ck] unfolding db_typed_def by metis

section \<open>The engine writes typed bins\<close>

lemma put_bins_typed: "mo_bytes mo \<noteq> [] \<Longrightarrow> bins_typed False (put_bins E p mo pinned time)"
  by (simp add: bins_typed_def put_bins_def meta_bins_def INT_BINS_def)

lemma segment_bins_typed: "c \<noteq> [] \<Longrightarrow> bins_typed True (segment_bins crc c)"
  by (simp add: bins_typed_def segment_bins_def INT_BINS_def)

lemma pin_bins_typed: "bins_typed False [(''pin'', BBool b)]"
  by (simp add: bins_typed_def)

lemma segment_writes_typed:
  assumes "plan_fits payload p" "payload \<noteq> []" "nseg p \<noteq> 1" "x \<in> set (segment_writes E ck payload p ttl wp)"
  shows "op_typed E x"
proof -
  from assms(4) obtain i where i: "0 \<le> i" "i < nseg p"
    "x = BWrite (sk_of E ck i) (segment_bins (cfg_enable_crc32 (e_cfg E)) (segment_chunk payload p i)) ttl wp"
    by (auto simp: segment_writes_def)
  have "segment_chunk payload p i \<in> set (put_chunks_of payload p)" using i assms(3) by (simp add: put_chunks_of_def)
  with put_chunks_nonempty [OF assms(1,2)] have "segment_chunk payload p i \<noteq> []" by metis
  with i show ?thesis by (simp add: segment_bins_typed)
qed

text \<open>The single-record writes of a planned batch.\<close>

lemma planned_writes:
  assumes "list_all2 (\<lambda>(ck, a) (ck', a', p, b). ck' = ck \<and> a' = a \<and>
        plan_for (e_resolved E) (int (length (mo_bytes (h a)))) = Inr p \<and> b = put_bins E p (h a) pinned time) items plans"
    and "\<forall>it \<in> set items. mo_bytes (h (snd it)) \<noteq> []"
  shows "map (\<lambda>(ck, a, _, _). (ck, a)) plans = items"
    and "map op_key (map (\<lambda>(ck, _, _, mbins). BWrite (mk_of E ck) mbins ttl wp) plans) = map (mk_of E) (map fst items)"
    and "\<forall>x \<in> set (map (\<lambda>(ck, _, _, mbins). BWrite (mk_of E ck) mbins ttl wp) plans). op_typed E x"
  using assms by (induction rule: list_all2_induct) (auto simp: put_bins_typed)

context storage_env
begin

lemma cl_put_typed:
  assumes "cl_put (e_client E) k b ttl p s = (r, s')" "bins_typed (k \<in> segment_space E) b" "db_typed E (view s)"
  shows "db_typed E (view s')"
proof (rule db_typed_change [OF assms(3)])
  have "distinct (map fst b)" using assms(2) by (simp add: bins_typed_def)
  with assms(1) put_done [of k b ttl p s _ s'] put_in_doubt [of k b ttl p s _ s']
  have "view s' = view s \<or> view s' = (view s)(k := write_rec b (view s k))" by (cases r) auto
  then show "view s' j = view s j \<or> view s' j = None \<or> (\<exists>b. bins_typed (j \<in> segment_space E) b \<and> view s' j = write_rec b (view s j))" for j
    using assms(2) by (cases "j = k") auto
qed

lemma cl_operate_typed:
  assumes "cl_operate (e_client E) k b ttl p s = (r, s')" "bins_typed (k \<in> segment_space E) b" "db_typed E (view s)"
  shows "db_typed E (view s')"
proof (rule db_typed_change [OF assms(3)])
  have "distinct (map fst b)" using assms(2) by (simp add: bins_typed_def)
  with assms(1) operate_done [of k b ttl p s _ s'] operate_in_doubt [of k b ttl p s _ s']
  have "view s' = view s \<or> view s' = (view s)(k := write_rec b (view s k))" by (cases r) auto
  then show "view s' j = view s j \<or> view s' j = None \<or> (\<exists>b. bins_typed (j \<in> segment_space E) b \<and> view s' j = write_rec b (view s j))" for j
    using assms(2) by (cases "j = k") auto
qed

lemma cl_remove_typed:
  assumes "cl_remove (e_client E) k s = (r, s')" "db_typed E (view s)"
  shows "db_typed E (view s')"
proof (rule db_typed_change [OF assms(2)])
  have "view s' = view s \<or> view s' = (view s)(k := None)"
    using assms(1) remove_done [of k s _ s'] remove_in_doubt [of k s _ s'] by (cases r) auto
  then show "view s' j = view s j \<or> view s' j = None \<or> (\<exists>b. bins_typed (j \<in> segment_space E) b \<and> view s' j = write_rec b (view s j))" for j
    by (cases "j = k") auto
qed

lemma cl_batch_write_typed:
  assumes "cl_batch_write (e_client E) ops s = (r, s')" "distinct (map op_key ops)" "\<And>x. x \<in> set ops \<Longrightarrow> op_typed E x"
    and "db_typed E (view s)"
  shows "db_typed E (view s')"
proof (rule db_typed_change [OF assms(4)])
  fix k
  have d: "list_all (\<lambda>x. distinct (map fst (op_bins x))) ops"
    unfolding list_all_iff
  proof
    fix x assume "x \<in> set ops"
    with assms(3) [of x] show "distinct (map fst (op_bins x))" by (cases x) (auto simp: bins_typed_def)
  qed
  show "view s' k = view s k \<or> view s' k = None \<or> (\<exists>b. bins_typed (k \<in> segment_space E) b \<and> view s' k = write_rec b (view s k))"
  proof (cases "k \<in> op_key ` set ops")
    case True
    then obtain x where x: "x \<in> set ops" "op_key x = k" by blast
    with batch_write_any [OF assms(1,2) d x(1)] assms(3) [OF x(1)] show ?thesis by (cases x) auto
  next
    case False
    with batch_write_frame [OF assms(1)] show ?thesis by blast
  qed
qed

lemma put_io_typed:
  assumes "put_io E ck payload p mbins ttl wp s = (r, s')" "bins_typed False mbins" "plan_fits payload p" "payload \<noteq> []"
    and "db_typed E (view s)"
  shows "db_typed E (view s')"
proof (cases "nseg p = 1")
  case True
  with assms cl_put_typed [of "mk_of E ck" mbins ttl wp s r s'] show ?thesis by (simp add: put_io_def)
next
  case False
  obtain q s1 where q: "cl_batch_write (e_client E) (segment_writes E ck payload p ttl wp) s = (q, s1)" by fastforce
  have t: "db_typed E (view s1)"
    using segment_writes_typed [OF assms(3,4) False] assms(5)
    by (intro cl_batch_write_typed [OF q]) (simp_all add: segment_writes_simps distinct_sks)
  have "s' = s1 \<or> (\<exists>r2. cl_put (e_client E) (mk_of E ck) mbins ttl wp s1 = (r2, s'))"
    using assms(1) False q by (auto simp: put_io_def Let_def split: sum.splits option.splits)
  with t cl_put_typed [of "mk_of E ck" mbins ttl wp s1 _ s'] assms(2) show ?thesis by auto
qed

lemma put_typed:
  assumes "put E ck a pinned w = (r, w')" "0 < rl_target_segment_bytes (e_resolved E)" "mo_bytes (heap w a) \<noteq> []"
    and "db_typed E (view (srv w))"
  shows "db_typed E (view (srv w')) \<and> heap w' = heap w"
  using assms(1)
proof (cases rule: putE)
  case (io p wp ri)
  from put_io_typed [OF io(2) put_bins_typed plan_for_fits [OF assms(2) io(1)]] assms(3,4) io(3) show ?thesis by simp
qed (use assms in simp_all)

lemma put_each_typed:
  assumes "put_each E pinned items w = (r, w')" "0 < rl_target_segment_bytes (e_resolved E)"
    and "\<forall>it \<in> set items. mo_bytes (heap w (snd it)) \<noteq> []" "db_typed E (view (srv w))"
  shows "db_typed E (view (srv w'))"
  using assms(1,3,4)
proof (induction items arbitrary: w r)
  case (Cons it items)
  obtain ck a where it: "it = (ck, a)" by (cases it)
  obtain q w1 where p: "put E ck a pinned w = (q, w1)" by fastforce
  have t: "db_typed E (view (srv w1))" "heap w1 = heap w"
    using put_typed [OF p assms(2)] Cons.prems(2,3) it by auto
  have "w' = w1 \<or> (\<exists>r2. put_each E pinned items w1 = (r2, w'))"
    using Cons.prems(1) it p by (auto split: sum.splits if_splits prod.splits)
  with Cons.IH [of w1] t Cons.prems(2) show ?case by auto
qed simp

lemma batched_put_chunk_typed:
  assumes "batched_put_chunk E pinned items w = (r, w')" "0 < rl_target_segment_bytes (e_resolved E)"
    and "\<forall>it \<in> set items. mo_bytes (heap w (snd it)) \<noteq> []" "distinct (map (\<lambda>it. e_to_string E (fst it)) items)"
    and "db_typed E (view (srv w))"
  shows "db_typed E (view (srv w')) \<and> heap w' = heap w"
proof (cases "write_policy (e_consts E) (e_cfg E)")
  case (Inl e)
  with assms show ?thesis by (simp add: batched_put_chunk_def)
next
  case wp: (Inr wp)
  obtain q w1 where q: "plan_items E pinned items w = (q, w1)" by fastforce
  note o = plan_items_outcome [OF q]
  show ?thesis
  proof (cases q)
    case (Inl e)
    with assms(1,5) wp q o show ?thesis by (auto simp: batched_put_chunk_def)
  next
    case (Inr plans)
    have rel: "list_all2 (\<lambda>(ck, a) (ck', a', p, b). ck' = ck \<and> a' = a \<and>
        plan_for (e_resolved E) (int (length (mo_bytes (heap w a)))) = Inr p \<and>
        b = put_bins E p (heap w a) pinned (now w)) items plans" using o Inr by blast
    note pw = planned_writes [OF rel assms(3)]
    show ?thesis
    proof (cases "list_ex (\<lambda>(_, _, p, _). nseg p > 1) plans")
      case True
      with assms(1) wp q Inr pw(1) have e: "put_each E pinned items w1 = (r, w')" by (simp add: batched_put_chunk_def)
      from put_each_typed [OF e assms(2)] put_each_outcome [OF e assms(4,2)] assms(3,5) o show ?thesis by simp
    next
      case False
      let ?ops = "map (\<lambda>(ck, _, _, mbins). BWrite (mk_of E ck) mbins (ttl_value E pinned) wp) plans"
      obtain q2 s where b: "cl_batch_write (e_client E) ?ops (srv w1) = (q2, s)" by fastforce
      have "distinct (map (e_to_string E) (map fst items))" using assms(4) by (simp add: comp_def)
      from distinct_mks [OF this] have "distinct (map op_key ?ops)" by (simp only: pw(2))
      from cl_batch_write_typed [OF b this bspec [OF pw(3)]] assms(5) o have "db_typed E (view s)" by simp
      moreover have "w' = w1\<lparr>srv := s\<rparr>" using assms(1) wp q Inr False b by (auto simp: batched_put_chunk_def)
      ultimately show ?thesis using o by simp
    qed
  qed
qed

lemma put_chunks_typed:
  assumes "put_chunks E pinned cs w = (r, w')" "0 < rl_target_segment_bytes (e_resolved E)"
    and "\<forall>it \<in> set (concat cs). mo_bytes (heap w (snd it)) \<noteq> []"
    and "distinct (map (\<lambda>it. e_to_string E (fst it)) (concat cs))" "db_typed E (view (srv w))"
  shows "db_typed E (view (srv w'))"
  using assms(1,3-5)
proof (induction cs arbitrary: w r)
  case (Cons c cs)
  obtain q w1 where p: "batched_put_chunk E pinned c w = (q, w1)" by fastforce
  have t: "db_typed E (view (srv w1))" "heap w1 = heap w"
    using batched_put_chunk_typed [OF p assms(2)] Cons.prems(2-4) by auto
  have "w' = w1 \<or> (\<exists>r2. put_chunks E pinned cs w1 = (r2, w'))"
    using Cons.prems(1) p by (auto split: sum.splits prod.splits)
  with Cons.IH [of w1] t Cons.prems(2,3) show ?case by auto
qed simp

lemma batched_put_typed:
  assumes "batched_put E items pinned w = (r, w')" "0 < rl_target_segment_bytes (e_resolved E)"
    and "\<forall>it \<in> set items. mo_bytes (heap w (snd it)) \<noteq> []" "distinct (map (\<lambda>it. e_to_string E (fst it)) items)"
    and "db_typed E (view (srv w))"
  shows "db_typed E (view (srv w'))"
proof (cases "items = []")
  case True
  with assms show ?thesis by (simp add: batched_put_def)
next
  case False
  obtain q w1 where q: "put_chunks E pinned (chunked items) w = (q, w1)" by fastforce
  have "srv w' = srv w1"
    using assms(1) False q by (auto simp: batched_put_def timed_def batched_put_body_def Let_def split: sum.splits prod.splits)
  with put_chunks_typed [OF q assms(2)] assms(3-5) show ?thesis by (simp add: concat_blocks_of)
qed

lemma pin_keys_typed:
  assumes "pin_keys E keys w = (r, w')" "distinct (map (e_to_string E) keys)" "db_typed E (view (srv w))"
  shows "db_typed E (view (srv w'))"
proof (cases "write_policy (e_consts E) (e_cfg E)")
  case (Inr wp)
  let ?ops = "map (\<lambda>ck. BWrite (mk_of E ck) [(''pin'', BBool True)] (e_pin_ttl E) wp) keys"
  obtain q s where b: "cl_batch_write (e_client E) ?ops (srv w) = (q, s)" by fastforce
  have "map op_key ?ops = map (mk_of E) keys" by simp
  then have "db_typed E (view s)"
    using distinct_mks [OF assms(2)] assms(3) by (intro cl_batch_write_typed [OF b]) (auto simp: pin_bins_typed comp_def)
  with assms(1,3) Inr b show ?thesis
    by (auto simp: pin_keys_def pin_keys_batch_def Let_def split: if_splits sum.splits)
qed (use assms in \<open>auto simp: pin_keys_def pin_keys_batch_def split: if_splits\<close>)

lemma unpin_typed:
  assumes "unpin E ck w = (r, w')" "db_typed E (view (srv w))"
  shows "db_typed E (view (srv w'))"
proof (cases "write_policy (e_consts E) (e_cfg E)")
  case (Inr wp)
  let ?ttl = "cfg_default_ttl_seconds (e_cfg E)"
  obtain q s where t: "cl_touch (e_client E) (mk_of E ck) ?ttl wp (srv w) = (q, s)" by fastforce
  have v: "view s = view (srv w)" by (rule touch_view [OF t])
  have "srv w' = s \<or> (\<exists>r2. cl_operate (e_client E) (mk_of E ck) [(''pin'', BBool False)] ?ttl wp s = (r2, srv w'))"
    using assms(1) Inr t by (auto simp: unpin_def Let_def split: sum.splits prod.splits if_splits)
  with v assms(2) cl_operate_typed [of "mk_of E ck" "[(''pin'', BBool False)]" ?ttl wp s _ "srv w'"] show ?thesis
    by (auto simp: pin_bins_typed)
qed (use assms in \<open>auto simp: unpin_def Let_def\<close>)

lemma remove_typed:
  assumes "remove E ck w = (r, w')" "db_typed E (view (srv w))"
  shows "db_typed E (view (srv w'))"
proof -
  obtain q s1 where p: "remove_probe E ck (srv w) = (q, s1)" by fastforce
  have v: "view s1 = view (srv w)"
    using p cl_select_view' [of "mk_of E ck" "[''nseg'']" "srv w"]
    by (auto simp: remove_probe_def case_prod_beta Let_def split: sum.splits option.splits if_splits)
  obtain q2 s2 where c: "cl_remove (e_client E) (mk_of E ck) s1 = (q2, s2)" by fastforce
  have t2: "db_typed E (view s2)" using cl_remove_typed [OF c] v assms(2) by simp
  have seg: "db_typed E (view s3)" if "remove_segments E ck n s2 = (q3, s3)" for n q3 s3
  proof (cases "n > 1")
    case True
    obtain q4 s4 where b: "cl_batch_write (e_client E) (map (\<lambda>i. BRemove (sk_of E ck i)) (py_range n)) s2 = (q4, s4)" by fastforce
    have "map op_key (map (\<lambda>i. BRemove (sk_of E ck i)) (py_range n)) = sks_of E ck n" by (simp add: sks_of_eq)
    then have "db_typed E (view s4)" using distinct_sks t2 by (intro cl_batch_write_typed [OF b]) auto
    with that True b show ?thesis by (auto simp: remove_segments_def split: sum.splits if_splits)
  qed (use that t2 in \<open>simp add: remove_segments_def\<close>)
  have "srv w' = s1 \<or> srv w' = s2 \<or> (\<exists>n q3. remove_segments E ck n s2 = (q3, srv w'))"
    using assms(1) p c by (auto simp: remove_def remove_srv_def Let_def split: sum.splits option.splits prod.splits if_splits)
  with v assms(2) t2 seg show ?thesis by auto
qed

section \<open>Reading typed records\<close>

lemma write_payload_error:
  assumes "bs \<noteq> []" "write_payload_into (e_lm E) mo (BBytes bs) off = Inl e"
  shows "e = Conn AerospikeInternalError"
proof (rule ccontr)
  assume e: "e \<noteq> Conn AerospikeInternalError"
  with assms have fits: "off + length bs \<le> length (mo_bytes mo)"
    using numel [of mo] by (auto simp: write_payload_into_def split: if_splits)
  with assms(2) numel [of mo] have "mo_tensor mo" "\<exists>e. lx_copy (e_lm E) mo off bs = Inl e"
    by (auto simp: write_payload_into_def copy_payload_def bindE_eq_Inl split: if_splits)
  with copy_total [OF assms(1) fits] show False by auto
qed

lemma read_segments_error:
  assumes "read_segments (e_lm E) a recs off n h = (Inl e, h')"
    and "\<forall>rc \<in> set recs. fst rc = 0 \<longrightarrow> (\<exists>b c. snd rc = Some b \<and> dict_get b ''b'' = Some (BBytes c) \<and> c \<noteq> [])"
  shows "e = Conn AerospikeInternalError"
  using assms
proof (induction recs arbitrary: off n h)
  case (Cons rc recs)
  obtain code rec where rc: "rc = (code, rec)" by (cases rc)
  with Cons.prems(1) obtain b where b: "rec = Some b" "code = 0"
    by (auto simp: AEROSPIKE_OK_def split: option.splits if_splits)
  with Cons.prems(2) rc obtain c where c: "dict_get b ''b'' = Some (BBytes c)" "c \<noteq> []" by auto
  show ?case
  proof (cases "write_payload_into (e_lm E) (h a) (BBytes c) off")
    case (Inl e')
    with Cons.prems(1) rc b c write_payload_error [OF c(2) Inl] show ?thesis by (simp add: AEROSPIKE_OK_def)
  next
    case (Inr r)
    obtain k mo where r: "r = (k, mo)" by (cases r)
    with Inr Cons.prems(1) rc b c have "read_segments (e_lm E) a recs (off + k) (n + k) (h(a := mo)) = (Inl e, h')"
      by (simp add: AEROSPIKE_OK_def)
    with Cons.IH Cons.prems(2) show ?thesis by auto
  qed
qed simp

lemma typed_payload:
  assumes "rec_typed sg m" "m ''b'' = Some v"
  shows "\<exists>c. v = BBytes c \<and> c \<noteq> []"
proof -
  have "bin_typed ''b'' v" using assms unfolding rec_typed_def by blast
  then show ?thesis by (cases v) (auto simp: INT_BINS_def)
qed

lemma segments_typed:
  assumes "cl_batch_read (e_client E) (sks_of E ck n) [''b''] s = (Inr recs, s')" "db_typed E (view s)" "rc \<in> set recs" "fst rc = 0"
  shows "\<exists>b c. snd rc = Some b \<and> dict_get b ''b'' = Some (BBytes c) \<and> c \<noteq> []"
proof -
  obtain i where i: "i < length recs" "rc = recs ! i" using assms(3) by (auto simp: in_set_conv_nth)
  have i': "i < length (sks_of E ck n)" using i batch_read_length [OF assms(1)] by simp
  from batch_read_found [OF assms(1) i'] assms(4) i obtain b m where b: "snd rc = Some b" "view s (sks_of E ck n ! i) = Some m"
    "map_of b = m |` set [''b'']" by auto
  have "sks_of E ck n ! i \<in> segment_space E" using i' by (simp add: sks_of_eq)
  with assms(2) b(2) have "rec_typed True m" by (metis db_typed_def)
  moreover from this obtain v where v: "m ''b'' = Some v" by (auto simp: rec_typed_def)
  ultimately obtain c where "v = BBytes c" "c \<noteq> []" using typed_payload by blast
  with b v show ?thesis by simp
qed

lemma typed_nseg:
  assumes "rec_typed sg m" "m ''state'' \<noteq> None"
  shows "\<exists>n. m ''nseg'' = Some (BInt n)"
proof -
  obtain v where v: "m ''nseg'' = Some v" "bin_typed ''nseg'' v" using assms unfolding rec_typed_def by blast
  then show ?thesis by (cases v) auto
qed

lemma read_payload_error:
  assumes "read_payload E ck b n a w = (Inl e, w')" "rec_typed sg (map_of b)" "db_typed E (view (srv w))"
  shows "is_ax e \<or> e = Conn AerospikeInternalError"
proof (cases "n = 1")
  case True
  with assms(1) obtain v where v: "dict_get b ''b'' = Some v" "write_payload_into (e_lm E) (heap w a) v 0 = Inl e"
    by (auto simp: read_payload_def split: option.splits sum.splits)
  with typed_payload [OF assms(2)] write_payload_error show ?thesis by blast
next
  case False
  obtain r s where r: "cl_batch_read (e_client E) (sks_of E ck n) [''b''] (srv w) = (r, s)" by fastforce
  show ?thesis
  proof (cases r)
    case (Inl e')
    with assms(1) False r batch_read_error show ?thesis by (auto simp: read_payload_def)
  next
    case (Inr recs)
    with assms(1) False r obtain h' where "read_segments (e_lm E) a recs 0 0 (heap w) = (Inl e, h')"
      by (auto simp: read_payload_def split: prod.splits)
    from read_segments_error [OF this] segments_typed [OF r [unfolded Inr] assms(3)] show ?thesis by blast
  qed
qed

lemma get_error_typed:
  assumes "get E ck (Some a) w = (Inl e, w')" "db_typed E (view (srv w))"
  shows "is_ax e \<or> (\<exists>c. e = Conn c)"
proof -
  obtain label w2 where g: "get_body E ck (Some a) w = (label, Inl e, w2)"
    using assms(1) unfolding get_def by (elim timedE) auto
  obtain r s where r: "cl_get (e_client E) (mk_of E ck) (srv w) = (r, s)" by fastforce
  show ?thesis
  proof (cases r)
    case (Inl exc)
    with g r get_error show ?thesis
      by (auto simp: get_body_def get_meta_error_def Let_def split: if_splits prod.splits)
  next
    case (Inr b)
    let ?w1 = "w\<lparr>srv := s\<rparr>"
    have v: "view (srv w) (mk_of E ck) = Some (map_of b)" "view s = view (srv w)"
      using get_found get_view r Inr by blast+
    then have t: "rec_typed False (map_of b)" using db_typed_meta [OF assms(2)] by blast
    with g r Inr obtain n w3 e' where i: "get_into E ck b n a False ?w1 = (Inl e', w3)" "e = e'"
      using typed_nseg [OF t]
      by (auto simp: get_body_def get_target_def int_bin_def Let_def split: if_splits prod.splits sum.splits)
    then obtain w4 where "read_payload E ck b n a ?w1 = (Inl e', w4)"
      by (auto simp: get_into_def Let_def split: prod.splits sum.splits option.splits if_splits)
    from read_payload_error [OF this t] v assms(2) i(2) show ?thesis by auto
  qed
qed

lemma load_metas_error:
  assumes "load_metas E recs items i rs h = (r, rs', h')" "length recs = length items"
    and "\<forall>rc \<in> set recs. \<forall>b. fst rc = 0 \<longrightarrow> snd rc = Some b \<longrightarrow> dict_get b ''state'' \<noteq> None \<longrightarrow> (\<exists>n. dict_get b ''nseg'' = Some (BInt n))"
  shows "\<exists>ms. r = Inr ms"
  using assms
proof (induction recs arbitrary: items i rs h r)
  case (Cons rc recs)
  obtain code rec where rc: "rc = (code, rec)" by (cases rc)
  from Cons.prems(2) obtain ck a items' where it: "items = (ck, a) # items'" by (cases items) auto
  have ih: "\<exists>ms. r1 = Inr ms" if "load_metas E recs items' (Suc i) rs1 h1 = (r1, rs', h')" for r1 rs1 h1
    using Cons.IH [OF that] Cons.prems(2,3) it by simp
  have ns: "\<exists>n. dict_get b ''nseg'' = Some (BInt n)" if "rec = Some b" "code = 0" "dict_get b ''state'' \<noteq> None" for b
    using Cons.prems(3) rc that by simp
  from Cons.prems(1) rc it ns show ?case
    by (auto simp: int_bin_def AEROSPIKE_OK_def split: option.splits if_splits sum.splits prod.splits dest!: ih)
qed simp

lemma load_multi_error:
  assumes "load_multi E ms rs w = (Inl e, rs', w')" "db_typed E (view (srv w))"
  shows "is_ax e \<or> (\<exists>c. e = Conn c)"
  using assms
proof (induction ms arbitrary: rs w)
  case (Cons m ms)
  obtain i ck a where m: "m = (i, ck, a)" by (cases m)
  obtain q w1 where g: "get E ck (Some a) w = (q, w1)" by fastforce
  have v: "view (srv w1) = view (srv w)" using get_view_unchanged [of ck "Some a" w] g by simp
  show ?case
  proof (cases q)
    case (Inl e')
    with Cons.prems m g get_error_typed [of ck a w e' w1] show ?thesis by auto
  next
    case (Inr res)
    with Cons.prems m g v Cons.IH [of _ w1] show ?thesis by auto
  qed
qed simp

lemma load_chunk_error:
  assumes "load_chunk E items rs off w = (Inl e, rs', w')" "db_typed E (view (srv w))"
  shows "is_ax e \<or> (\<exists>c. e = Conn c)"
proof -
  let ?ks = "map (\<lambda>(ck, _). mk_of E ck) items"
  obtain q s where q: "cl_batch_read (e_client E) ?ks META_READ_BINS (srv w) = (q, s)" by fastforce
  have v: "view s = view (srv w)" by (rule batch_read_view [OF q])
  show ?thesis
  proof (cases q)
    case (Inl e')
    with assms(1) q batch_read_error show ?thesis by (auto simp: load_chunk_def)
  next
    case (Inr recs)
    note f = batch_read_found [OF q [unfolded Inr]] and l = batch_read_length [OF q [unfolded Inr]]
    have "\<exists>n. dict_get b ''nseg'' = Some (BInt n)"
      if rc: "rc \<in> set recs" "fst rc = 0" "snd rc = Some b" "dict_get b ''state'' \<noteq> None" for rc b
    proof -
      obtain i where i: "i < length ?ks" "rc = recs ! i" using rc(1) l by (auto simp: in_set_conv_nth)
      with f [OF i(1)] rc obtain m where m: "view (srv w) (?ks ! i) = Some m" "map_of b = m |` set META_READ_BINS" by auto
      with rc(4) have "m ''state'' \<noteq> None" by (simp add: META_READ_BINS_def)
      with typed_nseg m assms(2) have "\<exists>n. m ''nseg'' = Some (BInt n)" unfolding db_typed_def by blast
      with m(2) show ?thesis by (simp add: META_READ_BINS_def)
    qed
    moreover obtain r1 rs1 h1 where lm: "load_metas E recs items off rs (heap w) = (r1, rs1, h1)" by (metis prod.exhaust)
    ultimately obtain ms where "r1 = Inr ms" using load_metas_error [OF lm] l by auto
    with assms(1) q Inr lm have "load_multi E ms rs1 (w\<lparr>srv := s, heap := h1\<rparr>) = (Inl e, rs', w')" by (simp add: load_chunk_def)
    from load_multi_error [OF this] v assms(2) show ?thesis by simp
  qed
qed

lemma load_chunks_error:
  assumes "load_chunks E cs rs off w = (Inl e, rs', w')" "db_typed E (view (srv w))" "distinct (map snd (concat cs))"
  shows "is_ax e \<or> (\<exists>c. e = Conn c)"
  using assms
proof (induction cs arbitrary: rs off w)
  case (Cons c cs)
  obtain q rs1 w1 where l: "load_chunk E c rs off w = (q, rs1, w1)" by (metis prod.exhaust)
  have v: "view (srv w1) = view (srv w)" using load_chunk_outcome [OF l] Cons.prems(3) by simp
  show ?case
  proof (cases q)
    case (Inl e')
    with Cons.prems l load_chunk_error [of c rs off w e' rs1 w1] show ?thesis by auto
  next
    case (Inr u)
    with Cons.prems l v Cons.IH [of rs1 "off + length c" w1] show ?thesis by simp
  qed
qed simp

lemma batched_get_error_typed:
  assumes "batched_get_preallocated E items w = (Inl e, w')" "db_typed E (view (srv w))" "distinct (map snd items)"
  shows "\<exists>c. e = Conn c"
proof -
  obtain q rs1 w2 where l: "load_chunks E (chunked items) (replicate (length items) False) 0 w = (q, rs1, w2)"
    by (metis prod.exhaust)
  have "items \<noteq> []" using assms(1) by (auto simp: batched_get_preallocated_def)
  with assms(1) obtain label w1 where b: "batched_get_body E items w = (label, Inl e, w1)"
    unfolding batched_get_preallocated_def by (auto elim: timedE)
  with l obtain exc where x: "q = Inl exc" by (cases q) (auto simp: batched_get_body_def)
  have "is_ax exc \<or> (\<exists>c. exc = Conn c)"
    using load_chunks_error [OF l [unfolded x] assms(2)] assms(3) by (simp add: concat_blocks_of)
  with b l x show ?thesis by (auto simp: batched_get_body_def split: if_splits)
qed

lemma exists_view: "view (srv (snd (exists E ck w))) = view (srv w)"
  by (simp add: exists_def exists_body_def Let_def case_prod_beta split: sum.splits)

end

section \<open>Type safety\<close>

text \<open>Everything that happens to the world of one engine: its operations, on objects with a
  payload and with different names in one batch, and any change outside the database.\<close>

inductive engine_step :: "('s, 'k) engine \<Rightarrow> 's world \<Rightarrow> 's world \<Rightarrow> bool" for E where
  put: "mo_bytes (heap w a) \<noteq> [] \<Longrightarrow> put E ck a pinned w = (r, w') \<Longrightarrow> engine_step E w w'"
| batched_put: "\<forall>it \<in> set items. mo_bytes (heap w (snd it)) \<noteq> [] \<Longrightarrow>
    distinct (map (\<lambda>it. e_to_string E (fst it)) items) \<Longrightarrow> batched_put E items pinned w = (r', w') \<Longrightarrow> engine_step E w w'"
| pin: "distinct (map (e_to_string E) keys) \<Longrightarrow> pin_keys E keys w = (r, w') \<Longrightarrow> engine_step E w w'"
| unpin: "unpin E ck w = (rb, w') \<Longrightarrow> engine_step E w w'"
| remove: "remove E ck w = (rb, w') \<Longrightarrow> engine_step E w w'"
| get: "get E ck pre w = (rg, w') \<Longrightarrow> engine_step E w w'"
| batched_get: "distinct (map snd items) \<Longrightarrow> batched_get_preallocated E items w = (r', w') \<Longrightarrow> engine_step E w w'"
| probe: "exists E ck w = (rb, w') \<Longrightarrow> engine_step E w w'"
| contains: "batched_contains E keys w = (ri, w') \<Longrightarrow> engine_step E w w'"
| mask: "batched_exists_mask E keys w = (r', w') \<Longrightarrow> engine_step E w w'"
| outside: "srv w' = srv w \<Longrightarrow> engine_step E w w'"

context storage_env
begin

lemma contains_view_unchanged: "view (srv (snd (batched_contains E keys w))) = view (srv w)"
  by (simp add: batched_contains_def Let_def case_prod_beta split: sum.splits)

lemma mask_view_unchanged: "view (srv (snd (batched_exists_mask E keys w))) = view (srv w)"
  by (simp add: batched_exists_mask_def Let_def case_prod_beta split: sum.splits)

lemma step_typed:
  assumes "engine_step E w w'" "0 < rl_target_segment_bytes (e_resolved E)" "db_typed E (view (srv w))"
  shows "db_typed E (view (srv w'))"
  using assms(1)
proof cases
  case (put a ck pinned r)
  with put_typed [OF put(2) assms(2)] assms(3) show ?thesis by blast
next
  case (batched_put items pinned r')
  with batched_put_typed [OF batched_put(3) assms(2)] assms(3) show ?thesis by blast
next
  case (pin keys r)
  with pin_keys_typed assms(3) show ?thesis by blast
next
  case (unpin ck rb)
  with unpin_typed assms(3) show ?thesis by blast
next
  case (remove ck rb)
  with remove_typed assms(3) show ?thesis by blast
next
  case (get ck pre rg)
  with get_view_unchanged [of ck pre w] assms(3) show ?thesis by simp
next
  case (batched_get items r')
  with batched_get_frame(1) [OF batched_get(2,1)] assms(3) show ?thesis by simp
next
  case (probe ck rb)
  with exists_view [of ck w] assms(3) show ?thesis by simp
next
  case (contains keys ri)
  with contains_view_unchanged [of keys w] assms(3) show ?thesis by simp
next
  case (mask keys r')
  with mask_view_unchanged [of keys w] assms(3) show ?thesis by simp
next
  case outside
  with assms(3) show ?thesis by simp
qed

lemma run_typed:
  assumes "(engine_step E)\<^sup>*\<^sup>* w w'" "0 < rl_target_segment_bytes (e_resolved E)" "db_typed E (view (srv w))"
  shows "db_typed E (view (srv w'))"
  using assms by (induction rule: rtranclp_induct) (auto intro: step_typed)

end



end
