(* ===== verification/Engine_Load.thy ===== *)
theory Engine_Load
  imports Engine_Types
begin

text \<open>
  The converse of the soundness of \<open>batched_get_preallocated\<close>: on a healthy server every item
  whose chunk is stored and fits into its buffer is loaded.
\<close>

definition loadable :: "('s, 'k) engine \<Rightarrow> dbview \<Rightarrow> heap \<Rightarrow> 'k \<times> nat \<Rightarrow> bool" where
  "loadable E v h it \<longleftrightarrow>
     (\<exists>cs. stored_chunks E v (fst it) = Some cs \<and> crc_good E v (fst it) (concat cs) \<and>
        length (concat cs) \<le> length (mo_bytes (h (snd it))) \<and> (mo_tensor (h (snd it)) \<longrightarrow> [] \<notin> set cs))"

lemma loadable_cong: "h' (snd it) = h (snd it) \<Longrightarrow> loadable E v h' it = loadable E v h it"
  by (simp add: loadable_def)

text \<open>Flags are only ever added.\<close>

definition grows :: "bool list \<Rightarrow> bool list \<Rightarrow> bool" where
  "grows rs rs' \<longleftrightarrow> length rs' = length rs \<and> (\<forall>i < length rs. rs ! i \<longrightarrow> rs' ! i)"

lemma grows_refl [simp]: "grows rs rs"
  by (simp add: grows_def)

lemma grows_trans: "grows rs rs1 \<Longrightarrow> grows rs1 rs2 \<Longrightarrow> grows rs rs2"
  by (simp add: grows_def)

lemma grows_set:
  assumes "grows (rs[i := True]) rs'"
  shows "grows rs rs' \<and> (i < length rs \<longrightarrow> rs' ! i)"
proof -
  have "rs' ! j" if "j < length rs" "j = i \<or> rs ! j" for j
    using assms that by (cases "j = i") (auto simp: grows_def)
  with assms show ?thesis by (auto simp: grows_def)
qed

lemma load_metas_grows: "load_metas E recs items i rs h = (r, rs', h') \<Longrightarrow> grows rs rs'"
proof (induction recs arbitrary: items i rs h r)
  case (Cons rc recs)
  obtain code rec where rc: "rc = (code, rec)" by (cases rc)
  show ?case
  proof (cases items)
    case (Cons it items')
    with Cons.prems rc show ?thesis
      by (cases it) (auto split: option.splits if_splits sum.splits prod.splits
          dest: Cons.IH dest!: grows_set [THEN conjunct1, OF Cons.IH])
  qed (use Cons.prems in simp)
qed simp

context storage_env
begin

text \<open>A meta record of a loadable item, as the batch read returns it.\<close>

lemma load_single_complete:
  assumes "loadable E v h (ck, a)" "v (mk_of E ck) = Some m" "map_of b = m |` set META_READ_BINS"
    and "int_bin b ''nseg'' = Inr 1"
  shows "\<exists>payload h1. dict_get b ''b'' = Some payload \<and> load_single E b payload a h = (True, h1)"
proof -
  have eq: "map_of b k = m k" if "k \<in> {''state'', ''nseg'', ''b'', ''crc32''}" for k
    using assms(3) that by (auto simp: META_READ_BINS_def)
  from assms(1,2) obtain n cs where cs: "meta_nseg m = Some n" "chunks_from E v ck m n = Some cs" "crc_good E v ck (concat cs)"
    "length (concat cs) \<le> length (mo_bytes (h a))" "mo_tensor (h a) \<longrightarrow> [] \<notin> set cs"
    by (auto simp: loadable_def stored_chunks_def split: option.splits)
  have "n = 1" using cs(1) assms(4) eq [of "''nseg''"] by (auto simp: meta_nseg_def int_bin_def split: option.splits if_splits)
  with cs(2) obtain bs where bs: "m ''b'' = Some (BBytes bs)" "cs = [bs]"
    by (auto simp: chunks_from_def rec_payload_Some)
  with cs(4,5) have w: "write_payload_into (e_lm E) (h a) (BBytes bs) 0 =
      Inr (length bs, (h a)\<lparr>mo_bytes := patch 0 bs (mo_bytes (h a))\<rparr>)"
    by (intro write_payload_succeeds) auto
  have "crc_matches E b bs"
    using cs(3) bs(2) assms(2) eq [of "''crc32''"] by (simp add: crc_matches_def crc_good_def)
  moreover have "take (length bs) (patch 0 bs (mo_bytes (h a))) = bs" by (simp add: patch_def)
  ultimately show ?thesis using w bs(1) eq [of "''b''"] by (simp add: load_single_def)
qed

definition meta_found :: "dbview \<Rightarrow> batch_rec \<Rightarrow> 'k \<Rightarrow> bool" where
  "meta_found v rc ck \<longleftrightarrow> fst rc = 0 \<and> (\<exists>b m. snd rc = Some b \<and> v (mk_of E ck) = Some m \<and> map_of b = m |` set META_READ_BINS)"

lemma load_metas_complete:
  assumes "list_all2 (meta_found v) recs (map fst items)" "\<forall>it \<in> set items. loadable E v h it"
    and "distinct (map snd items)" "i + length items \<le> length rs" "load_metas E recs items i rs h = (r, rs', h')"
  shows "\<exists>ms. r = Inr ms \<and> (\<forall>j < length items. rs' ! (i + j) \<or> (i + j, items ! j) \<in> set ms)"
  using assms
proof (induction items arbitrary: recs i rs h r)
  case Nil
  then show ?case by auto
next
  case (Cons it items)
  obtain ck a where it: "it = (ck, a)" by (cases it)
  from Cons.prems(1) obtain rc recs' where recs: "recs = rc # recs'" and mf: "meta_found v rc ck"
    and rest: "list_all2 (meta_found v) recs' (map fst items)" by (cases recs) (auto simp: it)
  obtain b m where b: "rc = (0, Some b)" "v (mk_of E ck) = Some m" "map_of b = m |` set META_READ_BINS"
    using mf by (cases rc) (auto simp: meta_found_def)
  have ld: "loadable E v h (ck, a)" using Cons.prems(2) it by simp
  then obtain n where n: "meta_nseg m = Some n" using b(2) by (auto simp: loadable_def stored_chunks_def split: option.splits)
  have st: "dict_get b ''state'' = Some (BStr ''ready'')" "int_bin b ''nseg'' = Inr n"
    using n b(3) by (auto simp: meta_nseg_def int_bin_def META_READ_BINS_def split: if_splits option.splits sum.splits)
  show ?case
  proof (cases "n = 1")
    case True
    from load_single_complete [OF ld b(2,3)] st(2) True obtain payload h1 where
      l: "dict_get b ''b'' = Some payload" "load_single E b payload a h = (True, h1)" by auto
    with Cons.prems(5) recs it b(1) st True
    have rest': "load_metas E recs' items (Suc i) (rs[i := True]) h1 = (r, rs', h')" by (simp add: AEROSPIKE_OK_def)
    have "h1 c = h c" if "c \<noteq> a" for c using l(2) that by (auto simp: load_single_def split: sum.splits)
    then have "\<forall>it \<in> set items. loadable E v h1 it"
      using Cons.prems(2,3) it loadable_cong [of h1 _ h E v] by (auto simp: image_iff)
    from Cons.IH [OF rest this _ _ rest'] Cons.prems(3,4) obtain ms where
      ms: "r = Inr ms" "\<forall>j < length items. rs' ! (Suc i + j) \<or> (Suc i + j, items ! j) \<in> set ms" by auto
    have "rs' ! i" using grows_set [OF load_metas_grows [OF rest']] Cons.prems(4) by simp
    with ms show ?thesis by (auto simp: nth_Cons less_Suc_eq_0_disj split: nat.splits)
  next
    case False
    obtain r0 where rest': "load_metas E recs' items (Suc i) rs h = (r0, rs', h')" "r = bindE r0 (\<lambda>ms. Inr ((i, ck, a) # ms))"
      using Cons.prems(5) recs it b(1) st False by (auto simp: AEROSPIKE_OK_def split: prod.splits)
    have "\<forall>it \<in> set items. loadable E v h it" using Cons.prems(2) by simp
    from Cons.IH [OF rest this _ _ rest'(1)] Cons.prems(3,4) obtain ms where
      ms: "r0 = Inr ms" "\<forall>j < length items. rs' ! (Suc i + j) \<or> (Suc i + j, items ! j) \<in> set ms" by auto
    with rest'(2) it show ?thesis by (auto simp: nth_Cons less_Suc_eq_0_disj split: nat.splits)
  qed
qed

end

context healthy_env
begin

lemma load_multi_complete:
  assumes "live (srv w)" "\<forall>m \<in> set ms. loadable E (view (srv w)) (heap w) (snd m) \<and> fst m < length rs"
    and "distinct (map (snd \<circ> snd) ms)"
  shows "\<exists>rs' w'. load_multi E ms rs w = (Inr (), rs', w') \<and> live (srv w') \<and> grows rs rs' \<and> (\<forall>m \<in> set ms. rs' ! fst m)"
  using assms
proof (induction ms arbitrary: rs w)
  case (Cons m ms)
  obtain i ck a where m: "m = (i, ck, a)" by (cases m)
  from Cons.prems(2) m obtain cs where cs: "stored_chunks E (view (srv w)) ck = Some cs"
    "crc_good E (view (srv w)) ck (concat cs)" "length (concat cs) \<le> length (mo_bytes (heap w a))"
    "mo_tensor (heap w a) \<longrightarrow> [] \<notin> set cs" by (auto simp: loadable_def)
  from get_succeeds [OF Cons.prems(1) cs(1-3)] cs(4) obtain w1 where
    g: "get E ck (Some a) w = (Inr (Some a), w1)" "heap w1 = loaded a (concat cs) (heap w)" "live (srv w1)" by blast
  have v: "view (srv w1) = view (srv w)" using get_view_unchanged [of ck "Some a" w] g by simp
  have pre: "loadable E (view (srv w1)) (heap w1) (snd m') \<and> fst m' < length (rs[i := True])" if "m' \<in> set ms" for m'
  proof -
    have "snd (snd m') \<noteq> a" using Cons.prems(3) m that by force
    then have "heap w1 (snd (snd m')) = heap w (snd (snd m'))" using g(2) by simp
    from loadable_cong [of "heap w1" "snd m'" "heap w", OF this, of E "view (srv w)"] Cons.prems(2) that v show ?thesis by simp
  qed
  have d: "distinct (map (snd \<circ> snd) ms)" using Cons.prems(3) by (simp add: comp_def)
  from Cons.IH [OF g(3) ballI [OF pre] d] obtain rs' w' where
    r: "load_multi E ms (rs[i := True]) w1 = (Inr (), rs', w')" "live (srv w')" "grows (rs[i := True]) rs'" "\<forall>m \<in> set ms. rs' ! fst m"
    by blast
  have "i < length rs" using Cons.prems(2) m by simp
  with grows_set [OF r(3)] r g(1) m show ?case by auto
qed simp

lemma batch_read_metas:
  assumes "live (srv w)" "\<forall>it \<in> set items. loadable E (view (srv w)) (heap w) it"
  shows "\<exists>recs s. cl_batch_read (e_client E) (map (\<lambda>(ck, _). mk_of E ck) items) META_READ_BINS (srv w) = (Inr recs, s) \<and>
    live s \<and> list_all2 (meta_found (view (srv w))) recs (map fst items)"
proof -
  let ?ks = "map (\<lambda>(ck, _). mk_of E ck) items" and ?v = "view (srv w)"
  from live_batch_read [OF assms(1), of ?ks META_READ_BINS] obtain recs s where
    r: "cl_batch_read (e_client E) ?ks META_READ_BINS (srv w) = (Inr recs, s)" "live s"
    and found: "\<forall>i < length ?ks. (fst (recs ! i) = 0) = (?v (?ks ! i) \<noteq> None)" by blast
  have "list_all2 (meta_found ?v) recs (map fst items)"
  proof (rule list_all2_all_nthI)
    show len: "length recs = length (map fst items)" using batch_read_length [OF r(1)] by simp
    fix i assume "i < length recs"
    then have i: "i < length items" using len by simp
    have "loadable E ?v (heap w) (items ! i)" using assms(2) i by simp
    then have "?v (mk_of E (fst (items ! i))) \<noteq> None" by (auto simp: loadable_def stored_chunks_def split: option.splits)
    with found i have z: "fst (recs ! i) = 0" by (simp add: case_prod_beta)
    from batch_read_found [OF r(1) _ z] i z show "meta_found ?v (recs ! i) (map fst items ! i)"
      by (auto simp: meta_found_def case_prod_beta)
  qed
  with r show ?thesis by blast
qed

lemma load_chunk_complete:
  assumes "live (srv w)" "\<forall>it \<in> set items. loadable E (view (srv w)) (heap w) it" "distinct (map snd items)"
    and "off + length items \<le> length rs"
  shows "\<exists>rs' w'. load_chunk E items rs off w = (Inr (), rs', w') \<and> live (srv w') \<and> grows rs rs' \<and>
    (\<forall>j < length items. rs' ! (off + j))"
proof -
  let ?ks = "map (\<lambda>(ck, _). mk_of E ck) items" and ?v = "view (srv w)"
  from batch_read_metas [OF assms(1,2)] obtain recs s where
    r: "cl_batch_read (e_client E) ?ks META_READ_BINS (srv w) = (Inr recs, s)" "live s"
    and mf: "list_all2 (meta_found ?v) recs (map fst items)" by blast
  have v: "view s = ?v" by (rule batch_read_view [OF r(1)])
  obtain q rs1 h1 where l: "load_metas E recs items off rs (heap w) = (q, rs1, h1)" by (metis prod.exhaust)
  from load_metas_complete [OF mf assms(2-4) l] obtain ms where
    ms: "q = Inr ms" "\<forall>j < length items. rs1 ! (off + j) \<or> (off + j, items ! j) \<in> set ms" by blast
  have "list_all2 (meta_rec_ok E ?v) recs (map fst items)"
    using mf by (rule list_all2_mono) (auto simp: meta_rec_ok_def meta_found_def)
  from load_metas_outcome [OF l this assms(3)] ms(1) obtain new where n: "loads E ?v new (rs, heap w) (rs1, h1)"
    "set ms \<subseteq> set (List.enumerate off items)" "snd ` snd ` set new \<inter> snd ` snd ` set ms = {}" "distinct (map (snd \<circ> snd) ms)"
    by (auto simp: metas_post_def)
  let ?w2 = "w\<lparr>srv := s, heap := h1\<rparr>"
  have "loadable E ?v h1 (snd m) \<and> fst m < length rs1" if "m \<in> set ms" for m
  proof -
    have e: "m \<in> set (List.enumerate off items)" using n(2) that by blast
    then have m: "off \<le> fst m" "fst m < off + length items" "items ! (fst m - off) = snd m" by (auto simp: in_set_enumerate_eq)
    then have "snd m \<in> set items" by (metis add_diff_inverse_nat nat_add_left_cancel_less not_less nth_mem)
    have "snd (snd m) \<notin> snd ` snd ` set new" using n(3) that by blast
    with n(1) have "h1 (snd (snd m)) = heap w (snd (snd m))" by (simp add: loads_def)
    from loadable_cong [of h1 "snd m" "heap w", OF this, of E ?v] assms(2) \<open>snd m \<in> set items\<close> have "loadable E ?v h1 (snd m)" by simp
    moreover have "length rs1 = length rs" using load_metas_grows [OF l] by (simp add: grows_def)
    ultimately show ?thesis using assms(4) m(2) by simp
  qed
  then have "\<forall>m \<in> set ms. loadable E (view (srv ?w2)) (heap ?w2) (snd m) \<and> fst m < length rs1" using v by simp
  from load_multi_complete [OF _ this n(4)] r(2) obtain rs' w' where
    m: "load_multi E ms rs1 ?w2 = (Inr (), rs', w')" "live (srv w')" "grows rs1 rs'" "\<forall>m \<in> set ms. rs' ! fst m" by auto
  have "rs' ! (off + j)" if j: "j < length items" for j
  proof (cases "(off + j, items ! j) \<in> set ms")
    case True
    with m(4) show ?thesis by fastforce
  next
    case False
    with ms(2) j have "rs1 ! (off + j)" by blast
    with m(3) load_metas_grows [OF l] assms(4) j show ?thesis by (auto simp: grows_def)
  qed
  with r(1) l ms(1) m grows_trans [OF load_metas_grows [OF l] m(3)] show ?thesis by (simp add: load_chunk_def)
qed

lemma load_chunks_complete:
  assumes "live (srv w)" "\<forall>it \<in> set (concat cs). loadable E (view (srv w)) (heap w) it" "distinct (map snd (concat cs))"
    and "off + length (concat cs) \<le> length rs"
  shows "\<exists>rs' w'. load_chunks E cs rs off w = (Inr (), rs', w') \<and> live (srv w') \<and> grows rs rs' \<and>
    (\<forall>j < length (concat cs). rs' ! (off + j))"
  using assms
proof (induction cs arbitrary: rs off w)
  case (Cons c cs)
  have d: "distinct (map snd c)" "distinct (map snd (concat cs))" using Cons.prems(3) by auto
  have "\<forall>it \<in> set c. loadable E (view (srv w)) (heap w) it" "off + length c \<le> length rs" using Cons.prems(2,4) by auto
  from load_chunk_complete [OF Cons.prems(1) this(1) d(1) this(2)] obtain rs1 w1 where
    l: "load_chunk E c rs off w = (Inr (), rs1, w1)" "live (srv w1)" "grows rs rs1" "\<forall>j < length c. rs1 ! (off + j)" by blast
  note o = load_chunk_outcome [OF l(1) d(1)]
  have "loadable E (view (srv w1)) (heap w1) it" if it: "it \<in> set (concat cs)" for it
  proof -
    have "snd it \<notin> snd ` set c" using Cons.prems(3) it by auto
    then have "snd it \<notin> snd ` snd ` set (List.enumerate off c)" using enumerate_buffers [OF order.refl, of off c] by blast
    with o have "heap w1 (snd it) = heap w (snd it)" by (simp add: loads_def)
    from loadable_cong [of "heap w1" it "heap w", OF this, of E "view (srv w)"] Cons.prems(2) it o show ?thesis by simp
  qed
  moreover have "off + length c + length (concat cs) \<le> length rs1" using Cons.prems(4) l(3) by (simp add: grows_def)
  ultimately obtain rs' w' where r: "load_chunks E cs rs1 (off + length c) w1 = (Inr (), rs', w')" "live (srv w')" "grows rs1 rs'"
    "\<forall>j < length (concat cs). rs' ! (off + length c + j)" using Cons.IH [OF l(2) _ d(2), of "off + length c" rs1] by blast
  have "rs' ! (off + j)" if j: "j < length (concat (c # cs))" for j
  proof (cases "j < length c")
    case True
    with l(4) have "rs1 ! (off + j)" by blast
    with r(3) l(3) Cons.prems(4) j show ?thesis by (auto simp: grows_def)
  next
    case False
    with r(4) j show ?thesis by (auto dest!: spec [of _ "j - length c"])
  qed
  with l r grows_trans [OF l(3) r(3)] show ?case by auto
qed simp

lemma batched_get_complete:
  assumes "live (srv w)" "\<forall>it \<in> set items. loadable E (view (srv w)) (heap w) it" "distinct (map snd items)"
  shows "\<exists>w'. batched_get_preallocated E items w = (Inr (replicate (length items) True), w') \<and> live (srv w')"
proof (cases "items = []")
  case True
  with assms(1) show ?thesis by (simp add: batched_get_preallocated_def)
next
  case False
  let ?rs = "replicate (length items) False"
  have c: "concat (chunked items) = items" by (rule concat_blocks_of)
  have "\<exists>rs' w'. load_chunks E (chunked items) ?rs 0 w = (Inr (), rs', w') \<and> live (srv w') \<and> grows ?rs rs' \<and>
    (\<forall>j < length (concat (chunked items)). rs' ! (0 + j))"
    using assms by (intro load_chunks_complete) (simp_all add: c)
  then obtain rs' w1 where r: "load_chunks E (chunked items) ?rs 0 w = (Inr (), rs', w1)" "live (srv w1)" "grows ?rs rs'"
    "\<forall>j < length items. rs' ! j" by (auto simp: c)
  have "rs' = replicate (length items) True" using r(3,4) by (intro nth_equalityI) (auto simp: grows_def)
  with r have "batched_get_body E items w = (''ok'', Inr (replicate (length items) True), w1)" by (simp add: batched_get_body_def)
  with False r(2) show ?thesis by (simp add: batched_get_preallocated_def timed_def case_prod_beta)
qed

end

text \<open>What is intact on a typed database is loadable into a buffer of its size.\<close>

lemma intact_loadable:
  assumes "db_typed E v" "intact E v ck bs" "length bs \<le> length (mo_bytes (h a))"
  shows "loadable E v h (ck, a)"
proof -
  obtain cs where cs: "stored_chunks E v ck = Some cs" "concat cs = bs" using assms(2) by (auto simp: intact_def payload_of_def)
  have seg: "c \<noteq> []" if "rec_payload (Some m) = Some c" "rec_typed sg m" for sg m c
    using that unfolding rec_payload_Some rec_typed_def by fastforce
  from cs(1) obtain m n where m: "v (mk_of E ck) = Some m" "chunks_from E v ck m n = Some cs"
    by (auto simp: stored_chunks_def split: option.splits)
  have "[] \<notin> set cs"
  proof (cases "n = 1")
    case True
    with m(2) obtain c where "rec_payload (Some m) = Some c" "cs = [c]" by (auto simp: chunks_from_def)
    with seg db_typed_meta [OF assms(1) m(1)] show ?thesis by auto
  next
    case False
    with m(2) have a: "list_all2 (\<lambda>k c. rec_payload (v k) = Some c) (sks_of E ck n) cs"
      by (simp add: chunks_from_def those_map_iff)
    have "c \<noteq> []" if c: "c \<in> set cs" for c
    proof -
      obtain i where i: "i < length cs" "c = cs ! i" using c by (metis in_set_conv_nth)
      let ?k = "sks_of E ck n ! i"
      have k: "rec_payload (v ?k) = Some c" using list_all2_nthD2 [OF a i(1)] i(2) by simp
      then obtain m' where m': "v ?k = Some m'" by (auto simp: rec_payload_def split: option.splits)
      then have t: "rec_typed (?k \<in> segment_space E) m'" using assms(1) unfolding db_typed_def by blast
      from k m' seg [OF _ t] show ?thesis by simp
    qed
    then show ?thesis by auto
  qed
  with cs assms(2,3) show ?thesis by (auto simp: loadable_def intact_def)
qed

end
