(* ===== verification/L2_Roundtrip.thy ===== *)
theory L2_Roundtrip
  imports L2_Drain Engine_Load
begin

text \<open>
  Store and load tasks together: what a successful store task has stored, a load task on a healthy
  server brings back, with every bit set. The locale \<open>chunk_progress\<close> extends the contract of a
  block worker by progress: it works off every block whose items are ready.
\<close>

section \<open>Progress of the blocks\<close>

locale chunk_progress = chunk_worker fn ident cond good frame
  for fn :: "'a list \<Rightarrow> 'w \<Rightarrow> (exn + bool list) \<times> 'w" and ident :: "'a \<Rightarrow> 'n" and cond :: bool
    and good :: "'a \<Rightarrow> 'w \<Rightarrow> bool" and frame :: "'n \<Rightarrow> 'w \<Rightarrow> 'w \<Rightarrow> bool" +
  fixes ready :: "'a \<Rightarrow> 'w \<Rightarrow> bool" and alive :: "'w \<Rightarrow> bool"
  assumes fn_all: "alive w \<Longrightarrow> cond \<Longrightarrow> distinct (map ident xs) \<Longrightarrow> \<forall>x \<in> set xs. ready x w \<Longrightarrow>
      \<exists>w'. fn xs w = (Inr (replicate (length xs) True), w') \<and> alive w'"
    and ready_frame: "ready x w \<Longrightarrow> frame (ident x) w w' \<Longrightarrow> ready x w'"
begin

lemma chunks_in_all:
  assumes "alive w" "cond" "distinct (map ident (concat chunks))" "distinct sched" "length ordered = length chunks"
    and "\<forall>i \<in> set sched. i < length chunks \<and> (\<forall>x \<in> set (chunks ! i). ready x w)"
  shows "\<exists>ordered' w'. chunks_in fn chunks sched ordered w = (Inr ordered', w') \<and> alive w' \<and> length ordered' = length chunks \<and>
    (\<forall>i < length chunks. ordered' ! i = (if i \<in> set sched then Some (replicate (length (chunks ! i)) True) else ordered ! i))"
  using assms(1,4-)
proof (induction sched arbitrary: ordered w)
  case (Cons i sched)
  have i: "i < length chunks" "\<forall>x \<in> set (chunks ! i). ready x w" using Cons.prems(4) by auto
  note di = distinct_chunk [OF assms(3) i(1)]
  from fn_all [OF Cons.prems(1) assms(2) di i(2)] obtain w1 where
    f: "fn (chunks ! i) w = (Inr (replicate (length (chunks ! i)) True), w1)" "alive w1" by blast
  have "ready x w1" if "j \<in> set sched" "x \<in> set (chunks ! j)" for j x
  proof -
    have j: "j < length chunks" "j \<noteq> i" "ready x w" using that Cons.prems(2,4) by auto
    from fn_frame [OF f(1) assms(2) di chunk_disjoint [OF assms(3) j(1) i(1) j(2) that(2)]] j(3) ready_frame
    show ?thesis by blast
  qed
  then have pre: "\<forall>j \<in> set sched. j < length chunks \<and> (\<forall>x \<in> set (chunks ! j). ready x w1)" using Cons.prems(4) by auto
  let ?o = "ordered[i := Some (replicate (length (chunks ! i)) True)]"
  have d: "distinct sched" "i \<notin> set sched" "length ?o = length chunks" using Cons.prems(2,3) by auto
  from Cons.IH [OF f(2) d(1,3) pre] obtain ordered' w' where
    r: "chunks_in fn chunks sched ?o w1 = (Inr ordered', w')" "alive w'" "length ordered' = length chunks"
    "\<forall>k < length chunks. ordered' ! k = (if k \<in> set sched then Some (replicate (length (chunks ! k)) True) else ?o ! k)" by blast
  have "ordered' ! k = (if k \<in> set (i # sched) then Some (replicate (length (chunks ! k)) True) else ordered ! k)"
    if "k < length chunks" for k
    using r(4) that d Cons.prems(3) by (cases "k = i") auto
  with f(1) r(1-3) show ?case by simp
qed simp

lemma parallel_all:
  assumes "alive w" "cond" "distinct (map ident items)" "\<forall>x \<in> set items. ready x w" "\<not> ex_shutdown ex"
    and "distinct sched" "set sched = {..<length (blocks CHUNK_SIZE items)}"
  shows "\<exists>w'. parallel_chunks ex sched fn items w = (Inr (replicate (length items) True), w') \<and> alive w'"
proof (cases "length items \<le> CHUNK_SIZE \<or> length (blocks CHUNK_SIZE items) = 1")
  case True
  with fn_all [OF assms(1-4)] show ?thesis by (auto simp: parallel_chunks_def Let_def)
next
  case False
  let ?cs = "blocks CHUNK_SIZE items"
  have c: "concat ?cs = items" by (rule concat_blocks_of)
  have "set (?cs ! i) \<subseteq> set items" if "i < length ?cs" for i using that nth_mem c by (metis UN_upper set_concat)
  with assms(4,7) have pre: "\<forall>i \<in> set sched. i < length ?cs \<and> (\<forall>x \<in> set (?cs ! i). ready x w)" by auto
  have d: "distinct (map ident (concat ?cs))" using assms(3) by (simp add: c)
  from chunks_in_all [OF assms(1,2) d assms(6) _ pre, of "replicate (length ?cs) None"] obtain ordered w' where
    r: "chunks_in fn ?cs sched (replicate (length ?cs) None) w = (Inr ordered, w')" "alive w'" "length ordered = length ?cs"
    "\<forall>i < length ?cs. ordered ! i = Some (replicate (length (?cs ! i)) True)" using assms(7) by auto
  have "those ordered = Some (map (\<lambda>b. replicate (length b) True) ?cs)"
    using those_map_iff [of id ordered "map (\<lambda>b. replicate (length b) True) ?cs"] r(3,4) by (simp add: list_all2_conv_all_nth)
  moreover have "concat (map (\<lambda>b. replicate (length b) True) bs) = replicate (length (concat bs)) True" for bs :: "'a list list"
    by (induction bs) (simp_all add: replicate_add)
  ultimately have "join_parts ordered = Inr (replicate (length items) True)" using c by (simp add: join_parts_def)
  with False r(1,2) assms(5) show ?thesis by (simp add: parallel_chunks_def run_in_def)
qed

end

sublocale healthy_env \<subseteq> loads: chunk_progress
  "batched_get_preallocated E" snd True "\<lambda>it w. holds E (view (srv w)) it (heap w)" "same_buffer view"
  "\<lambda>it w. loadable E (view (srv w)) (heap w) it" "\<lambda>w. live (srv w)"
proof unfold_locales
  show "\<exists>w'. batched_get_preallocated E xs w = (Inr (replicate (length xs) True), w') \<and> live (srv w')"
    if "live (srv w)" "distinct (map snd xs)" "\<forall>x \<in> set xs. loadable E (view (srv w)) (heap w) x" for xs w
    by (rule batched_get_complete [OF that(1,3,2)])
  show "loadable E (view (srv w')) (heap w') x"
    if "loadable E (view (srv w)) (heap w) x" "same_buffer view (snd x) w w'" for x w w'
    using that loadable_cong [of "heap w'" x "heap w" E "view (srv w)"] by (simp add: same_buffer_def)
qed

context healthy_env
begin

lemmas parallel_get_all = loads.parallel_all

end

section \<open>Blocks keep invariants\<close>

lemma chunks_in_inv:
  assumes "chunks_in fn chunks sched ordered w = (r, w')" "J w"
    and "\<And>i w r w'. i \<in> set sched \<Longrightarrow> J w \<Longrightarrow> fn (chunks ! i) w = (r, w') \<Longrightarrow> J w'"
  shows "J w'"
  using assms
proof (induction sched arbitrary: ordered w r)
  case (Cons i sched)
  obtain q w1 where q: "fn (chunks ! i) w = (q, w1)" by fastforce
  have "J w1" using Cons.prems(3) [OF _ Cons.prems(2) q] by simp
  moreover have "\<exists>ordered r. chunks_in fn chunks sched ordered w1 = (r, w')"
    using Cons.prems(1) q by (cases q) (auto simp: prod_eq_iff)
  ultimately show ?case using Cons.IH Cons.prems(3) by (metis list.set_intros(2))
qed simp

lemma parallel_inv:
  assumes "parallel_chunks ex sched fn items w = (r, w')" "J w" "set sched \<subseteq> {..<length (blocks CHUNK_SIZE items)}"
    and "\<And>xs w r w'. xs \<in> insert items (set (blocks CHUNK_SIZE items)) \<Longrightarrow> J w \<Longrightarrow> fn xs w = (r, w') \<Longrightarrow> J w'"
  shows "J w'"
proof -
  let ?cs = "blocks CHUNK_SIZE items"
  consider "fn items w = (r, w')" | "w' = w"
    | q where "chunks_in fn ?cs sched (replicate (length ?cs) None) w = (q, w')"
    using assms(1) by (auto simp: parallel_chunks_def Let_def run_in_def split: if_splits prod.splits)
  then show ?thesis
  proof cases
    case 1
    with assms(2,4) show ?thesis by blast
  next
    case 2
    with assms(2) show ?thesis by simp
  next
    case 3
    have "?cs ! i \<in> set ?cs" if "i \<in> set sched" for i using assms(3) that by auto
    with assms(4) show ?thesis by (intro chunks_in_inv [where J = J, OF 3 assms(2)]) blast
  qed
qed

lemma distinct_block:
  assumes "distinct (map f xs)" "b \<in> set (blocks n xs)"
  shows "distinct (map f b)"
proof -
  have "distinct (map f (concat (blocks n xs)))" using assms(1) by (simp add: concat_blocks_of)
  with assms(2) show ?thesis by (auto simp: map_concat distinct_concat_iff)
qed

lemma store_blocks_typed:
  fixes p keys objects
  defines "items \<equiv> zip (map (to_ck p) keys) objects"
  assumes "storage_env (l2_engine p) view" "0 < rl_target_segment_bytes (e_resolved (l2_engine p))"
    and "distinct (map (\<lambda>k. e_to_string (l2_engine p) (to_ck p k)) keys)" "length objects = length keys" "sched_ok sched items"
    and "parallel_chunks (l2_batch_executor p) sched (\<lambda>chunk. batched_put (l2_engine p) chunk False) items w = (r, w')"
    and "\<forall>a \<in> set objects. mo_bytes (heap w a) \<noteq> []" "db_typed (l2_engine p) (view (srv w))"
  shows "db_typed (l2_engine p) (view (srv w'))"
proof -
  let ?E = "l2_engine p"
  have nm: "map (\<lambda>it. e_to_string ?E (fst it)) items = map (\<lambda>k. e_to_string ?E (to_ck p k)) keys"
    using assms(5) by (intro nth_equalityI) (auto simp: items_def)
  have dn: "distinct (map (\<lambda>it. e_to_string ?E (fst it)) items)" using assms(4) by (simp only: nm)
  have ne: "mo_bytes (heap w (snd it)) \<noteq> []" if "it \<in> set items" for it
    using assms(8) that by (cases it) (auto simp: items_def dest: set_zip_rightD)
  have sub: "distinct (map (\<lambda>it. e_to_string ?E (fst it)) xs) \<and> set xs \<subseteq> set items"
    if "xs \<in> insert items (set (blocks CHUNK_SIZE items))" for xs
    using that dn concat_blocks_of [of CHUNK_SIZE items] distinct_block [of "\<lambda>it. e_to_string ?E (fst it)" items xs CHUNK_SIZE]
    by (metis UN_upper insertE order_refl set_concat)
  have "heap w' = heap w \<and> db_typed ?E (view (srv w'))"
  proof (rule parallel_inv [OF assms(7), where J = "\<lambda>u. heap u = heap w \<and> db_typed ?E (view (srv u))"])
    show "set sched \<subseteq> {..<length (blocks CHUNK_SIZE items)}" using assms(6) by (simp add: sched_ok_def)
    fix xs u q u'
    assume xs: "xs \<in> insert items (set (blocks CHUNK_SIZE items))" and u: "heap u = heap w \<and> db_typed ?E (view (srv u))"
      and b: "batched_put ?E xs False u = (q, u')"
    have "\<forall>it \<in> set xs. mo_bytes (heap u (snd it)) \<noteq> []" using sub [OF xs] ne u by auto
    from storage_env.batched_put_typed [OF assms(2) b assms(3) this] storage_env.batched_put_outcome [OF assms(2) b _ assms(3)] sub [OF xs] u
    show "heap u' = heap w \<and> db_typed ?E (view (srv u'))" by simp
  qed (use assms(9) in simp)
  then show ?thesis by blast
qed

lemma same_view:
  assumes "storage_env E view" "parallel_chunks ex sched (batched_get_preallocated E) items w = (r, w')"
    and "distinct (map snd items)" "set sched \<subseteq> {..<length (blocks CHUNK_SIZE items)}"
  shows "view (srv w') = view (srv w)"
proof -
  obtain n :: nat where "n \<notin> snd ` set items" using ex_new_if_finite [OF infinite_UNIV_nat] by (metis finite_imageI finite_set)
  from storage_env.parallel_get(2) [OF assms(1,2) TrueI assms(3,4) this] show ?thesis by (simp add: same_buffer_def)
qed

section \<open>Store, then load\<close>

text \<open>A schedule that runs every block once.\<close>

definition sched_all :: "nat list \<Rightarrow> 'a list \<Rightarrow> bool" where
  "sched_all sched items \<longleftrightarrow> distinct sched \<and> set sched = {..<length (blocks CHUNK_SIZE items)}"

lemma store_success:
  assumes "storage_env (l2_engine p) view" "0 < rl_target_segment_bytes (e_resolved (l2_engine p))"
    and "distinct (map (\<lambda>k. e_to_string (l2_engine p) (to_ck p k)) keys)" "length objects = length keys"
    and "sched_ok sched (zip (map (to_ck p) keys) objects)"
    and "db_typed (l2_engine p) (view (srv w))" "\<forall>a \<in> set objects. mo_bytes (heap w a) \<noteq> []"
    and "store_sync sched keys objects tid p w = (p1, w1)" "dict_get (l2_done_store p1) tid = Some (True, tot)"
  shows "db_typed (l2_engine p) (view (srv w1))"
    and "i < length keys \<Longrightarrow> intact (l2_engine p) (view (srv w1)) (to_ck p (keys ! i)) (mo_bytes (heap w (objects ! i)))"
proof -
  obtain r where r: "parallel_chunks (l2_batch_executor p) sched (\<lambda>chunk. batched_put (l2_engine p) chunk False)
       (zip (map (to_ck p) keys) objects) w = (r, w1)"
    and d: "dict_get (l2_done_store p1) tid = Some (case r of Inl e \<Rightarrow> (False, 0) | Inr results \<Rightarrow>
       (let (ok, _, _, tot) = store_loop (heap w1) (zip keys (zip objects results)) (True, [], [], 0) in (ok, tot)))"
    using assms(8) by (rule store_syncE) blast
  note o = store_blocks [OF assms(1-5) r]
  show "db_typed (l2_engine p) (view (srv w1))" by (rule store_blocks_typed [OF assms(1-5) r assms(7,6)])
  obtain results where res: "r = Inr results" "list_all id results"
  proof (cases r)
    case (Inr results)
    with d assms(9) store_loop_all [OF assms(4) o(3) [OF Inr], of "heap w1"] that show thesis
      by (auto split: if_splits prod.splits)
  qed (use d assms(9) in simp)
  assume "i < length keys"
  with o(4) [OF res(1)] res(2) o(3) [OF res(1)]
  show "intact (l2_engine p) (view (srv w1)) (to_ck p (keys ! i)) (mo_bytes (heap w (objects ! i)))"
    by (simp add: list_all_length)
qed

text \<open>On a healthy server a load task of loadable items sets every bit.\<close>

lemma load_all:
  assumes "healthy_env (l2_engine q) view live fits" "live (srv w)" "\<not> ex_shutdown (l2_batch_executor q)"
    and "distinct buffers" "length buffers = length keys"
    and "\<forall>i < length keys. loadable (l2_engine q) (view (srv w)) (heap w) (to_ck q (keys ! i), buffers ! i)"
    and "sched_all sched (zip (map (to_ck q) keys) buffers)" "load_sync sched keys buffers tid q w = (q1, w')"
  shows "dict_get (l2_done_load q1) tid = Some (replicate (length keys) True)"
    and "i < length keys \<Longrightarrow> holds (l2_engine q) (view (srv w)) (to_ck q (keys ! i), buffers ! i) (heap w')"
proof -
  let ?E = "l2_engine q" let ?items = "zip (map (to_ck q) keys) buffers"
  have senv: "storage_env ?E view" using assms(1) by (simp add: healthy_env_def)
  have ready: "\<forall>x \<in> set ?items. loadable ?E (view (srv w)) (heap w) x"
    using assms(5,6) by (auto simp: set_zip)
  have db: "distinct (map snd ?items)" using assms(4,5) by simp
  have so: "distinct sched" "set sched = {..<length (blocks CHUNK_SIZE ?items)}" using assms(7) by (auto simp: sched_all_def)
  from healthy_env.parallel_get_all [OF assms(1,2) TrueI db ready assms(3) so] obtain u where
    g: "parallel_chunks (l2_batch_executor q) sched (batched_get_preallocated ?E) ?items w = (Inr (replicate (length ?items) True), u)"
    by blast
  have l: "length ?items = length keys" using assms(5) by simp
  show "dict_get (l2_done_load q1) tid = Some (replicate (length keys) True)"
    using assms(8) g l by (auto simp: load_sync_def)
  have u: "w' = u" using assms(8) g by (auto simp: load_sync_def)
  have sub: "set sched \<subseteq> {..<length (blocks CHUNK_SIZE ?items)}" using so(2) by simp
  assume i: "i < length keys"
  from storage_env.parallel_get(1) [OF senv g TrueI db so(1) sub] i l u
  have "holds ?E (view (srv w')) (?items ! i) (heap w')" by simp
  with same_view [OF senv g db sub] u i assms(5)
  show "holds ?E (view (srv w)) (to_ck q (keys ! i), buffers ! i) (heap w')" by simp
qed

text \<open>
  C11: what a successful store task has stored comes back. If a store task of non-empty objects with
  different names ended with a success on a typed database, then on a healthy server a load task for
  the same keys, by this plugin or another one with the same engine, into different buffers that are
  large enough, under every order of the blocks of both tasks, ends with all bits set, and every
  buffer starts with the bytes of the stored object.
\<close>

theorem l2_store_load_roundtrip:
  assumes "healthy_env (l2_engine p) view live fits" and "0 < rl_target_segment_bytes (e_resolved (l2_engine p))"
    and "distinct (map (\<lambda>k. e_to_string (l2_engine p) (to_ck p k)) keys)" and "length objects = length keys"
    and "sched_ok sched (zip (map (to_ck p) keys) objects)"
    and "db_typed (l2_engine p) (view (srv w))" and "\<forall>a \<in> set objects. mo_bytes (heap w a) \<noteq> []"
    and "store_sync sched keys objects tid p w = (p1, w1)" and "dict_get (l2_done_store p1) tid = Some (True, tot)"
    and "live (srv w1)" and "l2_engine q = l2_engine p" and "l2_dtype q = l2_dtype p" and "\<not> ex_shutdown (l2_batch_executor q)"
    and "distinct buffers" and "length buffers = length keys"
    and "\<forall>i < length keys. length (mo_bytes (heap w (objects ! i))) \<le> length (mo_bytes (heap w1 (buffers ! i)))"
    and "sched_all sched' (zip (map (to_ck q) keys) buffers)"
    and "load_sync sched' keys buffers tid' q w1 = (q1, w2)"
  shows "dict_get (l2_done_load q1) tid' = Some (replicate (length keys) True) \<and>
    (\<forall>i < length keys. take (length (mo_bytes (heap w (objects ! i)))) (mo_bytes (heap w2 (buffers ! i))) =
       mo_bytes (heap w (objects ! i)))"
proof -
  have senv: "storage_env (l2_engine p) view" using assms(1) by (simp add: healthy_env_def)
  have ck: "to_ck q = to_ck p" using assms(12) by (simp add: to_ck_def fun_eq_iff)
  note st = store_success [OF senv assms(2-9)]
  have "loadable (l2_engine q) (view (srv w1)) (heap w1) (to_ck q (keys ! i), buffers ! i)" if i: "i < length keys" for i
    using intact_loadable [OF st(1) st(2) [OF i]] assms(11,16) i ck by simp
  then have ld: "\<forall>i < length keys. loadable (l2_engine q) (view (srv w1)) (heap w1) (to_ck q (keys ! i), buffers ! i)" by blast
  have h: "healthy_env (l2_engine q) view live fits" using assms(1,11) by simp
  note l = load_all [OF h assms(10,13-15) ld assms(17,18)]
  have "take (length (mo_bytes (heap w (objects ! i)))) (mo_bytes (heap w2 (buffers ! i))) = mo_bytes (heap w (objects ! i))"
    if i: "i < length keys" for i
    using l(2) [OF i] st(2) [OF i] assms(11) ck by (auto simp: holds_def intact_def)
  with l(1) show ?thesis by blast
qed

theorem l2_store_load_roundtrip_witness:
  "\<exists>q1 w2. load_sync [0] [okey ''k''] [1] 8 l2_sample stored_world = (q1, w2) \<and>
     dict_get (l2_done_load q1) 8 = Some [True] \<and> take 10 (mo_bytes (heap w2 1)) = sample_bytes"
proof -
  obtain p1 where s: "store_sync [] [okey ''k''] [0] 7 l2_sample sample_world = (p1, stored_world)"
    unfolding stored_world_def by (metis prod.collapse)
  have "dict_get (l2_done_store (fst (store_sync [] [okey ''k''] [0] 7 l2_sample sample_world))) 7 = Some (True, 3)" by code_simp
  with s have d: "dict_get (l2_done_store p1) 7 = Some (True, 3)" by simp
  obtain q1 w2 where l: "load_sync [0] [okey ''k''] [1] 8 l2_sample stored_world = (q1, w2)" by fastforce
  have up: "sv_up (srv stored_world)" by code_simp
  have room: "length (mo_bytes (heap sample_world 0)) \<le> length (mo_bytes (heap stored_world 1))" by code_simp
  have t: "db_typed (l2_engine l2_sample) (sv_view (srv sample_world))"
    by (simp add: db_typed_def sample_world_def empty_server_def sv_view_def)
  have b: "blocks CHUNK_SIZE [x] = [[x]]" for x :: "CacheEngineKey \<times> nat" by (simp add: CHUNK_SIZE_def numeral_eq_Suc)
  have "dict_get (l2_done_load q1) 8 = Some (replicate (length [okey ''k'']) True) \<and>
    (\<forall>i < length [okey ''k'']. take (length (mo_bytes (heap sample_world ([0] ! i)))) (mo_bytes (heap w2 ([1] ! i))) =
       mo_bytes (heap sample_world ([0] ! i)))"
    by (rule l2_store_load_roundtrip [OF l2_sample_env(1) l2_sample_target _ _ _ t _ s d up refl refl _ _ _ _ _ l])
       (use room in \<open>auto simp: sched_ok_def sched_all_def b l2_sample_def sample_world_def sample_heap_def sample_bytes_def\<close>)
  moreover have "mo_bytes (heap sample_world 0) = sample_bytes" "length sample_bytes = 10"
    by (simp_all add: sample_world_def sample_heap_def sample_bytes_def)
  ultimately show ?thesis using l by simp
qed

end
