(* ===== verification/Native_Connector.thy ===== *)
theory Native_Connector
  imports Config
begin

text \<open>
  \<open>native_connector.py\<close>, the guards of \<open>l2_plugin.py\<close> and the lazy exports of \<open>__init__.py\<close>. The C++
  extension is the parameter \<open>native\<close>: its constructor, applied to the checked arguments.
\<close>

section \<open>The native connector's factory\<close>

text \<open>\<open>isinstance(value, int)\<close> holds for integers and booleans.\<close>

fun as_int :: "pyval \<Rightarrow> int option" where
  "as_int (PInt i) = Some i"
| "as_int (PBool b) = Some (if b then 1 else 0)"
| "as_int _ = None"

definition positive_int :: "pyval \<Rightarrow> exn + int" where
  "positive_int v =
     (case as_int v of
        None \<Rightarrow> Inl (Builtin ValueError)
      | Some i \<Rightarrow> if i \<le> 0 then Inl (Builtin ValueError) else Inr i)"

definition non_negative_int :: "pyval \<Rightarrow> exn + int" where
  "non_negative_int v =
     (case as_int v of
        None \<Rightarrow> Inl (Builtin ValueError)
      | Some i \<Rightarrow> if i < 0 then Inl (Builtin ValueError) else Inr i)"

record native_params =
  np_hosts :: "string option"
  np_namespace :: "string option"
  np_set_name :: "string option"
  np_num_workers :: pyval
  np_read_timeout_ms :: pyval
  np_write_timeout_ms :: pyval
  np_default_ttl_seconds :: pyval
  np_dtype :: string
  np_target_segment_bytes :: pyval
  np_max_record_bytes :: pyval
  np_username :: string
  np_password :: string
  np_tls_name :: string
  np_extra :: "string list"

record native_args =
  na_hosts :: string
  na_namespace :: string
  na_set_name :: string
  na_num_workers :: int
  na_read_timeout_ms :: int
  na_write_timeout_ms :: int
  na_default_ttl_seconds :: int
  na_dtype :: string
  na_target_segment_bytes :: int
  na_max_record_bytes :: int
  na_username :: string
  na_password :: string

text \<open>\<open>value or os.environ.get(name, "")\<close>.\<close>

definition or_env :: "(string, string) dict \<Rightarrow> string option \<Rightarrow> string \<Rightarrow> string" where
  "or_env env v name =
     (case v of
        Some (c # cs) \<Rightarrow> c # cs
      | _ \<Rightarrow> (case dict_get env name of Some s \<Rightarrow> s | None \<Rightarrow> []))"

text \<open>The checks of \<open>__new__\<close>, in their order, up to the arguments of the constructor call.\<close>

definition native_check :: "bool \<Rightarrow> (string, string) dict \<Rightarrow> native_params \<Rightarrow> exn + native_args" where
  "native_check available env prm =
     (if np_extra prm \<noteq> [] then Inl (Builtin TypeError)
      else if \<not> available then Inl (Builtin RuntimeError)
      else if np_tls_name prm \<noteq> [] then Inl (Builtin RuntimeError)
      else
        (let hosts = or_env env (np_hosts prm) ''LMCACHE_AEROSPIKE_HOSTS'';
             ns = or_env env (np_namespace prm) ''LMCACHE_AEROSPIKE_NAMESPACE'';
             st = or_env env (np_set_name prm) ''LMCACHE_AEROSPIKE_SET'';
             username = or_env env (Some (np_username prm)) ''LMCACHE_AEROSPIKE_USERNAME'';
             password = or_env env (Some (np_password prm)) ''LMCACHE_AEROSPIKE_PASSWORD''
         in if hosts = [] then Inl (Builtin ValueError)
            else if ns = [] then Inl (Builtin ValueError)
            else if st = [] then Inl (Builtin ValueError)
            else if np_dtype prm = [] then Inl (Builtin ValueError)
            else
              bindE (positive_int (np_num_workers prm)) (\<lambda>workers.
              bindE (positive_int (np_read_timeout_ms prm)) (\<lambda>rt.
              bindE (positive_int (np_write_timeout_ms prm)) (\<lambda>wt.
              bindE (non_negative_int (np_default_ttl_seconds prm)) (\<lambda>ttl.
              bindE (non_negative_int (np_target_segment_bytes prm)) (\<lambda>target.
              bindE (non_negative_int (np_max_record_bytes prm)) (\<lambda>mx.
              Inr \<lparr>na_hosts = hosts, na_namespace = ns, na_set_name = st, na_num_workers = workers,
                na_read_timeout_ms = rt, na_write_timeout_ms = wt, na_default_ttl_seconds = ttl,
                na_dtype = np_dtype prm, na_target_segment_bytes = target, na_max_record_bytes = mx,
                na_username = username, na_password = password\<rparr>))))))))"

definition native_new ::
  "bool \<Rightarrow> (native_args \<Rightarrow> exn + 'c) \<Rightarrow> (string, string) dict \<Rightarrow> native_params \<Rightarrow> exn + 'c" where
  "native_new available native env prm = bindE (native_check available env prm) native"

section \<open>Availability and exports\<close>

definition require_l2_mp :: "bool \<Rightarrow> exn + unit" where
  "require_l2_mp available = (if \<not> available then Inl (Builtin ImportError) else Inr ())"

text \<open>The guarded imports: \<open>L2_MP_AVAILABLE\<close> is turned off by an \<open>ImportError\<close> only, \<open>NATIVE_AVAILABLE\<close> by
  any exception, which is kept.\<close>

definition l2_mp_available :: "exn + unit \<Rightarrow> exn + bool" where
  "l2_mp_available import_result =
     (case import_result of
        Inr _ \<Rightarrow> Inr True
      | Inl e \<Rightarrow> if e = Builtin ImportError then Inr False else Inl e)"

definition native_available :: "exn + unit \<Rightarrow> bool \<times> exn option" where
  "native_available import_result =
     (case import_result of Inr _ \<Rightarrow> (True, None) | Inl e \<Rightarrow> (False, Some e))"

text \<open>Without the L2 interfaces both classes are placeholders whose constructor raises.\<close>

definition placeholder_init :: "exn + unit" where
  "placeholder_init = require_l2_mp False"

text \<open>The names the package offers: the first two are imported at once.\<close>

definition PACKAGE_ALL :: "string list" where
  "PACKAGE_ALL = [''AerospikeConnectorAdapter'', ''AerospikeRemoteConnector'', ''AerospikeStoragePlugin'', ''AerospikeL2Plugin'',
     ''AerospikeL2PluginConfig'', ''AerospikeNativeConnector'']"

datatype export =
    AerospikeConnectorAdapter | AerospikeRemoteConnector | AerospikeStoragePlugin | AerospikeL2Plugin | AerospikeL2PluginConfig | AerospikeNativeConnector

text \<open>\<open>__getattr__\<close> of the package: the lazily imported classes.\<close>

definition package_getattr :: "bool \<Rightarrow> string \<Rightarrow> exn + export" where
  "package_getattr l2_available name =
     (if name = ''AerospikeStoragePlugin'' then Inr AerospikeStoragePlugin
      else if name = ''AerospikeL2Plugin'' then bindE (require_l2_mp l2_available) (\<lambda>_. Inr AerospikeL2Plugin)
      else if name = ''AerospikeL2PluginConfig'' then bindE (require_l2_mp l2_available) (\<lambda>_. Inr AerospikeL2PluginConfig)
      else if name = ''AerospikeNativeConnector'' then Inr AerospikeNativeConnector
      else Inl (Builtin AttributeError))"

text \<open>\<open>getattr\<close> on the package: its own names first.\<close>

definition package_attr :: "bool \<Rightarrow> string \<Rightarrow> exn + export" where
  "package_attr l2_available name =
     (if name = ''AerospikeConnectorAdapter'' then Inr AerospikeConnectorAdapter
      else if name = ''AerospikeRemoteConnector'' then Inr AerospikeRemoteConnector
      else package_getattr l2_available name)"

section \<open>Properties\<close>

text \<open>Every name in \<open>__all__\<close> resolves to a class of its own; without LMCache's L2 interfaces only the
  two L2 names raise, and they raise \<open>ImportError\<close>.\<close>

lemma all_exports_resolve:
  "list_all (\<lambda>n. \<not> isl (package_attr True n)) PACKAGE_ALL \<and> distinct (map (package_attr True) PACKAGE_ALL) \<and>
   map (\<lambda>n. package_attr False n = Inl (Builtin ImportError)) PACKAGE_ALL = [False, False, False, True, True, False]"
  by code_simp

definition native_args_ok :: "native_args \<Rightarrow> bool" where
  "native_args_ok a \<longleftrightarrow>
     na_hosts a \<noteq> [] \<and> na_namespace a \<noteq> [] \<and> na_set_name a \<noteq> [] \<and> na_dtype a \<noteq> [] \<and>
     0 < na_num_workers a \<and> 0 < na_read_timeout_ms a \<and> 0 < na_write_timeout_ms a \<and>
     0 \<le> na_default_ttl_seconds a \<and> 0 \<le> na_target_segment_bytes a \<and> 0 \<le> na_max_record_bytes a"

lemma int_checks:
  "positive_int v = Inr i \<Longrightarrow> 0 < i" "non_negative_int v = Inr i \<Longrightarrow> 0 \<le> i"
  "positive_int v = Inl e \<Longrightarrow> e = Builtin ValueError" "non_negative_int v = Inl e \<Longrightarrow> e = Builtin ValueError"
  by (auto simp: positive_int_def non_negative_int_def split: option.splits if_splits)

lemma native_check_Inr: "native_check available env prm = Inr a \<Longrightarrow> native_args_ok a"
  unfolding native_check_def Let_def
  by (elim raises_InrE) (auto simp: native_args_ok_def dest: int_checks(1,2))

lemma native_check_Inl:
  "native_check available env prm = Inl e \<Longrightarrow> e \<in> {Builtin TypeError, Builtin RuntimeError, Builtin ValueError}"
  unfolding native_check_def Let_def by (elim raises_InlE) (auto dest!: int_checks(3,4))

text \<open>
  The C++ connector is only ever constructed from checked arguments, and the factory fails
  with documented errors: either the extension's constructor is called, on non-empty names, positive
  worker and timeout counts and non-negative sizes, or \<open>TypeError\<close>, \<open>RuntimeError\<close> or \<open>ValueError\<close>
  is raised without calling it.
\<close>

theorem native_new_checks:
  "(\<exists>a. native_args_ok a \<and> native_new available native env prm = native a) \<or>
   (\<exists>e \<in> {TypeError, RuntimeError, ValueError}. native_new available native env prm = Inl (Builtin e))"
proof (cases "native_check available env prm")
  case (Inl e)
  with native_check_Inl [OF Inl] show ?thesis by (auto simp: native_new_def)
next
  case (Inr a)
  with native_check_Inr [OF Inr] show ?thesis by (auto simp: native_new_def)
qed

end
