(* ===== verification/Build_Setup.thy ===== *)
theory Build_Setup
  imports Errors "HOL-Library.List_Lexorder" "HOL-Library.Char_ord"
begin

text \<open>
  \<open>setup.py\<close>: whether and how the optional native extension is built. The build environment is a
  record: environment variables, the file system as far as the script looks at it, the
  installed libraries that \<open>ctypes.util.find_library\<close> finds, and pybind11 with its include
  directory. Paths are values of \<open>pathlib.PurePosixPath\<close>: root and components.
\<close>

section \<open>Paths\<close>

datatype path = Path (p_root: string) (p_parts: "string list")

text \<open>\<open>Path(s)\<close> drops empty components and single dots; two leading slashes are a root of their own.\<close>

definition parse_path :: "string \<Rightarrow> path" where
  "parse_path s =
     Path (if starts_with ''//'' s \<and> \<not> starts_with ''///'' s then ''//''
           else if starts_with ''/'' s then ''/'' else [])
          (filter (\<lambda>c. c \<noteq> [] \<and> c \<noteq> ''.'') (split_on (CHR ''/'') s))"

definition path_str :: "path \<Rightarrow> string" where
  "path_str p = (if p_root p = [] \<and> p_parts p = [] then ''.'' else p_root p @ join_with (CHR ''/'') (p_parts p))"

text \<open>\<open>p / a / b\<close> for plain names \<open>a\<close>, \<open>b\<close>.\<close>

definition under :: "path \<Rightarrow> string list \<Rightarrow> path" where
  "under p names = Path (p_root p) (p_parts p @ names)"

section \<open>The build environment\<close>

record build_env =
  be_root :: path
  be_environ :: "(string, string) dict"
  be_exists :: "path \<Rightarrow> bool"
  be_is_dir :: "path \<Rightarrow> bool"
  be_entries :: "path \<Rightarrow> string list"
  be_find_library :: "string \<Rightarrow> bool"
  be_pybind11 :: "string option"

definition DEPS_CLIENT :: "build_env \<Rightarrow> path" where
  "DEPS_CLIENT B = under (be_root B) [''.deps'', ''aerospike-client-c'']"

definition DEPS_INSTALL :: "build_env \<Rightarrow> path" where
  "DEPS_INSTALL B = under (be_root B) [''.deps'', ''aerospike-install'']"

definition DEPS_YAML_LIB :: "build_env \<Rightarrow> path" where
  "DEPS_YAML_LIB B = under (be_root B) [''.deps'', ''libyaml-install'', ''usr'', ''lib'', ''x86_64-linux-gnu'']"

text \<open>\<open>os.environ.get(name)\<close> when it is not empty, as a path.\<close>

definition env_path :: "build_env \<Rightarrow> string \<Rightarrow> path option" where
  "env_path B name =
     (case dict_get (be_environ B) name of Some (c # cs) \<Rightarrow> Some (parse_path (c # cs)) | _ \<Rightarrow> None)"

definition env_is :: "build_env \<Rightarrow> string \<Rightarrow> string \<Rightarrow> bool" where
  "env_is B name v \<longleftrightarrow> dict_get (be_environ B) name = Some v"

section \<open>Discovery\<close>

text \<open>\<open>sorted(DEPS_CLIENT.glob("target/Linux*"))\<close>.\<close>

definition local_aerospike_target_dirs :: "build_env \<Rightarrow> path list" where
  "local_aerospike_target_dirs B =
     (if \<not> be_is_dir B (DEPS_CLIENT B) then []
      else map (\<lambda>n. under (DEPS_CLIENT B) [''target'', n])
             (sort (filter (starts_with ''Linux'') (be_entries B (under (DEPS_CLIENT B) [''target''])))))"

definition lmcache_include_dirs :: "build_env \<Rightarrow> string list" where
  "lmcache_include_dirs B =
     (let candidates =
        (case env_path B ''LMCACHE_SRC'' of Some p \<Rightarrow> [under p [''csrc'', ''storage_backends'']] | None \<Rightarrow> []) @
        [under (be_root B) [''LMCache'', ''csrc'', ''storage_backends'']]
      in map path_str (filter (\<lambda>p. be_exists B (under p [''connector_base.h''])) candidates))"

definition aerospike_header_path :: "path \<Rightarrow> path" where
  "aerospike_header_path base = under base [''aerospike'', ''aerospike.h'']"

definition has_header :: "build_env \<Rightarrow> path \<Rightarrow> bool" where
  "has_header B base \<longleftrightarrow> be_exists B (aerospike_header_path base)"

definition aerospike_include_dir :: "build_env \<Rightarrow> path option" where
  "aerospike_include_dir B =
     (case filter (has_header B) (case env_path B ''AEROSPIKE_INCLUDE_DIR'' of Some c \<Rightarrow> [c] | None \<Rightarrow> []) of
        c # _ \<Rightarrow> Some c
      | [] \<Rightarrow>
          (case List.find (has_header B)
             [under (DEPS_INSTALL B) [''usr'', ''include''], parse_path ''/usr/include'', parse_path ''/usr/local/include''] of
             Some base \<Rightarrow> Some base
           | None \<Rightarrow> List.find (has_header B) (map (\<lambda>t. under t [''include'']) (local_aerospike_target_dirs B))))"

definition has_lib :: "build_env \<Rightarrow> path \<Rightarrow> bool" where
  "has_lib B d \<longleftrightarrow> be_exists B (under d [''libaerospike.so'']) \<or> be_exists B (under d [''libaerospike.a''])"

definition aerospike_library_dir :: "build_env \<Rightarrow> path option" where
  "aerospike_library_dir B =
     (case filter (has_lib B) (case env_path B ''AEROSPIKE_LIBRARY_DIR'' of Some c \<Rightarrow> [c] | None \<Rightarrow> []) of
        c # _ \<Rightarrow> Some c
      | [] \<Rightarrow>
          (case List.find (has_lib B) (map (\<lambda>t. under t [''lib'']) (local_aerospike_target_dirs B)) of
             Some d \<Rightarrow> Some d
           | None \<Rightarrow>
               (let deps_lib = under (DEPS_INSTALL B) [''usr'', ''lib''] in
                if has_lib B deps_lib then Some deps_lib
                else if be_find_library B ''aerospike'' then None
                else None)))"

definition has_aerospike_headers :: "build_env \<Rightarrow> bool" where
  "has_aerospike_headers B \<longleftrightarrow> aerospike_include_dir B \<noteq> None"

definition has_aerospike_library :: "build_env \<Rightarrow> bool" where
  "has_aerospike_library B \<longleftrightarrow> aerospike_library_dir B \<noteq> None"

section \<open>The extension\<close>

record extension =
  ext_name :: string
  ext_sources :: "string list"
  ext_include_dirs :: "string list"
  ext_library_dirs :: "string list"
  ext_libraries :: "string list"
  ext_extra_objects :: "string list"
  ext_runtime_library_dirs :: "string list"
  ext_language :: string
  ext_compile_args :: "string list"
  ext_link_args :: "string list"

text \<open>\<open>os.environ.get("AEROSPIKE_EVENT_LIB", "libuv")\<close>.\<close>

definition aerospike_extra_libs :: "build_env \<Rightarrow> string list" where
  "aerospike_extra_libs B =
     [''ssl'', ''crypto'', ''pthread'', ''z'', ''rt''] @
     (if dict_get (be_environ B) ''AEROSPIKE_EVENT_LIB'' \<in> {None, Some ''libuv''} then [''uv''] else [])"

definition use_static :: "build_env \<Rightarrow> path \<Rightarrow> bool" where
  "use_static B lib_dir =
     (let static_lib = be_exists B (under lib_dir [''libaerospike.a'']);
          shared_lib = be_exists B (under lib_dir [''libaerospike.so'']);
          prefer_static = env_is B ''AEROSPIKE_STATIC'' ''1'';
          use = prefer_static \<and> static_lib \<and> \<not> shared_lib
      in if prefer_static \<and> static_lib \<and> shared_lib then False else use)"

text \<open>The libraries and extra objects of the link.\<close>

definition link_inputs :: "build_env \<Rightarrow> path \<Rightarrow> string list \<times> string list" where
  "link_inputs B lib_dir =
     (let yaml_static = under (DEPS_YAML_LIB B) [''libyaml.a'']; yaml_shared = under (DEPS_YAML_LIB B) [''libyaml.so''] in
      if use_static B lib_dir then
        (aerospike_extra_libs B @ [''yaml''], [path_str (under lib_dir [''libaerospike.a''])])
      else if be_exists B yaml_shared \<or> be_find_library B ''yaml'' then
        ([''aerospike''] @ [''yaml''] @ aerospike_extra_libs B, [])
      else
        ([''aerospike''] @ aerospike_extra_libs B, if be_exists B yaml_static then [path_str yaml_static] else []))"

definition make_extension :: "build_env \<Rightarrow> string \<Rightarrow> path \<Rightarrow> path \<Rightarrow> extension" where
  "make_extension B pybind_include inc lib_dir =
     (let yaml = be_exists B (under (DEPS_YAML_LIB B) [''libyaml.a'']) \<or> be_exists B (under (DEPS_YAML_LIB B) [''libyaml.so'']);
          (libs, objs) = link_inputs B lib_dir
      in \<lparr>ext_name = ''lmcache_aerospike._native'',
          ext_sources = [''csrc/aerospike/pybind.cpp'', ''csrc/aerospike/connector.cpp''],
          ext_include_dirs = [path_str (under (be_root B) [''csrc'', ''aerospike'']), pybind_include, path_str inc] @
            lmcache_include_dirs B,
          ext_library_dirs = [path_str lib_dir] @ (if yaml then [path_str (DEPS_YAML_LIB B)] else []),
          ext_libraries = libs, ext_extra_objects = objs,
          ext_runtime_library_dirs =
            (if be_exists B (under lib_dir [''libaerospike.so'']) \<and> \<not> use_static B lib_dir then [path_str lib_dir] else []),
          ext_language = ''c++'', ext_compile_args = [''-O3'', ''-std=c++17''], ext_link_args = [''-Wl,--no-as-needed'']\<rparr>)"

definition native_extensions :: "build_env \<Rightarrow> exn + extension list" where
  "native_extensions B =
     (if env_is B ''LMCACHE_AEROSPIKE_NO_NATIVE'' ''1'' then Inr []
      else
        (let force = env_is B ''LMCACHE_AEROSPIKE_FORCE_NATIVE'' ''1'';
             lmcache_includes = lmcache_include_dirs B;
             has_aerospike = has_aerospike_headers B \<and> has_aerospike_library B
         in if (lmcache_includes = [] \<or> \<not> has_aerospike) \<and> \<not> force then Inr []
            else
              (case be_pybind11 B of
                 None \<Rightarrow> if \<not> force then Inr [] else Inl (Builtin ImportError)
               | Some get_include \<Rightarrow>
                   (case (aerospike_include_dir B, aerospike_library_dir B) of
                      (Some inc, Some lib_dir) \<Rightarrow> Inr [make_extension B get_include inc lib_dir]
                    | _ \<Rightarrow> if force then Inl (Builtin RuntimeError) else Inr []))))"

text \<open>The call of \<open>setup\<close>: the packages that \<open>find_packages\<close> finds under \<open>src\<close>, the package
  directory and the extension modules.\<close>

definition setup_call :: "(string \<Rightarrow> string list) \<Rightarrow> build_env \<Rightarrow> exn + string list \<times> (string, string) dict \<times> extension list" where
  "setup_call find_packages B =
     bindE (native_extensions B) (\<lambda>exts. Inr (find_packages ''src'', [([], ''src'')], exts))"

section \<open>Properties\<close>

lemma last_join_with: "n \<noteq> [] \<Longrightarrow> last (join_with c (ps @ [n])) = last n"
proof (induction c ps rule: join_with.induct)
  case (2 c p)
  then show ?case by simp
next
  case (3 c p q ps)
  moreover have "join_with c ((q # ps) @ [n]) \<noteq> []" using 3(2) by (cases ps) auto
  ultimately show ?case by simp
qed simp

lemma last_path_str_under: "n \<noteq> [] \<Longrightarrow> last (path_str (under p [n])) = last n"
proof -
  assume n: "n \<noteq> []"
  have "join_with c (ps @ [n]) \<noteq> []" for c ps using n by (induction c ps rule: join_with.induct) auto
  with n show ?thesis by (simp add: path_str_def under_def last_join_with)
qed

lemma filter_first: "filter P xs = y # ys \<Longrightarrow> P y"
  by (metis filter_eq_Cons_iff)

lemma find_sound: "List.find P xs = Some y \<Longrightarrow> P y \<and> y \<in> set xs"
  by (auto simp: find_Some_iff)

lemma include_dir_sound: "aerospike_include_dir B = Some d \<Longrightarrow> has_header B d"
  by (auto simp: aerospike_include_dir_def split: list.splits option.splits if_splits dest: filter_first find_sound)

lemma library_dir_sound: "aerospike_library_dir B = Some d \<Longrightarrow> has_lib B d"
  by (auto simp: aerospike_library_dir_def Let_def split: list.splits option.splits if_splits dest: filter_first find_sound)

lemma native_extensions_cases:
  obtains (none) "native_extensions B = Inr []"
  | (ext) g inc d where "native_extensions B = Inr [make_extension B g inc d]" "be_pybind11 B = Some g"
      "aerospike_include_dir B = Some inc" "aerospike_library_dir B = Some d"
      "lmcache_include_dirs B \<noteq> [] \<or> env_is B ''LMCACHE_AEROSPIKE_FORCE_NATIVE'' ''1''"
  | (raised) e where "native_extensions B = Inl e" "env_is B ''LMCACHE_AEROSPIKE_FORCE_NATIVE'' ''1''"
      "\<not> env_is B ''LMCACHE_AEROSPIKE_NO_NATIVE'' ''1''"
      "e = Builtin (if be_pybind11 B = None then ImportError else RuntimeError)"
      "be_pybind11 B = None \<or> \<not> has_aerospike_headers B \<or> \<not> has_aerospike_library B"
proof -
  have "native_extensions B = Inr [] \<or>
    (\<exists>g inc d. native_extensions B = Inr [make_extension B g inc d] \<and> be_pybind11 B = Some g \<and>
      aerospike_include_dir B = Some inc \<and> aerospike_library_dir B = Some d \<and>
      (lmcache_include_dirs B \<noteq> [] \<or> env_is B ''LMCACHE_AEROSPIKE_FORCE_NATIVE'' ''1'')) \<or>
    (\<exists>e. native_extensions B = Inl e \<and> env_is B ''LMCACHE_AEROSPIKE_FORCE_NATIVE'' ''1'' \<and>
      \<not> env_is B ''LMCACHE_AEROSPIKE_NO_NATIVE'' ''1'' \<and>
      e = Builtin (if be_pybind11 B = None then ImportError else RuntimeError) \<and>
      (be_pybind11 B = None \<or> \<not> has_aerospike_headers B \<or> \<not> has_aerospike_library B))"
    by (auto simp: native_extensions_def Let_def has_aerospike_headers_def has_aerospike_library_def split: option.splits)
  with that show thesis by blast
qed

text \<open>
  The native extension is optional. The script raises exactly when a native build is forced
  and not disabled, and pybind11, the headers or the library are missing: \<open>ImportError\<close> without
  pybind11, else \<open>RuntimeError\<close>. In all other cases it returns at most one extension, and none
  when the build is disabled.
\<close>

theorem native_build_optional:
  "(case native_extensions B of
      Inl e \<Rightarrow> env_is B ''LMCACHE_AEROSPIKE_FORCE_NATIVE'' ''1'' \<and> \<not> env_is B ''LMCACHE_AEROSPIKE_NO_NATIVE'' ''1'' \<and>
        (be_pybind11 B = None \<or> \<not> has_aerospike_headers B \<or> \<not> has_aerospike_library B) \<and>
        e = Builtin (if be_pybind11 B = None then ImportError else RuntimeError)
    | Inr exts \<Rightarrow> length exts \<le> (if env_is B ''LMCACHE_AEROSPIKE_NO_NATIVE'' ''1'' then 0 else 1) \<and>
        \<not> (env_is B ''LMCACHE_AEROSPIKE_FORCE_NATIVE'' ''1'' \<and> \<not> env_is B ''LMCACHE_AEROSPIKE_NO_NATIVE'' ''1'' \<and>
           (be_pybind11 B = None \<or> \<not> has_aerospike_headers B \<or> \<not> has_aerospike_library B)))"
  by (auto simp: native_extensions_def Let_def has_aerospike_headers_def has_aerospike_library_def split: option.splits)

text \<open>The archive as an object of the link, with the libraries it leaves unresolved.\<close>

definition links_archive :: "extension \<Rightarrow> path \<Rightarrow> bool" where
  "links_archive x d \<longleftrightarrow> ext_extra_objects x = [path_str (under d [''libaerospike.a''])] \<and>
     ''aerospike'' \<notin> set (ext_libraries x) \<and> ''yaml'' \<in> set (ext_libraries x) \<and> ext_runtime_library_dirs x = []"

lemma use_static_iff:
  "has_lib B d \<Longrightarrow> use_static B d \<longleftrightarrow> env_is B ''AEROSPIKE_STATIC'' ''1'' \<and> \<not> be_exists B (under d [''libaerospike.so''])"
  by (auto simp: use_static_def Let_def has_lib_def)

lemma make_extension_sel [simp]:
  "ext_include_dirs (make_extension B g inc d) =
     [path_str (under (be_root B) [''csrc'', ''aerospike'']), g, path_str inc] @ lmcache_include_dirs B"
  "path_str d \<in> set (ext_library_dirs (make_extension B g inc d))"
  "ext_libraries (make_extension B g inc d) = fst (link_inputs B d)"
  "ext_extra_objects (make_extension B g inc d) = snd (link_inputs B d)"
  "ext_runtime_library_dirs (make_extension B g inc d) =
     (if be_exists B (under d [''libaerospike.so'']) \<and> \<not> use_static B d then [path_str d] else [])"
  by (simp_all add: make_extension_def Let_def split: prod.splits)

lemma make_extension_links:
  "use_static B d \<Longrightarrow> links_archive (make_extension B g inc d) d"
  "\<not> use_static B d \<Longrightarrow> hd (ext_libraries (make_extension B g inc d)) = ''aerospike''"
  by (simp_all add: links_archive_def link_inputs_def aerospike_extra_libs_def Let_def)

text \<open>
  C40: an extension that is built can be compiled and linked as far as the script can see. Its
  include directories contain one with the Aerospike headers, its library directories one with
  the Aerospike library, and unless the build was forced one with LMCache's headers. The static
  archive is linked exactly when it is asked for and there is no shared library; otherwise
  \<open>aerospike\<close> comes first among the libraries, and the directory of a shared library is on the
  run-time path.
\<close>

theorem native_extension_links:
  assumes "native_extensions B = Inr [x]"
  shows "\<exists>inc d. has_header B inc \<and> path_str inc \<in> set (ext_include_dirs x) \<and>
    has_lib B d \<and> path_str d \<in> set (ext_library_dirs x) \<and>
    (if env_is B ''AEROSPIKE_STATIC'' ''1'' \<and> \<not> be_exists B (under d [''libaerospike.so''])
     then links_archive x d
     else hd (ext_libraries x) = ''aerospike'' \<and>
       ext_runtime_library_dirs x = (if be_exists B (under d [''libaerospike.so'']) then [path_str d] else [])) \<and>
    (env_is B ''LMCACHE_AEROSPIKE_FORCE_NATIVE'' ''1'' \<or>
     (\<exists>p. be_exists B (under p [''connector_base.h'']) \<and> path_str p \<in> set (ext_include_dirs x)))"
proof (rule native_extensions_cases [of B])
  fix g inc d
  assume n: "native_extensions B = Inr [make_extension B g inc d]"
    and i: "aerospike_include_dir B = Some inc" and l: "aerospike_library_dir B = Some d"
    and f: "lmcache_include_dirs B \<noteq> [] \<or> env_is B ''LMCACHE_AEROSPIKE_FORCE_NATIVE'' ''1''"
  have x: "x = make_extension B g inc d" using assms n by simp
  note sound = include_dir_sound [OF i] library_dir_sound [OF l]
  have "\<exists>p. be_exists B (under p [''connector_base.h'']) \<and> path_str p \<in> set (lmcache_include_dirs B)"
    if "lmcache_include_dirs B \<noteq> []"
    using that unfolding lmcache_include_dirs_def Let_def by (fastforce simp: filter_empty_conv)
  with f have "env_is B ''LMCACHE_AEROSPIKE_FORCE_NATIVE'' ''1'' \<or>
     (\<exists>p. be_exists B (under p [''connector_base.h'']) \<and> path_str p \<in> set (ext_include_dirs x))" by (auto simp: x)
  with sound use_static_iff [OF sound(2)] make_extension_links [of B d g inc] show ?thesis
    by (intro exI [of _ inc] exI [of _ d]) (simp add: x)
qed (use assms in simp_all)

text \<open>A library that only \<open>find_library\<close> sees, such as one installed in a system directory,
  makes no difference: both branches of the test return \<open>None\<close>.\<close>

lemma system_library_ignored:
  "native_extensions (B\<lparr>be_find_library := (be_find_library B)(''aerospike'' := found)\<rparr>) = native_extensions B"
proof -
  let ?B = "B\<lparr>be_find_library := (be_find_library B)(''aerospike'' := found)\<rparr>"
  have e: "env_is ?B = env_is B" "env_path ?B = env_path B" "DEPS_CLIENT ?B = DEPS_CLIENT B" "DEPS_INSTALL ?B = DEPS_INSTALL B"
    "DEPS_YAML_LIB ?B = DEPS_YAML_LIB B" "has_header ?B = has_header B" "has_lib ?B = has_lib B"
    by (simp_all add: env_is_def env_path_def DEPS_CLIENT_def DEPS_INSTALL_def DEPS_YAML_LIB_def has_header_def has_lib_def fun_eq_iff)
  have t: "local_aerospike_target_dirs ?B = local_aerospike_target_dirs B" "lmcache_include_dirs ?B = lmcache_include_dirs B"
    by (simp_all add: local_aerospike_target_dirs_def lmcache_include_dirs_def e)
  have d: "aerospike_include_dir ?B = aerospike_include_dir B" "aerospike_library_dir ?B = aerospike_library_dir B"
    unfolding aerospike_include_dir_def aerospike_library_dir_def e t by simp_all
  have l: "aerospike_extra_libs ?B = aerospike_extra_libs B" "use_static ?B = use_static B"
    by (simp_all add: aerospike_extra_libs_def use_static_def e fun_eq_iff)
  have "link_inputs ?B = link_inputs B" unfolding fun_eq_iff link_inputs_def Let_def e l by simp
  then have m: "make_extension ?B = make_extension B" unfolding fun_eq_iff make_extension_def Let_def e t l by simp
  show ?thesis
    unfolding native_extensions_def has_aerospike_headers_def has_aerospike_library_def Let_def e t d m by simp
qed

section \<open>Samples\<close>

text \<open>A checkout with LMCache beside it, and the C client built under \<open>.deps\<close>.\<close>

definition sample_build :: "bool \<Rightarrow> (string, string) dict \<Rightarrow> build_env" where
  "sample_build shared env =
     \<lparr>be_root = parse_path ''/src/plugin/'', be_environ = env,
      be_exists = (\<lambda>p. path_str p \<in>
        {''/src/plugin/LMCache/csrc/storage_backends/connector_base.h'',
         ''/src/plugin/.deps/aerospike-client-c/target/Linux-x86_64/include/aerospike/aerospike.h'',
         ''/src/plugin/.deps/aerospike-client-c/target/Linux-x86_64/lib/libaerospike.a''} \<or>
        shared \<and> path_str p = ''/src/plugin/.deps/aerospike-client-c/target/Linux-x86_64/lib/libaerospike.so''),
      be_is_dir = (\<lambda>p. path_str p = ''/src/plugin/.deps/aerospike-client-c''),
      be_entries = (\<lambda>p. if path_str p = ''/src/plugin/.deps/aerospike-client-c/target'' then [''obj'', ''Linux-x86_64''] else []),
      be_find_library = (\<lambda>n. n = ''yaml''), be_pybind11 = Some ''/py/include''\<rparr>"

definition static_extension :: extension where
  "static_extension = hd (projr (native_extensions (sample_build False [(''AEROSPIKE_STATIC'', ''1'')])))"

theorem native_extension_links_witness:
  "native_extensions (sample_build False [(''AEROSPIKE_STATIC'', ''1'')]) = Inr [static_extension] \<and>
   (\<exists>d. links_archive static_extension d)"
proof -
  let ?B = "sample_build False [(''AEROSPIKE_STATIC'', ''1'')]"
  have "\<not> isl (native_extensions ?B) \<and> length (projr (native_extensions ?B)) = 1" by code_simp
  then have n: "native_extensions ?B = Inr [static_extension]"
    unfolding static_extension_def by (cases "native_extensions ?B") (auto simp: length_Suc_conv)
  have l: "last (path_str q) \<in> {CHR ''h'', CHR ''a''}" if "be_exists ?B q" for q
    using that by (auto simp: sample_build_def)
  have "\<not> be_exists ?B (under d [''libaerospike.so''])" for d
    using l [of "under d [''libaerospike.so'']"] by (auto simp: last_path_str_under)
  moreover have "env_is ?B ''AEROSPIKE_STATIC'' ''1''" by code_simp
  ultimately show ?thesis using native_extension_links [OF n] n by auto
qed

theorem native_build_optional_witness:
  "native_extensions (sample_build True [(''LMCACHE_AEROSPIKE_FORCE_NATIVE'', ''1'')]\<lparr>be_pybind11 := None\<rparr>) =
     Inl (Builtin ImportError)"
proof -
  let ?B = "sample_build True [(''LMCACHE_AEROSPIKE_FORCE_NATIVE'', ''1'')]\<lparr>be_pybind11 := None\<rparr>"
  have "env_is ?B ''LMCACHE_AEROSPIKE_FORCE_NATIVE'' ''1''" "\<not> env_is ?B ''LMCACHE_AEROSPIKE_NO_NATIVE'' ''1''"
    by (simp_all add: env_is_def sample_build_def)
  with native_build_optional [of ?B] show ?thesis by (auto split: sum.splits)
qed

end
