(* ===== verification/Preflight.thy ===== *)
theory Preflight
  imports Config Build_Setup
begin

text \<open>
  The scripts that check an installation, \<open>scripts/preflight.py\<close> and
  \<open>scripts/preflight_l2_bench.py\<close> with \<open>benchmarks/l2/bootstrap.py\<close>, and the one that clears the
  benchmark sets, \<open>scripts/truncate_aerospike_bench_sets.py\<close>. What the scripts observe of the
  installed packages is a record; what they print is the output list.
\<close>

section \<open>Straight-line scripts\<close>

text \<open>The statements of a script: an assertion, a printed line, a call that may raise.\<close>

datatype stmt = Assert bool | Print string | Call "exn + unit"

fun run_script :: "stmt list \<Rightarrow> (exn + unit) \<times> string list" where
  "run_script [] = (Inr (), [])"
| "run_script (Assert b # ss) = (if b then run_script ss else (Inl (Builtin AssertionError), []))"
| "run_script (Print s # ss) = (let (r, out) = run_script ss in (r, s # out))"
| "run_script (Call (Inl e) # ss) = (Inl e, [])"
| "run_script (Call (Inr u) # ss) = run_script ss"

section \<open>preflight.py\<close>

record surface =
  sf_connector_abstract :: "string list"
  sf_async_contains :: pyval
  sf_get_non_blocking :: pyval
  sf_batched_contains :: pyval
  sf_adapter_abstract :: "string list"
  sf_plugin_type :: "string \<Rightarrow> string"
  sf_client_attrs :: "string list"
  sf_batch_attrs :: "string list"
  sf_operation_attrs :: "string list"
  sf_constant :: "string \<Rightarrow> string option"
  sf_init_metadata :: "int \<Rightarrow> exn + unit"
  sf_metadata_bytes :: string

definition NEEDED_METHODS :: "string list" where
  "NEEDED_METHODS = [''exists'', ''exists_sync'', ''get'', ''put'', ''list'', ''close'']"

definition CLIENT_METHODS :: "string list" where
  "CLIENT_METHODS =
     [''put'', ''get'', ''select'', ''exists'', ''remove'', ''batch_read'', ''batch_write'', ''is_connected'',
      ''get_node_names'', ''info_random_node'', ''scan'']"

definition preflight_checks :: "surface \<Rightarrow> stmt list" where
  "preflight_checks S =
     [Assert (list_all (\<lambda>m. m \<in> set (sf_connector_abstract S)) NEEDED_METHODS),
      Assert (sf_async_contains S = PBool True),
      Assert (sf_get_non_blocking S = PBool True),
      Assert (sf_batched_contains S = PBool False),
      Assert (''create_connector'' \<in> set (sf_adapter_abstract S)),
      Assert (sf_plugin_type S ''aerospike.primary'' = ''aerospike'')] @
     map (\<lambda>name. Assert (name \<in> set (sf_client_attrs S))) CLIENT_METHODS @
     map (\<lambda>gone. Print (''legacy '' @ gone @ '' present: '' @ (if gone \<in> set (sf_client_attrs S) then ''True'' else ''False'')))
       [''exists_many'', ''get_many'', ''select_many''] @
     [Assert (list_all (\<lambda>n. n \<in> set (sf_batch_attrs S)) [''BatchRecords'', ''Write'', ''Read'', ''Remove'']),
      Assert (''write'' \<in> set (sf_operation_attrs S) \<and> ''read'' \<in> set (sf_operation_attrs S))] @
     map (\<lambda>c. Print (c @ '' = '' @ (case sf_constant S c of Some v \<Rightarrow> v | None \<Rightarrow> ''MISSING'')))
       [''TTL_NEVER_EXPIRE'', ''TTL_NAMESPACE_DEFAULT'', ''TTL_DONT_UPDATE''] @
     [Call (sf_init_metadata S 1),
      Print (''remote_metadata_bytes = '' @ sf_metadata_bytes S)]"

definition preflight :: "surface \<Rightarrow> (exn + unit) \<times> string list" where
  "preflight S = run_script (preflight_checks S @ [Print ''OK: preflight passed''])"

section \<open>bootstrap.py\<close>

record bootstrap_env =
  bo_native_ops :: "(bool \<times> bool) option"
  bo_environ :: "(string, string) dict"
  bo_repo_root :: path
  bo_resolve :: "path \<Rightarrow> path"
  bo_is_file :: "path \<Rightarrow> bool"
  bo_spec :: "path \<Rightarrow> bool"
  bo_install :: "path \<Rightarrow> exn + unit"
  bo_init_metadata :: "int \<Rightarrow> exn + unit"

text \<open>\<open>Path(env).expanduser().resolve()\<close> is \<open>bo_resolve\<close>.\<close>

definition lmcache_src :: "bootstrap_env \<Rightarrow> path" where
  "lmcache_src V =
     (case dict_get (bo_environ V) ''LMCACHE_SRC'' of
        Some (c # cs) \<Rightarrow> bo_resolve V (parse_path (c # cs))
      | _ \<Rightarrow> under (Path (p_root (bo_repo_root V)) (butlast (p_parts (bo_repo_root V)))) [''LMCache''])"

text \<open>\<open>bo_native_ops\<close>: whether the module has \<open>Bitmap\<close> and \<open>TTLLock\<close>, or no module.\<close>

definition install_native_storage_ops_fallback :: "bootstrap_env \<Rightarrow> exn + unit" where
  "install_native_storage_ops_fallback V =
     (if bo_native_ops V = Some (True, True) then Inr ()
      else
        (let utils = under (lmcache_src V) [''tests'', ''v1'', ''storage_backend'', ''raw_block_test_utils.py''] in
         if \<not> bo_is_file V utils then Inl (Builtin RuntimeError)
         else if \<not> bo_spec V utils then Inl (Builtin RuntimeError)
         else bo_install V utils))"

definition bootstrap :: "bootstrap_env \<Rightarrow> exn + unit" where
  "bootstrap V = bindE (install_native_storage_ops_fallback V) (\<lambda>_. bo_init_metadata V 1)"

section \<open>preflight_l2_bench.py\<close>

text \<open>\<open>_fail\<close> prints and exits with status 1; its reason stands for the message. Other exceptions
  leave the script.\<close>

datatype reason =
    NoCommand | NoStoreResult | NoBenchCommand | NoOpenai | HelpFailed | HelpIncomplete | NoL2Mp | NoRedis | NoNative

datatype stop = SystemExit reason | Uncaught exn

record bench_surface =
  bs_which :: "string \<Rightarrow> bool"
  bs_store_result :: "exn + unit"
  bs_import :: "string \<Rightarrow> exn + unit"
  bs_help :: "int \<times> string \<times> string"
  bs_l2_mp_available :: bool
  bs_bootstrap :: bootstrap_env

fun substring :: "string \<Rightarrow> string \<Rightarrow> bool" where
  "substring p [] \<longleftrightarrow> p = []"
| "substring p (c # cs) \<longleftrightarrow> starts_with p (c # cs) \<or> substring p cs"

definition bindS :: "stop + 'a \<Rightarrow> ('a \<Rightarrow> stop + 'b) \<Rightarrow> stop + 'b" where
  "bindS m f = (case m of Inl e \<Rightarrow> Inl e | Inr x \<Rightarrow> f x)"

text \<open>\<open>try: import ... except ImportError: _fail(...)\<close>.\<close>

definition or_fail :: "exn + unit \<Rightarrow> reason \<Rightarrow> stop + unit" where
  "or_fail r why =
     (case r of
        Inr u \<Rightarrow> Inr u
      | Inl e \<Rightarrow> Inl (if e = Builtin ImportError then SystemExit why else Uncaught e))"

definition uncaught :: "exn + unit \<Rightarrow> stop + unit" where
  "uncaught r = (case r of Inr u \<Rightarrow> Inr u | Inl e \<Rightarrow> Inl (Uncaught e))"

definition require :: "bool \<Rightarrow> reason \<Rightarrow> stop + unit" where
  "require b why = (if b then Inr () else Inl (SystemExit why))"

definition check_common :: "bench_surface \<Rightarrow> stop + unit" where
  "check_common S =
     bindS (require (bs_which S ''lmcache'') NoCommand) (\<lambda>_.
     bindS (or_fail (bs_store_result S) NoStoreResult) (\<lambda>_.
     bindS (or_fail (bs_import S ''lmcache.cli.commands.bench.l2_adapter_bench.command'') NoBenchCommand) (\<lambda>_.
     bindS (or_fail (bs_import S ''openai'') NoOpenai) (\<lambda>_.
     let (returncode, stdout, stderr) = bs_help S in
     bindS (require (returncode = 0) HelpFailed) (\<lambda>_.
     require (substring ''--l2-adapter'' (stdout @ stderr)) HelpIncomplete)))))"

definition bench_main :: "bool \<Rightarrow> bool \<Rightarrow> bench_surface \<Rightarrow> (stop + unit) \<times> string list" where
  "bench_main resp native_aerospike S =
     (let r =
        bindS (check_common S) (\<lambda>_.
        bindS (uncaught (bs_import S ''lmcache_aerospike.l2_plugin'')) (\<lambda>_.
        bindS (require (bs_l2_mp_available S) NoL2Mp) (\<lambda>_.
        bindS (if resp then or_fail (bs_import S ''lmcache.lmcache_redis'') NoRedis else Inr ()) (\<lambda>_.
        bindS (if native_aerospike then or_fail (bs_import S ''lmcache_aerospike._native'') NoNative else Inr ()) (\<lambda>_.
        uncaught (bootstrap (bs_bootstrap S)))))))
      in (r, case r of Inr _ \<Rightarrow> [''OK: preflight_l2_bench passed''] | Inl _ \<Rightarrow> []))"

section \<open>truncate_aerospike_bench_sets.py\<close>

text \<open>The calls on the connected client; \<open>connect\<close> and \<open>truncate\<close> are the client library's.\<close>

datatype client_event = Connected string int | Truncated string string | TruncateFailed string string | Closed

definition env_or :: "(string, string) dict \<Rightarrow> string \<Rightarrow> string \<Rightarrow> string" where
  "env_or env name dflt = (case dict_get env name of Some v \<Rightarrow> v | None \<Rightarrow> dflt)"

fun truncate_sets ::
  "(string \<Rightarrow> string \<Rightarrow> 's \<Rightarrow> (exn + unit) \<times> 's) \<Rightarrow> string \<Rightarrow> string list \<Rightarrow> 's \<Rightarrow> client_event list \<times> 's" where
  "truncate_sets trunc ns [] s = ([], s)"
| "truncate_sets trunc ns (st # sets) s =
     (let (r, s1) = trunc ns st s; (evs, s2) = truncate_sets trunc ns sets s1
      in ((case r of Inr _ \<Rightarrow> Truncated ns st | Inl _ \<Rightarrow> TruncateFailed ns st) # evs, s2))"

definition truncate_main ::
  "(string, string) dict \<Rightarrow> bool \<Rightarrow> (string \<Rightarrow> int \<Rightarrow> 's \<Rightarrow> (exn + unit) \<times> 's) \<Rightarrow>
   (string \<Rightarrow> string \<Rightarrow> 's \<Rightarrow> (exn + unit) \<times> 's) \<Rightarrow> 's \<Rightarrow> (exn + int) \<times> client_event list \<times> 's" where
  "truncate_main env installed connect trunc s =
     (let host = env_or env ''AEROSPIKE_TEST_HOST'' ''127.0.0.1'' in
      case int_of_str (env_or env ''AEROSPIKE_TEST_PORT'' ''3000'') of
        None \<Rightarrow> (Inl (Builtin ValueError), [], s)
      | Some port \<Rightarrow>
          (let ns = env_or env ''AEROSPIKE_TEST_NAMESPACE'' ''lmcache'';
               sets = [env_or env ''AEROSPIKE_BENCH_L2_SET'' ''kv_chunks_bench_l2'',
                       env_or env ''AEROSPIKE_NATIVE_BENCH_L2_SET'' ''kv_chunks_bench_l2_native'']
           in if \<not> installed then (Inr 0, [], s)
              else
                (let (r, s1) = connect host port s in
                 case r of
                   Inl e \<Rightarrow> (Inl e, [], s1)
                 | Inr _ \<Rightarrow>
                     (let (evs, s2) = truncate_sets trunc ns (dict_fromkeys sets) s1
                      in (Inr 0, Connected host port # evs @ [Closed], s2)))))"

section \<open>Properties\<close>

fun stmt_ok :: "stmt \<Rightarrow> bool" where
  "stmt_ok (Assert b) = b"
| "stmt_ok (Print s) = True"
| "stmt_ok (Call r) = (r = Inr ())"

fun printed :: "stmt \<Rightarrow> string list" where
  "printed (Print s) = [s]"
| "printed _ = []"

lemma run_script_append:
  "run_script (ss @ ts) =
     (case run_script ss of (Inl e, out) \<Rightarrow> (Inl e, out) | (Inr _, out) \<Rightarrow> (fst (run_script ts), out @ snd (run_script ts)))"
  by (induction ss rule: run_script.induct) (auto split: prod.splits sum.splits)

lemma run_script_passes: "fst (run_script ss) = Inr () \<longleftrightarrow> list_all stmt_ok ss"
  by (induction ss rule: run_script.induct) (auto split: prod.splits)

lemma run_script_prints: "set (snd (run_script ss)) \<subseteq> set (concat (map printed ss))"
  by (induction ss rule: run_script.induct) (auto split: prod.splits)

text \<open>A script whose last statement prints a line that no other statement prints has printed it
  exactly when it has passed.\<close>

lemma last_line:
  assumes "line \<notin> set (concat (map printed ss))"
  shows "line \<in> set (snd (run_script (ss @ [Print line]))) \<longleftrightarrow> fst (run_script (ss @ [Print line])) = Inr ()"
proof (cases "run_script ss")
  case (Pair r out)
  with assms run_script_prints [of ss] have "line \<notin> set out" by auto
  with Pair show ?thesis by (cases r) (auto simp: run_script_append)
qed

text \<open>The client methods that the package calls.\<close>

definition CLIENT_CALLS :: "string list" where
  "CLIENT_CALLS =
     [''put'', ''get'', ''select'', ''batch_read'', ''batch_write'', ''remove'', ''touch'', ''operate'', ''info_random_node'',
      ''scan'', ''is_connected'', ''get_node_names'', ''connect'', ''close'']"

text \<open>
  The preflight report is reliable. The line \<open>OK: preflight passed\<close> is printed exactly when
  the script ends normally, and then LMCache's connector class has the abstract methods the
  connector implements, and the client has every method the package calls, except the four
  that the script does not ask for: \<open>touch\<close> and \<open>operate\<close> of \<open>unpin\<close>, \<open>connect\<close> and \<open>close\<close>.
\<close>

theorem preflight_reliable:
  "(''OK: preflight passed'' \<in> set (snd (preflight S)) \<longleftrightarrow> fst (preflight S) = Inr ()) \<and>
   (fst (preflight S) = Inr () \<longrightarrow>
      set NEEDED_METHODS \<subseteq> set (sf_connector_abstract S) \<and>
      set CLIENT_CALLS - {''touch'', ''operate'', ''connect'', ''close''} \<subseteq> set (sf_client_attrs S) \<and>
      sf_init_metadata S 1 = Inr ())"
proof
  have "''OK: preflight passed'' \<notin> set (concat (map printed (preflight_checks S)))"
    by (simp add: preflight_checks_def CLIENT_METHODS_def)
  from last_line [OF this]
  show "''OK: preflight passed'' \<in> set (snd (preflight S)) \<longleftrightarrow> fst (preflight S) = Inr ()"
    by (simp only: preflight_def)
  have "list_all (\<lambda>m. m \<in> set (sf_connector_abstract S)) NEEDED_METHODS \<and>
    list_all (\<lambda>m. m \<in> set (sf_client_attrs S)) CLIENT_METHODS \<and> sf_init_metadata S 1 = Inr ()"
    if "fst (preflight S) = Inr ()"
    using that unfolding preflight_def run_script_passes preflight_checks_def by (simp add: list.pred_map comp_def)
  moreover have "set CLIENT_CALLS - {''touch'', ''operate'', ''connect'', ''close''} \<subseteq> set CLIENT_METHODS"
    by (simp add: CLIENT_CALLS_def CLIENT_METHODS_def insert_Diff_if)
  ultimately show "fst (preflight S) = Inr () \<longrightarrow>
      set NEEDED_METHODS \<subseteq> set (sf_connector_abstract S) \<and>
      set CLIENT_CALLS - {''touch'', ''operate'', ''connect'', ''close''} \<subseteq> set (sf_client_attrs S) \<and>
      sf_init_metadata S 1 = Inr ()"
    by (auto simp: list_all_iff)
qed

definition sample_surface :: surface where
  "sample_surface =
     \<lparr>sf_connector_abstract = NEEDED_METHODS, sf_async_contains = PBool True, sf_get_non_blocking = PBool True,
      sf_batched_contains = PBool False, sf_adapter_abstract = [''create_connector''],
      sf_plugin_type = (\<lambda>s. takeWhile (\<lambda>c. c \<noteq> CHR ''.'') s), sf_client_attrs = CLIENT_METHODS,
      sf_batch_attrs = [''BatchRecords'', ''Write'', ''Read'', ''Remove''], sf_operation_attrs = [''write'', ''read''],
      sf_constant = (\<lambda>_. None), sf_init_metadata = (\<lambda>_. Inr ()), sf_metadata_bytes = ''28''\<rparr>"

lemma sample_surface_passes: "fst (preflight sample_surface) = Inr ()"
  by code_simp

theorem preflight_reliable_witness:
  "''OK: preflight passed'' \<in> set (snd (preflight sample_surface)) \<and> ''scan'' \<in> set (sf_client_attrs sample_surface)"
  using preflight_reliable [of sample_surface] sample_surface_passes by (auto simp: CLIENT_CALLS_def)

text \<open>A client without the two methods that \<open>unpin\<close> calls passes the preflight.\<close>

lemma preflight_misses_unpin:
  "fst (preflight sample_surface) = Inr () \<and> ''touch'' \<notin> set (sf_client_attrs sample_surface) \<and>
   ''operate'' \<notin> set (sf_client_attrs sample_surface)"
  using sample_surface_passes by (simp add: sample_surface_def CLIENT_METHODS_def)

lemma bind_or_fail:
  "bindS m f = Inr y \<longleftrightarrow> (\<exists>x. m = Inr x \<and> f x = Inr y)"
  "or_fail r why = Inr u \<longleftrightarrow> r = Inr u" "uncaught r = Inr u \<longleftrightarrow> r = Inr u" "require b why = Inr u \<longleftrightarrow> b"
  by (auto simp: bindS_def or_fail_def uncaught_def require_def split: sum.splits)

text \<open>The benchmark preflight passes exactly when everything it asks for is there.\<close>

theorem bench_main_passes_iff:
  "snd (bench_main resp native_aerospike S) = [''OK: preflight_l2_bench passed''] \<longleftrightarrow>
     bs_which S ''lmcache'' \<and> bs_store_result S = Inr () \<and>
     bs_import S ''lmcache.cli.commands.bench.l2_adapter_bench.command'' = Inr () \<and> bs_import S ''openai'' = Inr () \<and>
     fst (bs_help S) = 0 \<and> substring ''--l2-adapter'' (fst (snd (bs_help S)) @ snd (snd (bs_help S))) \<and>
     bs_import S ''lmcache_aerospike.l2_plugin'' = Inr () \<and> bs_l2_mp_available S \<and>
     (resp \<longrightarrow> bs_import S ''lmcache.lmcache_redis'' = Inr ()) \<and>
     (native_aerospike \<longrightarrow> bs_import S ''lmcache_aerospike._native'' = Inr ()) \<and> bootstrap (bs_bootstrap S) = Inr ()"
proof -
  have "snd (bench_main resp native_aerospike S) = [''OK: preflight_l2_bench passed''] \<longleftrightarrow>
    fst (bench_main resp native_aerospike S) = Inr ()"
    by (auto simp: bench_main_def Let_def split: sum.splits)
  then show ?thesis
    by (simp add: bench_main_def check_common_def Let_def case_prod_beta bind_or_fail cong: conj_cong)
qed

text \<open>The sets are truncated one after the other, each once, whatever fails, and the client is
  closed after them.\<close>

fun event_set :: "client_event \<Rightarrow> string list" where
  "event_set (Truncated ns st) = [st]"
| "event_set (TruncateFailed ns st) = [st]"
| "event_set _ = []"

lemma truncate_sets_all: "concat (map event_set (fst (truncate_sets trunc ns sets s))) = sets"
  by (induction sets arbitrary: s) (auto simp: case_prod_beta Let_def split: sum.splits)

theorem truncate_main_attempts_all:
  assumes "truncate_main env installed connect trunc s = (Inr n, evs, s')" and "evs \<noteq> []"
  shows "n = 0 \<and> last evs = Closed \<and> distinct (concat (map event_set evs)) \<and>
    set (concat (map event_set evs)) =
      {env_or env ''AEROSPIKE_BENCH_L2_SET'' ''kv_chunks_bench_l2'',
       env_or env ''AEROSPIKE_NATIVE_BENCH_L2_SET'' ''kv_chunks_bench_l2_native''}"
proof -
  let ?sets = "[env_or env ''AEROSPIKE_BENCH_L2_SET'' ''kv_chunks_bench_l2'',
    env_or env ''AEROSPIKE_NATIVE_BENCH_L2_SET'' ''kv_chunks_bench_l2_native'']"
  obtain host port ns s1 evs1 where e: "n = 0" "truncate_sets trunc ns (dict_fromkeys ?sets) s1 = (evs1, s')"
    "evs = Connected host port # evs1 @ [Closed]"
    using assms by (auto simp: truncate_main_def Let_def split: option.splits if_splits prod.splits sum.splits)
  then have "concat (map event_set evs) = dict_fromkeys ?sets"
    using truncate_sets_all [of trunc ns "dict_fromkeys ?sets" s1] by simp
  then have "distinct (concat (map event_set evs)) \<and> set (concat (map event_set evs)) = set ?sets"
    by (simp only: set_dict_fromkeys distinct_dict_fromkeys simp_thms)
  with e show ?thesis by simp
qed

theorem truncate_main_attempts_all_witness:
  "last (fst (snd (truncate_main [] True (\<lambda>_ _ s. (Inr (), s)) (\<lambda>_ _ s. (Inl (Builtin RuntimeError), s)) ()))) = Closed"
proof -
  let ?m = "truncate_main [] True (\<lambda>_ _ s. (Inr (), s)) (\<lambda>_ _ s. (Inl (Builtin RuntimeError), s)) ()"
  have "fst ?m = Inr 0 \<and> fst (snd ?m) \<noteq> []" by code_simp
  then obtain evs s' where "?m = (Inr 0, evs, s')" "evs \<noteq> []" by (metis prod.collapse)
  from truncate_main_attempts_all [OF this] \<open>?m = (Inr 0, evs, s')\<close> show ?thesis by simp
qed

end
