(* ===== verification/Spec2Isabelle.thy ===== *)
theory Spec2Isabelle
  imports Connector_Batch Shared_Cluster Plugin_Roundtrip L2_Roundtrip Native_Connector Preflight
begin

text \<open>
  Verification of \<open>lmcache-aerospike\<close>, the Aerospike storage backend for LMCache: the Python package
  \<open>src/src/lmcache_aerospike\<close>, its build script and the scripts that check an installation. The backend keeps chunks of a key-value cache in an Aerospike
  database. A small chunk is one record; a large one is cut into segment records that a meta
  record describes. Three front ends use one storage engine: the remote connector (asyncio), the
  storage plugin (a thread pool with put tasks) and the L2 plugin (task ids and event
  descriptors); they share one connected client per cluster through a reference-counted registry.

  \<^bold>\<open>Theories and sources.\<close>

  \<^item> \<open>Prelude\<close>, \<open>Py_Text\<close>: dictionaries as association lists, slices, blocks, ceiling division;
    the string and integer operations of Python that the sources use.

  \<^item> \<open>Errors\<close> (\<open>errors.py\<close>): exceptions as a datatype, \<open>classify\<close>, \<open>map_aerospike_error\<close>. An operation
    that may raise returns a sum whose left side is the exception.

  \<^item> \<open>Config\<close> (\<open>config.py\<close>), \<open>Policies\<close> (\<open>policies.py\<close>), \<open>Metrics\<close> (\<open>metrics.py\<close>), \<open>Sharding\<close>
    (\<open>sharding.py\<close>), \<open>Limits\<close> (\<open>limits.py\<close> and the start-up of the engine), \<open>Keys\<close> (\<open>keys.py\<close>,
    \<open>object_keys.py\<close>), \<open>Crc32\<close> (\<open>zlib.crc32\<close>), \<open>Serde\<close> (\<open>serde.py\<close>).

  \<^item> \<open>Aerospike_Client\<close>: the boundary. The client library is not part of the sources; it is a
    record of calls, and the locales \<open>aerospike_client\<close> (every call may fail, a failed write may
    have happened) and \<open>healthy_client\<close> (a live server answers) state what its documentation
    promises. A reference server interprets both.

  \<^item> \<open>Engine\<close> (\<open>engine.py\<close>): every operation of \<open>AerospikeStorageEngine\<close> as a function of the world
    (server state, heap of memory objects, metrics, time). \<open>Engine_Read\<close>, \<open>Engine_Write\<close>,
    \<open>Engine_Ops\<close> prove the behaviour inside the locales \<open>storage_env\<close> and \<open>healthy_env\<close>, which join
    the contracts of client and memory; \<open>Engine_Props\<close>, \<open>Engine_Admin\<close>, \<open>Engine_Batch\<close> state the
    properties and interpret the locales on the reference server. \<open>Engine_Types\<close> gives the schema
    of the stored records and the operations as a step relation that keeps it; \<open>Engine_Load\<close> shows
    that a batched read of intact keys on a healthy server is complete.

  \<^item> \<open>Put_Threads\<close>: \<open>put\<close> in steps, one client call that writes per step, and the interleaving
    that \<open>asyncio.gather\<close> allows. \<open>Get_Threads\<close>: \<open>get\<close> in steps, one client call per step.
    \<open>Shared_Cluster\<close>: puts and gets of many clients on one database, call by call, with
    removals, pins and expiry at any moment.

  \<^item> \<open>Client_Holder\<close> (\<open>client.py\<close>): the registry of clients as a state machine.

  \<^item> \<open>Plugin_Support\<close> (\<open>plugin_support.py\<close>), \<open>Connector\<close>, \<open>Connector_Props\<close>, \<open>Connector_Batch\<close>
    (\<open>connector.py\<close>, \<open>adapter.py\<close>), \<open>Storage_Plugin\<close>, \<open>Plugin_Roundtrip\<close> (\<open>storage_plugin.py\<close>), \<open>L2_Plugin\<close>,
    \<open>L2_Chunks\<close>, \<open>L2_Props\<close>, \<open>L2_Tasks\<close>, \<open>L2_Drain\<close>, \<open>L2_Roundtrip\<close> (\<open>l2_plugin.py\<close>),
    \<open>Native_Connector\<close> (\<open>native_connector.py\<close>, the guards of \<open>l2_plugin.py\<close>, \<open>__init__.py\<close>).

  \<^item> \<open>Build_Setup\<close> (\<open>setup.py\<close>): discovery of headers and libraries and the native extension.
    \<open>Preflight\<close> (\<open>scripts/preflight.py\<close>, \<open>scripts/preflight_l2_bench.py\<close> with
    \<open>benchmarks/l2/bootstrap.py\<close>, \<open>scripts/truncate_aerospike_bench_sets.py\<close>): the checks of an
    installation. What these see of the machine is a record of observations.

  \<^bold>\<open>What is shown.\<close> The abstract content of the database is \<open>payload_of\<close>, a map from keys to byte
  strings. The engine's operations refine it: a put that returns is an update, a put that raises
  leaves every other key alone and commits at the meta record, \<open>remove\<close> is a deletion, pins
  change nothing, and \<open>get\<close> returns exactly the committed bytes with a matching checksum. The
  batched operations report a flag only for what they have done. On a healthy server put and get
  round-trip, and lookups tell presence. Start-up accepts only limits under which every record
  keeps the safety margin below the server's record size. The front ends preserve this under
  concurrency: interleaved puts, blocks in any order, put jobs, task ids and the semaphore are
  step relations with invariants proved by induction over their runs; references on the shared
  client are counted exactly. The records stay typed under any sequence of operations, failing ones
  included, so reads raise no error of the Python data model. Clients that share a
  database need no coordination as long as a name stands for one content: whatever they interleave,
  and whatever expires or fails, a get delivers that content or nothing. The batch semaphore cannot
  deadlock, put jobs end, and what a job has reported can be read. The queue of the L2 plugin always
  drains, each task leaving its result and one notification, and what a store task has stored a
  load task brings back. The native extension is optional and is linked against a library that
  exists; a passed preflight means that the methods it asks for are there. Some theorems state behaviour that is probably not intended: keys
  stranded after a failing put, a reference lost when start-up fails, a second \<open>close\<close> of the L2
  plugin, an override that makes every put fail.

  \<^bold>\<open>Bounds.\<close> No definition uses fuel. Loops are structural recursions over lists; the only
  measures are steps left: of a put and of a call on the semaphore (at most two), of a put job.
  Python integers are unbounded integers; bytes are 8-bit words; the checksum is computed on 32-bit words.

  \<^bold>\<open>Modelling choices.\<close> Where Python runs code concurrently, the order is an argument (a schedule)
  or a step relation, and properties hold for all orders. The grain is: one writing client call
  for the puts of \<open>batched_put\<close>; a whole engine get for \<open>batched_get_non_blocking\<close>; one put for the
  jobs of the storage plugin; one block of 32 items for \<open>_parallel_chunks\<close>; one task for the L2
  pool; one client call for \<open>Shared_Cluster\<close>. Only there do other clients write, and records expire,
  within an operation; expiry is the disappearance of records at any moment, not a clock. The other
  properties are about one operation, or the operations of one process, at a time. LMCache's memory
  objects, allocators and metadata encoding are parameters with the contract \<open>lmcache_memory\<close>.

  \<^bold>\<open>Not modelled.\<close> Log and error messages, latencies and event descriptors (counted only);
  the clock of record expiry; the C++ connector under \<open>src/csrc\<close>, which rests on headers that are
  not in the repository; the benchmark drivers (their bootstrap apart) and the tests, which hold no
  logic of the backend.
\<close>

end
